theory Spec2Isabelle
  imports Complex_Main "HOL-Library.Word"
begin

section \<open>Bytes and little-endian integers\<close>

text \<open>
  The program handles every file as an array of C \<open>char\<close>. A byte is modelled by HOL's
  8-bit \<open>char\<close>, a 32-bit unsigned integer by \<open>32 word\<close> and a 16-bit one by
  \<open>16 word\<close>. The conversion functions of the source inspect the host's byte order and
  swap when the host is big-endian, so that on either host four bytes are read and
  written least significant byte first; the model states that result.
\<close>

type_synonym byte = char

definition littleEndianBytesToUInt32 :: "byte list \<Rightarrow> 32 word" where
  "littleEndianBytesToUInt32 bs =
     word_of_nat (of_char (bs ! 0) + 256 * of_char (bs ! 1)
                  + 65536 * of_char (bs ! 2) + 16777216 * of_char (bs ! 3))"

definition uint32ToLittleEndianBytes :: "32 word \<Rightarrow> byte list" where
  "uint32ToLittleEndianBytes w =
     [char_of (unat w), char_of (unat w div 256),
      char_of (unat w div 65536), char_of (unat w div 16777216)]"

definition littleEndianBytesToUInt16 :: "byte list \<Rightarrow> 16 word" where
  "littleEndianBytesToUInt16 bs = word_of_nat (of_char (bs ! 0) + 256 * of_char (bs ! 1))"

section \<open>The C streams\<close>

text \<open>
  An input stream is the file's bytes, the read position, the end-of-file and error
  indicators, and \<open>rd_budget\<close>: the number of \<open>fread\<close> calls the device still serves before
  a read error (\<open>None\<close>: the device never fails). The position may stand beyond the end
  of the file after a seek; a read there transfers nothing and sets the end-of-file
  indicator.
\<close>

record FILE_in =
  contents :: "byte list"
  fpos :: nat
  feof :: bool
  ferror :: bool
  rd_budget :: "nat option"

text \<open>
  \<open>fread\<close> transfers the bytes that are there, at most \<open>n\<close>, and sets the end-of-file
  indicator when they are fewer than \<open>n\<close>. A device error transfers nothing and sets
  the error indicator.
\<close>

definition fread :: "nat \<Rightarrow> FILE_in \<Rightarrow> byte list \<times> FILE_in" where
  "fread n f =
     (if rd_budget f = Some 0 then ([], f\<lparr>ferror := True\<rparr>)
      else
        let got = take n (drop (fpos f) (contents f))
        in (got, f\<lparr>fpos := fpos f + length got,
                    feof := (feof f \<or> length got < n),
                    rd_budget := map_option (\<lambda>k. k - 1) (rd_budget f)\<rparr>))"

text \<open>
  The bytes of a buffer after a read of \<open>n\<close> bytes that transferred \<open>got\<close>: the bytes
  read, then what the buffer held before. For a buffer the source does not initialise
  (a local array, a \<open>malloc\<close> block) that is indeterminate; the model takes it from the
  parameter \<open>stale\<close>, the byte found at each index of such a buffer.
\<close>

definition buffer_after :: "(nat \<Rightarrow> byte) \<Rightarrow> nat \<Rightarrow> byte list \<Rightarrow> byte list" where
  "buffer_after stale n got = got @ map stale [length got..<n]"

definition ftell :: "FILE_in \<Rightarrow> int" where
  "ftell f = int (fpos f)"

text \<open>
  \<open>fseek\<close> fails (\<open>None\<close>) on a position before the start of the file; otherwise it
  moves the position and clears the end-of-file indicator.
\<close>

definition fseek_set :: "int \<Rightarrow> FILE_in \<Rightarrow> FILE_in option" where
  "fseek_set off f = (if off < 0 then None else Some (f\<lparr>fpos := nat off, feof := False\<rparr>))"

definition fseek_cur :: "int \<Rightarrow> FILE_in \<Rightarrow> FILE_in option" where
  "fseek_cur off f = fseek_set (int (fpos f) + off) f"

text \<open>A call of \<open>fseek\<close> whose result the source ignores.\<close>

definition fseek_set_ignored :: "int \<Rightarrow> FILE_in \<Rightarrow> FILE_in" where
  "fseek_set_ignored off f = (case fseek_set off f of None \<Rightarrow> f | Some f' \<Rightarrow> f')"

definition fseek_cur_ignored :: "int \<Rightarrow> FILE_in \<Rightarrow> FILE_in" where
  "fseek_cur_ignored off f = (case fseek_cur off f of None \<Rightarrow> f | Some f' \<Rightarrow> f')"

text \<open>
  The output stream is the bytes written so far and \<open>wr_budget\<close>, the number of
  \<open>fwrite\<close> calls the device still accepts (\<open>None\<close>: every write succeeds). A refused
  write transfers nothing.
\<close>

record FILE_out =
  written :: "byte list"
  wr_budget :: "nat option"

definition fwrite :: "byte list \<Rightarrow> FILE_out \<Rightarrow> FILE_out option" where
  "fwrite bs out =
     (if wr_budget out = Some 0 then None
      else Some (out\<lparr>written := written out @ bs,
                     wr_budget := map_option (\<lambda>k. k - 1) (wr_budget out)\<rparr>))"

section \<open>The byte-range copier\<close>

text \<open>
  \<open>startOffset\<close> is a C \<open>long\<close> and \<open>size\<close> a \<open>size_t\<close>, both 64 bits wide on the
  hosts considered; no computation of the program reaches their bounds, so they are
  an \<open>int\<close> and a \<open>nat\<close>.
\<close>

record ChunkLocation =
  startOffset :: int
  chunk_size :: nat

text \<open>
  The first loop of \<open>writeChunkLocationFromInputFileToOutputFile\<close>: blocks of 1024 bytes
  while at least 1024 remain. \<open>Inl\<close> is a return of -1 from inside the loop, after the
  seek back to the saved position; \<open>Inr\<close> carries the bytes that remain.
\<close>

function copy_blocks ::
  "(nat \<Rightarrow> byte) \<Rightarrow> int \<Rightarrow> nat \<Rightarrow> FILE_in \<Rightarrow> FILE_out
     \<Rightarrow> (FILE_in \<times> FILE_out) + (nat \<times> FILE_in \<times> FILE_out)" where
  "copy_blocks stale inputFileOrigLocation remainingBytesToWrite inputFile outputFile =
     (if remainingBytesToWrite \<ge> 1024 then
        (case fread 1024 inputFile of (got, f1) \<Rightarrow>
           if ferror f1 then Inl (fseek_set_ignored inputFileOrigLocation f1, outputFile)
           else
             (case fwrite (buffer_after stale 1024 got) outputFile of
                None \<Rightarrow> Inl (fseek_set_ignored inputFileOrigLocation f1, outputFile)
              | Some o1 \<Rightarrow>
                  copy_blocks stale inputFileOrigLocation (remainingBytesToWrite - 1024) f1 o1))
      else Inr (remainingBytesToWrite, inputFile, outputFile))"
  by pat_completeness auto
termination
  by (relation "measure (\<lambda>(stale, orig, remaining, f, out). remaining)") auto

declare copy_blocks.simps [simp del]

text \<open>The copier. The result is the return code with both streams as the call leaves them.\<close>

definition writeChunkLocationFromInputFileToOutputFile ::
  "(nat \<Rightarrow> byte) \<Rightarrow> ChunkLocation \<Rightarrow> FILE_in \<Rightarrow> FILE_out \<Rightarrow> int \<times> FILE_in \<times> FILE_out" where
  "writeChunkLocationFromInputFileToOutputFile stale chunk inputFile outputFile =
     (let inputFileOrigLocation = ftell inputFile in
      case fseek_set (startOffset chunk) inputFile of
        None \<Rightarrow> (-1, inputFile, outputFile)
      | Some f0 \<Rightarrow>
          (case copy_blocks stale inputFileOrigLocation (chunk_size chunk) f0 outputFile of
             Inl (f1, o1) \<Rightarrow> (-1, f1, o1)
           | Inr (remainingBytesToWrite, f1, o1) \<Rightarrow>
               if remainingBytesToWrite > 0 then
                 (case fread remainingBytesToWrite f1 of (got, f2) \<Rightarrow>
                    if ferror f2 then (-1, fseek_set_ignored inputFileOrigLocation f2, o1)
                    else
                      (case fwrite (buffer_after stale remainingBytesToWrite got) o1 of
                         None \<Rightarrow> (-1, fseek_set_ignored inputFileOrigLocation f2, o1)
                       | Some o2 \<Rightarrow> (0, f2, o2)))
               else (0, f1, o1)))"

text \<open>An input stream just opened on the given bytes, and one positioned in it.\<close>

definition fopen_in :: "byte list \<Rightarrow> nat option \<Rightarrow> FILE_in" where
  "fopen_in bs budget =
     \<lparr>contents = bs, fpos = 0, feof = False, ferror = False, rd_budget = budget\<rparr>"

definition fopen_out :: "nat option \<Rightarrow> FILE_out" where
  "fopen_out budget = \<lparr>written = [], wr_budget = budget\<rparr>"

section \<open>Outcomes\<close>

text \<open>
  Every \<open>goto CleanUpAndExit\<close> with return code -1 and every \<open>return -1\<close> of the source
  is an \<open>Exit\<close> with the diagnostic printed there. \<open>Undefined\<close> marks an execution
  that leaves the C standard's defined behaviour (a store outside an array, a
  floating-point value converted to an integer type that cannot hold it): the program
  prints nothing and does not exit there. \<open>Unmodelled_number\<close> marks a label file
  whose numeric field uses a spelling the model of \<open>fscanf\<close> does not cover.
\<close>

datatype diagnostic =
    CouldNotOpenInput | CouldNotOpenLabel | AllocHeader | ReadError | NotRIFF | NotWAVE
  | EmptyWave | AllocFormat | CompressedNotSupported | TooManyChunks | NoFormatOrData
  | NoCuePoints | AllocCuePoints | AllocLabelData | CouldNotOpenOutput
  | WriteHeaderError | WriteFormatError | WritePaddingError | WriteCueHeaderError
  | WriteCuePointError | WriteAdtlHeaderError | WriteLabelsError | CopyChunkError

datatype undefined_behaviour =
    LabelStringOverflow | LabelTableOverflow | FloatToIntOutOfRange

datatype error = Exit diagnostic | Undefined undefined_behaviour | Unmodelled_number

definition bind_err :: "error + 'a \<Rightarrow> ('a \<Rightarrow> error + 'b) \<Rightarrow> error + 'b" where
  "bind_err m k = (case m of Inl e \<Rightarrow> Inl e | Inr x \<Rightarrow> k x)"

text \<open>
  What the environment decides: the indeterminate bytes of uninitialised buffers,
  whether each \<open>fopen\<close> and \<open>malloc\<close> succeeds, and when the devices fail.
\<close>

record environment =
  stale_bytes :: "nat \<Rightarrow> byte"
  input_opens :: bool
  label_opens :: bool
  output_opens :: bool
  malloc_header_ok :: bool
  malloc_format_ok :: bool
  malloc_cue_ok :: bool
  malloc_list_ok :: bool
  input_rd_budget :: "nat option"
  output_wr_budget :: "nat option"

section \<open>The structures of the source\<close>

text \<open>
  The structures are arrays of \<open>char\<close> laid out without padding; \<open>fread\<close> fills them
  from a buffer of their size and \<open>fwrite\<close> emits their fields in order. Field names
  that several structures share carry a suffix.
\<close>

record WaveHeader =
  chunkID_h :: "byte list"
  dataSize :: "byte list"
  riffType :: "byte list"

definition WaveHeader_of_bytes :: "byte list \<Rightarrow> WaveHeader" where
  "WaveHeader_of_bytes bs =
     \<lparr>chunkID_h = take 4 bs, dataSize = take 4 (drop 4 bs), riffType = take 4 (drop 8 bs)\<rparr>"

definition WaveHeader_bytes :: "WaveHeader \<Rightarrow> byte list" where
  "WaveHeader_bytes h = chunkID_h h @ dataSize h @ riffType h"

record FormatChunk =
  chunkID_f :: "byte list"
  chunkDataSize_f :: "byte list"
  compressionCode :: "byte list"
  numberOfChannels :: "byte list"
  sampleRate :: "byte list"
  averageBytesPerSecond :: "byte list"
  blockAlign :: "byte list"
  significantBitsPerSample :: "byte list"

definition FormatChunk_of_bytes :: "byte list \<Rightarrow> FormatChunk" where
  "FormatChunk_of_bytes bs =
     \<lparr>chunkID_f = take 4 bs, chunkDataSize_f = take 4 (drop 4 bs),
      compressionCode = take 2 (drop 8 bs), numberOfChannels = take 2 (drop 10 bs),
      sampleRate = take 4 (drop 12 bs), averageBytesPerSecond = take 4 (drop 16 bs),
      blockAlign = take 2 (drop 20 bs), significantBitsPerSample = take 2 (drop 22 bs)\<rparr>"

definition FormatChunk_bytes :: "FormatChunk \<Rightarrow> byte list" where
  "FormatChunk_bytes fc =
     chunkID_f fc @ chunkDataSize_f fc @ compressionCode fc @ numberOfChannels fc
     @ sampleRate fc @ averageBytesPerSecond fc @ blockAlign fc @ significantBitsPerSample fc"

record CuePoint =
  cuePointID :: "byte list"
  playOrderPosition :: "byte list"
  dataChunkID :: "byte list"
  chunkStart :: "byte list"
  blockStart :: "byte list"
  frameOffset :: "byte list"

definition CuePoint_bytes :: "CuePoint \<Rightarrow> byte list" where
  "CuePoint_bytes c =
     cuePointID c @ playOrderPosition c @ dataChunkID c @ chunkStart c @ blockStart c
     @ frameOffset c"

record CueChunk =
  chunkID_c :: "byte list"
  chunkDataSize_c :: "byte list"
  cuePointsCount :: "byte list"
  cuePoints :: "CuePoint list"

record ListChunk =
  chunkID_l :: "byte list"
  chunkDataSize_l :: "byte list"
  typeID :: "byte list"
  labelChunks :: "byte list"

text \<open>
  \<open>LabelInfo\<close> holds three arrays of 500 entries and the number of entries in use. The
  model keeps the entries in use: the three lists have \<open>count\<close> elements, and a row of
  \<open>labels\<close> is the 500 bytes of that row of the array. A store at index 500 or beyond
  is outside the arrays and is an \<open>Undefined\<close> outcome of the reader below.
\<close>

record LabelInfo =
  locations :: "32 word list"
  labels :: "byte list list"
  labelLengths :: "nat list"
  count :: "32 word"

section \<open>The chunk scanner\<close>

text \<open>
  The variables of \<open>addLabelsToWaveFile\<close> that the scan loop updates.
  \<open>formatChunk\<close> is the pointer: \<open>None\<close> is \<open>NULL\<close>. \<open>otherChunksCount\<close> is the
  length of \<open>otherChunkLocations\<close>.
\<close>

record scan_state =
  inputFile :: FILE_in
  formatChunk :: "FormatChunk option"
  formatChunkExtraBytes :: ChunkLocation
  dataChunkLocation :: ChunkLocation
  otherChunkLocations :: "ChunkLocation list"

text \<open>One turn of the loop: the next turn, a \<open>break\<close>, or a fatal exit.\<close>

datatype scan_outcome = Next scan_state | Done scan_state | Failed diagnostic

definition maxOtherChunks :: nat where
  "maxOtherChunks = 256"

text \<open>
  Skipping a payload of \<open>n\<close> bytes and the pad byte after an odd one. The offset is a
  \<open>uint32_t\<close> converted to \<open>long\<close>, which holds it.
\<close>

definition skip_chunk_data :: "32 word \<Rightarrow> FILE_in \<Rightarrow> FILE_in" where
  "skip_chunk_data n f =
     (let f1 = fseek_cur_ignored (uint n) f
      in if unat n mod 2 \<noteq> 0 then fseek_cur_ignored 1 f1 else f1)"

text \<open>The branch for \<open>fmt \<close>; \<open>f1\<close> is the stream after the identifier.\<close>

definition scan_fmt :: "environment \<Rightarrow> scan_state \<Rightarrow> FILE_in \<Rightarrow> scan_outcome" where
  "scan_fmt env st f1 =
     (if \<not> malloc_format_ok env then Failed AllocFormat
      else
        let f2 = fseek_cur_ignored (- 4) f1 in
        case fread 24 f2 of (got, f3) \<Rightarrow>
          let fc = FormatChunk_of_bytes (buffer_after (stale_bytes env) 24 got) in
          if ferror f3 then Failed ReadError
          else
            let compression = littleEndianBytesToUInt16 (compressionCode fc) in
            if compression \<noteq> 1 \<and> compression \<noteq> 3 then Failed CompressedNotSupported
            else
              let extraFormatBytesCount = littleEndianBytesToUInt32 (chunkDataSize_f fc) - 16 in
              if extraFormatBytesCount > 0 then
                Next (st\<lparr>inputFile := skip_chunk_data extraFormatBytesCount f3,
                         formatChunk := Some fc,
                         formatChunkExtraBytes :=
                           \<lparr>startOffset = ftell f3, chunk_size = unat extraFormatBytesCount\<rparr>\<rparr>)
              else Next (st\<lparr>inputFile := f3, formatChunk := Some fc\<rparr>))"

text \<open>The branch for \<open>data\<close>. The size buffer is a local array without initialiser.\<close>

definition scan_data :: "environment \<Rightarrow> scan_state \<Rightarrow> FILE_in \<Rightarrow> scan_outcome" where
  "scan_data env st f1 =
     (let start = ftell f1 - 4 in
      case fread 4 f1 of (got, f2) \<Rightarrow>
        if ferror f2 then Failed ReadError
        else
          let sampleDataSize = littleEndianBytesToUInt32 (buffer_after (stale_bytes env) 4 got)
          in Next (st\<lparr>inputFile := skip_chunk_data sampleDataSize f2,
                      dataChunkLocation :=
                        \<lparr>startOffset = start, chunk_size = 4 + 4 + unat sampleDataSize\<rparr>\<rparr>))"

text \<open>The branch for \<open>cue \<close>: the chunk is skipped.\<close>

definition scan_cue :: "environment \<Rightarrow> scan_state \<Rightarrow> FILE_in \<Rightarrow> scan_outcome" where
  "scan_cue env st f1 =
     (case fread 4 f1 of (got, f2) \<Rightarrow>
        if ferror f2 then Failed ReadError
        else
          let cueChunkDataSize = littleEndianBytesToUInt32 (buffer_after (stale_bytes env) 4 got)
          in Next (st\<lparr>inputFile := skip_chunk_data cueChunkDataSize f2\<rparr>))"

text \<open>
  Recording a chunk that is copied to the output later. Here the size buffer is
  initialised with zeros.
\<close>

definition scan_other :: "scan_state \<Rightarrow> FILE_in \<Rightarrow> scan_outcome" where
  "scan_other st f1 =
     (if length (otherChunkLocations st) \<ge> maxOtherChunks then Failed TooManyChunks
      else
        let start = ftell f1 - 4 in
        case fread 4 f1 of (got, f2) \<Rightarrow>
          if ferror f2 then Failed ReadError
          else
            let chunkDataSize = littleEndianBytesToUInt32 (buffer_after (\<lambda>i. CHR 0x00) 4 got)
            in Next (st\<lparr>inputFile := skip_chunk_data chunkDataSize f2,
                        otherChunkLocations := otherChunkLocations st @
                          [\<lparr>startOffset = start, chunk_size = 4 + 4 + unat chunkDataSize\<rparr>]\<rparr>))"

text \<open>
  The branch for \<open>LIST\<close>. An \<open>adtl\<close> list is skipped: the offset of that seek is
  \<open>chunkDataSize - 4\<close> computed in \<open>size_t\<close> and converted to \<open>long\<close>, negative when the
  declared size is below 4. Any other list is recorded, after the seek back to the
  byte that follows the identifier.
\<close>

definition scan_list :: "environment \<Rightarrow> scan_state \<Rightarrow> FILE_in \<Rightarrow> scan_outcome" where
  "scan_list env st f1 =
     (case fread 4 f1 of (got, f2) \<Rightarrow>
        if ferror f2 then Failed ReadError
        else
          let chunkDataSize = littleEndianBytesToUInt32 (buffer_after (\<lambda>i. CHR 0x00) 4 got) in
          case fread 4 f2 of (got_type, f3) \<Rightarrow>
            let listTypeID = buffer_after (stale_bytes env) 4 got_type in
            if feof f3 then Done (st\<lparr>inputFile := f3\<rparr>)
            else if ferror f3 then Failed ReadError
            else if listTypeID = ''adtl'' then
              (let f4 = fseek_cur_ignored (uint chunkDataSize - 4) f3;
                   f5 = (if unat chunkDataSize mod 2 \<noteq> 0 then fseek_cur_ignored 1 f4 else f4)
               in Next (st\<lparr>inputFile := f5\<rparr>))
            else scan_other st (fseek_cur_ignored (- 8) f3))"

text \<open>One turn of the \<open>while (1)\<close> loop.\<close>

definition scan_chunk :: "environment \<Rightarrow> scan_state \<Rightarrow> scan_outcome" where
  "scan_chunk env st =
     (case fread 4 (inputFile st) of (got, f1) \<Rightarrow>
        let nextChunkID = buffer_after (stale_bytes env) 4 got in
        if feof f1 then Done (st\<lparr>inputFile := f1\<rparr>)
        else if ferror f1 then Failed ReadError
        else if nextChunkID = ''fmt '' then scan_fmt env st f1
        else if nextChunkID = ''data'' then scan_data env st f1
        else if nextChunkID = ''cue '' then scan_cue env st f1
        else if nextChunkID = ''LIST'' then scan_list env st f1
        else scan_other st f1)"

text \<open>
  The loop runs while turns ask for the next one. A turn that does so has read four
  identifier bytes and leaves the position further on, which bounds the number of turns
  by the bytes of the file.
\<close>

definition scan_measure :: "scan_state \<Rightarrow> nat" where
  "scan_measure st = length (contents (inputFile st)) - fpos (inputFile st)"

lemma fread_cases:
  assumes "fread n f = (got, f')"
  shows "contents f' = contents f"
    and "\<not> ferror f' \<Longrightarrow> fpos f' = fpos f + length got"
    and "\<not> ferror f' \<Longrightarrow> \<not> feof f' \<Longrightarrow> length got = n"
    and "\<not> ferror f' \<Longrightarrow> got = take n (drop (fpos f) (contents f))"
    and "fpos f \<le> fpos f'"
  using assms by (auto simp: fread_def Let_def split: if_splits)

lemma fread_full:
  "fread n f = (got, f') \<Longrightarrow> \<not> ferror f' \<Longrightarrow> \<not> feof f' \<Longrightarrow> 0 < n
   \<Longrightarrow> fpos f + n \<le> length (contents f)"
  by (auto simp: fread_def Let_def split: if_splits)

lemma fseek_cur_ignored_contents [simp]:
  "contents (fseek_cur_ignored off f) = contents f"
  by (simp add: fseek_cur_ignored_def fseek_cur_def fseek_set_def)

lemma fseek_cur_ignored_fpos:
  "fpos (fseek_cur_ignored off f) = (if int (fpos f) + off < 0 then fpos f else nat (int (fpos f) + off))"
  by (simp add: fseek_cur_ignored_def fseek_cur_def fseek_set_def)

lemma skip_chunk_data_contents [simp]: "contents (skip_chunk_data n f) = contents f"
  by (simp add: skip_chunk_data_def Let_def)

lemma le_nat_uint: "0 \<le> k \<Longrightarrow> p \<le> nat (int p + uint (n :: 32 word) + k)"
  using uint_ge_0 [of n] by linarith

lemma skip_chunk_data_fpos: "fpos f \<le> fpos (skip_chunk_data n f)"
  using le_nat_uint [of 0 "fpos f" n] le_nat_uint [of 1 "fpos f" n]
  by (auto simp: skip_chunk_data_def Let_def fseek_cur_ignored_fpos)

lemma fread_mono:
  "fread n f = (got, f') \<Longrightarrow> contents f' = contents f \<and> fpos f \<le> fpos f'"
  by (auto simp: fread_def Let_def split: if_splits)

lemma read_then_skip:
  "fread n f = (got, f2) \<Longrightarrow>
     contents (skip_chunk_data m f2) = contents f \<and> fpos f \<le> fpos (skip_chunk_data m f2)"
  using fread_mono [of n f got f2] skip_chunk_data_fpos [of f2 m] by simp

lemma scan_other_next:
  assumes "scan_other st f1 = Next st'"
  shows "contents (inputFile st') = contents f1 \<and> fpos f1 \<le> fpos (inputFile st')"
proof -
  obtain got f2 where rd: "fread 4 f1 = (got, f2)" by (cases "fread 4 f1")
  from assms rd obtain m where "inputFile st' = skip_chunk_data m f2"
    by (auto simp: scan_other_def Let_def split: if_splits)
  then show ?thesis using read_then_skip [OF rd, of m] by simp
qed

lemma scan_data_next:
  assumes "scan_data env st f1 = Next st'"
  shows "contents (inputFile st') = contents f1 \<and> fpos f1 \<le> fpos (inputFile st')"
proof -
  obtain got f2 where rd: "fread 4 f1 = (got, f2)" by (cases "fread 4 f1")
  from assms rd obtain m where "inputFile st' = skip_chunk_data m f2"
    by (auto simp: scan_data_def Let_def split: if_splits)
  then show ?thesis using read_then_skip [OF rd, of m] by simp
qed

lemma scan_cue_next:
  assumes "scan_cue env st f1 = Next st'"
  shows "contents (inputFile st') = contents f1 \<and> fpos f1 \<le> fpos (inputFile st')"
proof -
  obtain got f2 where rd: "fread 4 f1 = (got, f2)" by (cases "fread 4 f1")
  from assms rd obtain m where "inputFile st' = skip_chunk_data m f2"
    by (auto simp: scan_cue_def Let_def split: if_splits)
  then show ?thesis using read_then_skip [OF rd, of m] by simp
qed

lemma scan_fmt_next:
  "scan_fmt env st f1 = Next st' \<Longrightarrow> 4 \<le> fpos f1 \<Longrightarrow> fpos f1 \<le> length (contents f1) \<Longrightarrow>
     contents (inputFile st') = contents f1 \<and> fpos f1 \<le> fpos (inputFile st')"
proof -
  assume a: "scan_fmt env st f1 = Next st'" and p: "4 \<le> fpos f1" "fpos f1 \<le> length (contents f1)"
  let ?f2 = "fseek_cur_ignored (- 4) f1"
  obtain got f3 where rd: "fread 24 ?f2 = (got, f3)" by (cases "fread 24 ?f2")
  have p2: "fpos ?f2 = fpos f1 - 4" using p by (simp add: fseek_cur_ignored_fpos)
  from a rd have ne: "\<not> ferror f3" by (auto simp: scan_fmt_def Let_def split: if_splits)
  have c3: "contents f3 = contents f1" using fread_cases(1) [OF rd] by simp
  have "length got \<ge> 4" using fread_cases(4) [OF rd ne] p p2 by simp
  then have p3: "fpos f1 \<le> fpos f3" using fread_cases(2) [OF rd ne] p p2 by simp
  from a rd ne have "inputFile st' = f3 \<or> (\<exists>n. inputFile st' = skip_chunk_data n f3)"
    by (auto simp: scan_fmt_def Let_def split: if_splits)
  then show ?thesis using c3 p3 by (auto intro: order_trans [OF _ skip_chunk_data_fpos])
qed

lemma scan_list_next:
  "scan_list env st f1 = Next st' \<Longrightarrow>
     contents (inputFile st') = contents f1 \<and> fpos f1 \<le> fpos (inputFile st')"
proof -
  assume a: "scan_list env st f1 = Next st'"
  obtain got f2 where rd: "fread 4 f1 = (got, f2)" by (cases "fread 4 f1")
  obtain got' f3 where rd': "fread 4 f2 = (got', f3)" by (cases "fread 4 f2")
  from a rd rd' have ne: "\<not> ferror f2" "\<not> ferror f3" "\<not> feof f3"
    by (auto simp: scan_list_def Let_def split: if_splits)
  have ne2: "\<not> feof f2" using rd' ne by (auto simp: fread_def Let_def split: if_splits)
  have c: "contents f3 = contents f1" using fread_cases(1) [OF rd] fread_cases(1) [OF rd'] by simp
  have p: "fpos f3 = fpos f1 + 8"
    using fread_cases(2,3) [OF rd ne(1)] fread_cases(2,3) [OF rd' ne(2)] ne ne2 by simp
  let ?c = "littleEndianBytesToUInt32 (buffer_after (\<lambda>i. CHR 0x00) 4 got)"
  let ?f4 = "fseek_cur_ignored (uint ?c - 4) f3"
  have p4: "fpos f1 \<le> fpos ?f4" using p le_nat_uint [of 4 "fpos f1" ?c]
    by (auto simp: fseek_cur_ignored_fpos algebra_simps)
  have p8: "fpos (fseek_cur_ignored (- 8) f3) = fpos f1" using p by (simp add: fseek_cur_ignored_fpos)
  from a rd rd' ne have
    "inputFile st' = ?f4 \<or> inputFile st' = fseek_cur_ignored 1 ?f4
      \<or> scan_other st (fseek_cur_ignored (- 8) f3) = Next st'"
    by (auto simp: scan_list_def Let_def split: if_splits)
  then show ?thesis using c p4 p8 scan_other_next [of st "fseek_cur_ignored (- 8) f3" st']
    by (auto simp: fseek_cur_ignored_fpos)
qed

lemma scan_chunk_next:
  assumes "scan_chunk env st = Next st'"
  shows "contents (inputFile st') = contents (inputFile st)"
    and "fpos (inputFile st) + 4 \<le> fpos (inputFile st')"
    and "fpos (inputFile st) + 4 \<le> length (contents (inputFile st))"
proof -
  obtain got f1 where rd: "fread 4 (inputFile st) = (got, f1)" by (cases "fread 4 (inputFile st)")
  from assms rd have ne: "\<not> ferror f1" "\<not> feof f1"
    by (auto simp: scan_chunk_def Let_def split: if_splits)
  have c: "contents f1 = contents (inputFile st)" using fread_cases(1) [OF rd] .
  have p: "fpos f1 = fpos (inputFile st) + 4" using fread_cases(2,3) [OF rd ne(1)] ne by simp
  show 3: "fpos (inputFile st) + 4 \<le> length (contents (inputFile st))"
    using fread_full [OF rd ne] by simp
  from assms rd ne consider
      "scan_fmt env st f1 = Next st'" | "scan_data env st f1 = Next st'"
    | "scan_cue env st f1 = Next st'" | "scan_list env st f1 = Next st'"
    | "scan_other st f1 = Next st'"
    by (auto simp: scan_chunk_def Let_def split: if_splits)
  then have "contents (inputFile st') = contents f1 \<and> fpos f1 \<le> fpos (inputFile st')"
  proof cases
    case 1
    show ?thesis by (rule scan_fmt_next [OF 1]) (use p 3 c in simp_all)
  next
    case 2 then show ?thesis by (rule scan_data_next)
  next
    case 3 then show ?thesis by (rule scan_cue_next)
  next
    case 4 then show ?thesis by (rule scan_list_next)
  next
    case 5 then show ?thesis by (rule scan_other_next)
  qed
  then show "contents (inputFile st') = contents (inputFile st)"
    and "fpos (inputFile st) + 4 \<le> fpos (inputFile st')" using c p by auto
qed

lemma scan_chunk_measure:
  "scan_chunk env st = Next st' \<Longrightarrow> scan_measure st' < scan_measure st"
  using scan_chunk_next [of env st st'] by (simp add: scan_measure_def)

text \<open>The loop: \<open>Inr\<close> is the state at the \<open>break\<close>.\<close>

function scan_chunks :: "environment \<Rightarrow> scan_state \<Rightarrow> diagnostic + scan_state" where
  "scan_chunks env st =
     (case scan_chunk env st of
        Next st' \<Rightarrow> scan_chunks env st'
      | Done st' \<Rightarrow> Inr st'
      | Failed e \<Rightarrow> Inl e)"
  by pat_completeness auto
termination
  by (relation "measure (\<lambda>(env, st). scan_measure st)") (auto simp: scan_chunk_measure)

declare scan_chunks.simps [simp del]

section \<open>Single-precision numbers\<close>

text \<open>
  The start time is a C \<open>float\<close>. The model takes \<open>float\<close> to be IEEE 754 binary32 and
  expressions of type \<open>float\<close> to be evaluated in that format, rounding to nearest with
  ties to even: a finite value is the number it denotes (the sign of a zero
  is not kept; nothing the program computes depends on it).
\<close>

datatype float = Finite real | PlusInfinity | MinusInfinity | NaN

fun bit_length :: "nat \<Rightarrow> nat" where
  "bit_length n = (if n = 0 then 0 else Suc (bit_length (n div 2)))"

declare bit_length.simps [simp del]

definition pow2 :: "int \<Rightarrow> real" where
  "pow2 e = (if 0 \<le> e then 2 ^ nat e else 1 / 2 ^ nat (- e))"

text \<open>For \<open>q > 0\<close>, the exponent \<open>e\<close> with \<open>2 ^ e \<le> q < 2 ^ (e + 1)\<close>.\<close>

definition floor_log2 :: "real \<Rightarrow> int" where
  "floor_log2 q =
     (if 1 \<le> q then int (bit_length (nat \<lfloor>q\<rfloor>)) - 1
      else - int (bit_length (nat (\<lceil>1 / q\<rceil> - 1))))"

definition round_half_even :: "real \<Rightarrow> int" where
  "round_half_even q =
     (let f = \<lfloor>q\<rfloor>; r = q - of_int f
      in if r < 1 / 2 then f else if 1 / 2 < r then f + 1 else if even f then f else f + 1)"

text \<open>
  Rounding a number to binary32: 24 significant bits, the least exponent of a unit in
  the last place being -149, and overflow to an infinity from \<open>2 ^ 128\<close> on.
\<close>

definition round_to_float :: "real \<Rightarrow> float" where
  "round_to_float q =
     (if q = 0 then Finite 0
      else
        let e = max (floor_log2 \<bar>q\<bar> - 23) (- 149);
            r = of_int (round_half_even (\<bar>q\<bar> / pow2 e)) * pow2 e
        in if 2 ^ 128 \<le> r then (if 0 < q then PlusInfinity else MinusInfinity)
           else Finite (if 0 < q then r else - r))"

fun float_mult :: "float \<Rightarrow> float \<Rightarrow> float" where
  "float_mult (Finite a) (Finite b) = round_to_float (a * b)"
| "float_mult NaN y = NaN"
| "float_mult x NaN = NaN"
| "float_mult (Finite a) PlusInfinity =
     (if a = 0 then NaN else if 0 < a then PlusInfinity else MinusInfinity)"
| "float_mult (Finite a) MinusInfinity =
     (if a = 0 then NaN else if 0 < a then MinusInfinity else PlusInfinity)"
| "float_mult PlusInfinity (Finite b) =
     (if b = 0 then NaN else if 0 < b then PlusInfinity else MinusInfinity)"
| "float_mult MinusInfinity (Finite b) =
     (if b = 0 then NaN else if 0 < b then MinusInfinity else PlusInfinity)"
| "float_mult PlusInfinity PlusInfinity = PlusInfinity"
| "float_mult MinusInfinity MinusInfinity = PlusInfinity"
| "float_mult PlusInfinity MinusInfinity = MinusInfinity"
| "float_mult MinusInfinity PlusInfinity = MinusInfinity"

fun float_le :: "float \<Rightarrow> float \<Rightarrow> bool" where
  "float_le (Finite a) (Finite b) = (a \<le> b)"
| "float_le NaN y = False"
| "float_le x NaN = False"
| "float_le MinusInfinity y = True"
| "float_le x PlusInfinity = True"
| "float_le x MinusInfinity = False"
| "float_le PlusInfinity y = False"

definition float_of_uint32 :: "32 word \<Rightarrow> float" where
  "float_of_uint32 w = round_to_float (of_nat (unat w))"

text \<open>
  Conversion to \<open>uint32_t\<close> discards the fraction. When the integral part does not fit
  the type the C standard leaves the behaviour undefined: \<open>None\<close>.
\<close>

definition truncate_toward_zero :: "real \<Rightarrow> int" where
  "truncate_toward_zero q = (if 0 \<le> q then \<lfloor>q\<rfloor> else \<lceil>q\<rceil>)"

fun float_to_uint32 :: "float \<Rightarrow> 32 word option" where
  "float_to_uint32 (Finite q) =
     (if 0 \<le> truncate_toward_zero q \<and> truncate_toward_zero q < 2 ^ 32 then Some (word_of_int (truncate_toward_zero q))
      else None)"
| "float_to_uint32 x = None"

text \<open>
  \<open>timeToIndex\<close>: the sample rate is converted to \<open>float\<close>, the product is a \<open>float\<close>, and
  the assignment converts it. The channel count is read and not used.
\<close>

definition timeToIndex :: "float \<Rightarrow> FormatChunk \<Rightarrow> 32 word option" where
  "timeToIndex timestamp fc =
     (let sampleRate_v = littleEndianBytesToUInt32 (sampleRate fc);
          numberOfChannels_v = littleEndianBytesToUInt16 (numberOfChannels fc)
      in float_to_uint32 (float_mult timestamp (float_of_uint32 sampleRate_v)))"

section \<open>Reading the label file\<close>

text \<open>
  \<open>fscanf\<close> with the format \<open>%f%*f%*c%[^\r\n]%*c\<close>. A \<open>%f\<close> directive skips white space
  and takes the longest run of characters that is a decimal floating-point number or
  the beginning of one; the run is consumed also when it is not a complete number, and
  the directive then fails. The model covers decimal spellings (sign, digits, point,
  exponent). The spellings \<open>inf\<close>, \<open>nan\<close> and hexadecimal numbers are outside it:
  \<open>Not_modelled\<close>.
\<close>

definition isspace :: "char \<Rightarrow> bool" where
  "isspace c = (c \<in> {CHR 0x20, CHR 0x09, CHR 0x0A, CHR 0x0B, CHR 0x0C, CHR 0x0D})"

definition isdigit :: "char \<Rightarrow> bool" where
  "isdigit c = (48 \<le> (of_char c :: nat) \<and> (of_char c :: nat) \<le> 57)"

definition split_while :: "(char \<Rightarrow> bool) \<Rightarrow> string \<Rightarrow> string \<times> string" where
  "split_while P s = (takeWhile P s, dropWhile P s)"

definition digits_value :: "string \<Rightarrow> nat" where
  "digits_value ds = foldl (\<lambda>acc c. 10 * acc + (of_char c - 48)) 0 ds"

datatype 'a conversion = Converted 'a | No_match | Not_modelled

definition take_sign :: "string \<Rightarrow> bool \<times> string" where
  "take_sign s =
     (case s of
        [] \<Rightarrow> (False, [])
      | c # r \<Rightarrow> if c = CHR ''-'' then (True, r) else if c = CHR ''+'' then (False, r)
                 else (False, s))"

definition other_spelling :: "string \<Rightarrow> bool" where
  "other_spelling s =
     (case s of
        [] \<Rightarrow> False
      | c # r \<Rightarrow>
          c \<in> {CHR ''i'', CHR ''I'', CHR ''n'', CHR ''N''}
          \<or> (c = CHR ''0'' \<and> (case r of [] \<Rightarrow> False | d # _ \<Rightarrow> d \<in> {CHR ''x'', CHR ''X''})))"

definition pow10 :: "int \<Rightarrow> real" where
  "pow10 e = (if 0 \<le> e then 10 ^ nat e else 1 / 10 ^ nat (- e))"

text \<open>The exact value of a decimal spelling: sign, integer digits, fraction digits, exponent.\<close>

definition decimal_value :: "bool \<Rightarrow> string \<Rightarrow> string \<Rightarrow> int \<Rightarrow> real" where
  "decimal_value neg ip fp ex =
     (let m = of_nat (digits_value (ip @ fp)) * pow10 (ex - int (length fp))
      in if neg then - m else m)"

definition scan_exponent :: "string \<Rightarrow> int conversion \<times> string" where
  "scan_exponent s =
     (case s of
        [] \<Rightarrow> (Converted 0, [])
      | c # r \<Rightarrow>
          if c = CHR ''e'' \<or> c = CHR ''E'' then
            (case take_sign r of (eneg, r1) \<Rightarrow>
               case split_while isdigit r1 of (ed, r2) \<Rightarrow>
                 if ed = [] then (No_match, r2)
                 else (Converted ((if eneg then - 1 else 1) * int (digits_value ed)), r2))
          else (Converted 0, s))"

definition scan_float :: "string \<Rightarrow> float conversion \<times> string" where
  "scan_float s0 =
     (case take_sign (dropWhile isspace s0) of (neg, s2) \<Rightarrow>
        if other_spelling s2 then (Not_modelled, s2)
        else
          case split_while isdigit s2 of (ip, s3) \<Rightarrow>
            case (case s3 of [] \<Rightarrow> (False, [])
                  | c # r \<Rightarrow> if c = CHR ''.'' then (True, r) else (False, s3)) of (dot, s4) \<Rightarrow>
              case (if dot then split_while isdigit s4 else ([], s4)) of (fp, s5) \<Rightarrow>
                if ip = [] \<and> fp = [] then (No_match, s5)
                else
                  case scan_exponent s5 of
                    (Converted ex, s6) \<Rightarrow>
                      (Converted (round_to_float (decimal_value neg ip fp ex)), s6)
                  | (No_match, s6) \<Rightarrow> (No_match, s6)
                  | (Not_modelled, s6) \<Rightarrow> (Not_modelled, s6))"

text \<open>
  The whole call. \<open>Assigned\<close> is the return value 2 with the two values stored; any
  other return value is \<open>Fewer\<close>. The third component tells whether the call ran into
  the end of the input, which sets the end-of-file indicator: every directive but
  \<open>%*c\<close> looks one character beyond what it takes.
\<close>

datatype scanned = Assigned float string | Fewer | Other_number

definition fscanf_label :: "string \<Rightarrow> scanned \<times> string \<times> bool" where
  "fscanf_label s0 =
     (case scan_float s0 of
        (Not_modelled, r1) \<Rightarrow> (Other_number, r1, r1 = [])
      | (No_match, r1) \<Rightarrow> (Fewer, r1, r1 = [])
      | (Converted startTime, r1) \<Rightarrow>
          (case scan_float r1 of
             (Not_modelled, r2) \<Rightarrow> (Other_number, r2, r2 = [])
           | (No_match, r2) \<Rightarrow> (Fewer, r2, r2 = [])
           | (Converted endTime, r2) \<Rightarrow>
               (case r2 of
                  [] \<Rightarrow> (Fewer, [], True)
                | c # r3 \<Rightarrow>
                    (case split_while (\<lambda>c. c \<noteq> CHR 0x0D \<and> c \<noteq> CHR 0x0A) r3 of (labelString, r4) \<Rightarrow>
                       if labelString = [] then (Fewer, r4, r4 = [])
                       else
                         (case r4 of
                            [] \<Rightarrow> (Assigned startTime labelString, [], True)
                          | d # r5 \<Rightarrow> (Assigned startTime labelString, r5, False))))))"

definition fscanf_stream :: "FILE_in \<Rightarrow> scanned \<times> FILE_in" where
  "fscanf_stream f =
     (let s0 = drop (fpos f) (contents f) in
      case fscanf_label s0 of (res, rest, at_end) \<Rightarrow>
        (res, f\<lparr>fpos := fpos f + (length s0 - length rest), feof := (feof f \<or> at_end)\<rparr>))"

text \<open>
  \<open>fgetc\<close> returns \<open>None\<close> for \<open>EOF\<close>. The source pushes back only the character it has
  just read, so \<open>ungetc\<close> steps the position back; it clears the end-of-file indicator.
\<close>

definition fgetc :: "FILE_in \<Rightarrow> char option \<times> FILE_in" where
  "fgetc f =
     (case drop (fpos f) (contents f) of
        [] \<Rightarrow> (None, f\<lparr>feof := True\<rparr>)
      | c # r \<Rightarrow> (Some c, f\<lparr>fpos := fpos f + 1\<rparr>))"

definition ungetc :: "FILE_in \<Rightarrow> FILE_in" where
  "ungetc f = f\<lparr>fpos := fpos f - 1, feof := False\<rparr>"

text \<open>
  After a carriage return: the next character is read and pushed back unless it is a
  line feed or the end of the file.
\<close>

definition gobble_line_feed :: "FILE_in \<Rightarrow> FILE_in" where
  "gobble_line_feed f =
     (case fgetc f of (peekAheadChar, f1) \<Rightarrow>
        if peekAheadChar \<noteq> None \<and> peekAheadChar \<noteq> Some (CHR 0x0A) then ungetc f1 else f1)"

text \<open>The statements of the loop body after the \<open>fscanf\<close> branch.\<close>

definition after_record :: "FILE_in \<Rightarrow> FILE_in" where
  "after_record f =
     (case fgetc f of (nextChar, f1) \<Rightarrow>
        let f2 = (if nextChar = Some (CHR 0x0D) then gobble_line_feed f1 else f1) in
        case fgetc f2 of (nextChar2, f3) \<Rightarrow>
          if \<not> feof f3 then
            (if nextChar2 = Some (CHR 0x0D) then gobble_line_feed f3 else ungetc f3)
          else f3)"

text \<open>
  \<open>strlen\<close> and \<open>strcpy\<close> on the bytes of a buffer that holds a terminated string.
\<close>

definition strlen :: "byte list \<Rightarrow> nat" where
  "strlen s = length (takeWhile (\<lambda>c. c \<noteq> CHR 0x00) s)"

definition strcpy :: "byte list \<Rightarrow> byte list \<Rightarrow> byte list" where
  "strcpy dest src = take (strlen src + 1) src @ drop (strlen src + 1) dest"

text \<open>
  One turn of the loop of \<open>readLabelFile\<close>. \<open>fscanf\<close> stores the label and a terminating
  zero in \<open>labelString\<close>, an array of 500 bytes, whatever the length of the label.
\<close>

definition read_label_record ::
  "FormatChunk \<Rightarrow> FILE_in \<Rightarrow> LabelInfo \<Rightarrow> error + (FILE_in \<times> LabelInfo)" where
  "read_label_record fc labelFile labelInfo =
     (case fscanf_stream labelFile of
        (Other_number, f1) \<Rightarrow> Inl Unmodelled_number
      | (Fewer, f1) \<Rightarrow> Inr (after_record f1, labelInfo)
      | (Assigned startTime scanned_label, f1) \<Rightarrow>
          if 500 < length scanned_label + 1 then Inl (Undefined LabelStringOverflow)
          else
            let labelString = scanned_label @ [CHR 0x00] in
            if float_le startTime (Finite 48660) then
              (case timeToIndex startTime fc of
                 None \<Rightarrow> Inl (Undefined FloatToIntOutOfRange)
               | Some index \<Rightarrow>
                   if 500 \<le> unat (count labelInfo) then Inl (Undefined LabelTableOverflow)
                   else
                     Inr (after_record f1,
                          \<lparr>locations = locations labelInfo @ [index],
                           labels = labels labelInfo @ [strcpy (replicate 500 (CHR 0x00)) labelString],
                           labelLengths = labelLengths labelInfo @ [strlen labelString + 1],
                           count = count labelInfo + 1\<rparr>))
            else Inr (after_record f1, labelInfo))"

text \<open>
  The loop of \<open>readLabelFile\<close> runs while the end-of-file indicator is clear. A turn
  that leaves it clear has consumed a character, which bounds the number of turns.
\<close>

definition label_measure :: "FILE_in \<Rightarrow> nat" where
  "label_measure f = (length (contents f) - fpos f) + (if feof f then 0 else 1)"

lemma fscanf_label_at_end_aux:
  "case fscanf_label s0 of (res, rest, at_end) \<Rightarrow> at_end \<longrightarrow> rest = []"
  by (simp add: fscanf_label_def split: prod.split conversion.split list.split)

lemma fscanf_label_at_end:
  "fscanf_label s0 = (res, rest, at_end) \<Longrightarrow> at_end \<Longrightarrow> rest = []"
  using fscanf_label_at_end_aux [of s0] by simp

lemma fscanf_stream_effect:
  assumes "fscanf_stream f = (res, g)"
  shows "contents g = contents f" and "fpos f \<le> fpos g"
    and "feof g \<Longrightarrow> \<not> feof f \<Longrightarrow> length (contents g) \<le> fpos g"
proof -
  obtain rest at_end where sc: "fscanf_label (drop (fpos f) (contents f)) = (res, rest, at_end)"
    and g: "g = f\<lparr>fpos := fpos f + (length (drop (fpos f) (contents f)) - length rest),
                   feof := (feof f \<or> at_end)\<rparr>"
    using assms by (auto simp: fscanf_stream_def Let_def split: prod.splits)
  show "contents g = contents f" and "fpos f \<le> fpos g" using g by simp_all
  assume "feof g" "\<not> feof f"
  then have "at_end" using g by simp
  then have "rest = []" using fscanf_label_at_end [OF sc] by simp
  then show "length (contents g) \<le> fpos g" using g by simp
qed

lemma drop_Cons_less: "drop n xs = x # r \<Longrightarrow> n < length xs"
  by (rule ccontr) simp

lemma fgetc_effect:
  assumes "fgetc f = (c, f1)"
  shows "contents f1 = contents f"
    and "c = None \<Longrightarrow> feof f1 \<and> fpos f1 = fpos f \<and> length (contents f) \<le> fpos f"
    and "c \<noteq> None \<Longrightarrow> feof f1 = feof f \<and> fpos f1 = fpos f + 1 \<and> fpos f < length (contents f)"
  using assms by (auto simp: fgetc_def split: list.splits dest: drop_Cons_less)

lemma gobble_line_feed_effect:
  assumes "feof f \<longrightarrow> length (contents f) \<le> fpos f"
  shows "contents (gobble_line_feed f) = contents f"
    and "fpos f \<le> fpos (gobble_line_feed f)"
    and "feof (gobble_line_feed f) \<longrightarrow> length (contents f) \<le> fpos (gobble_line_feed f)"
proof -
  obtain c f1 where fg: "fgetc f = (c, f1)" by (cases "fgetc f")
  show "contents (gobble_line_feed f) = contents f"
    and "fpos f \<le> fpos (gobble_line_feed f)"
    and "feof (gobble_line_feed f) \<longrightarrow> length (contents f) \<le> fpos (gobble_line_feed f)"
    using fgetc_effect [OF fg] assms fg
    by (cases c; auto simp: gobble_line_feed_def ungetc_def)+
qed

lemma after_record_measure:
  assumes "feof g \<longrightarrow> length (contents g) \<le> fpos g"
  shows "contents (after_record g) = contents g"
    and "label_measure (after_record g) \<le> length (contents g) - fpos g"
proof -
  obtain c f1 where fg: "fgetc g = (c, f1)" by (cases "fgetc g")
  define f2 where "f2 = (if c = Some (CHR 0x0D) then gobble_line_feed f1 else f1)"
  obtain c2 f3 where fg2: "fgetc f2 = (c2, f3)" by (cases "fgetc f2")
  have ar: "after_record g =
      (if \<not> feof f3 then (if c2 = Some (CHR 0x0D) then gobble_line_feed f3 else ungetc f3) else f3)"
    using fg fg2 by (simp add: after_record_def f2_def Let_def)
  note e1 = fgetc_effect [OF fg]
  have inv1: "feof f1 \<longrightarrow> length (contents f1) \<le> fpos f1"
    using e1 assms by (cases c) auto
  have c2': "contents f2 = contents g" and p2: "fpos f1 \<le> fpos f2"
    and inv2: "feof f2 \<longrightarrow> length (contents f2) \<le> fpos f2"
    using gobble_line_feed_effect [OF inv1] e1(1) inv1 by (auto simp: f2_def)
  note e2 = fgetc_effect [OF fg2]
  have inv3: "feof f3 \<longrightarrow> length (contents f3) \<le> fpos f3"
    using e2 inv2 by (cases c2) auto
  show "contents (after_record g) = contents g"
    using ar e2(1) c2' gobble_line_feed_effect(1) [OF inv3] by (auto simp: ungetc_def)
  show "label_measure (after_record g) \<le> length (contents g) - fpos g"
  proof (cases c)
    case None
    then have "feof f1" "fpos f1 = fpos g" "length (contents g) \<le> fpos g" using e1 by auto
    moreover have "f2 = f1" using None by (simp add: f2_def)
    ultimately have "c2 = None" using e2 e1(1) by (cases c2) auto
    then have "feof f3" "fpos f3 = fpos f2" using e2 by auto
    then show ?thesis using ar \<open>f2 = f1\<close> \<open>fpos f1 = fpos g\<close> e2(1) c2'
      by (simp add: label_measure_def)
  next
    case (Some x)
    then have q1: "fpos f1 = fpos g + 1" "fpos g < length (contents g)" using e1 by auto
    show ?thesis
    proof (cases c2)
      case None
      then have "feof f3" "fpos f3 = fpos f2" using e2 by auto
      then show ?thesis using ar q1 p2 e2(1) c2' by (simp add: label_measure_def)
    next
      case (Some y)
      then have q3: "fpos f3 = fpos f2 + 1" using e2 by auto
      have "fpos g + 1 \<le> fpos (after_record g)"
        using ar q1 q3 p2 inv3 gobble_line_feed_effect(2) [OF inv3]
        by (auto simp: ungetc_def)
      then show ?thesis
        using q1 \<open>contents (after_record g) = contents g\<close> by (auto simp: label_measure_def)
    qed
  qed
qed

lemma read_label_record_measure:
  assumes "read_label_record fc f labelInfo = Inr (f', labelInfo')" and "\<not> feof f"
  shows "label_measure f' < label_measure f"
proof -
  obtain res g where sc: "fscanf_stream f = (res, g)" by (cases "fscanf_stream f")
  from assms(1) sc have f': "f' = after_record g"
    by (auto simp: read_label_record_def Let_def split: scanned.splits if_splits option.splits)
  have inv: "feof g \<longrightarrow> length (contents g) \<le> fpos g"
    using fscanf_stream_effect(3) [OF sc] assms(2) by simp
  have "label_measure f' \<le> length (contents g) - fpos g"
    unfolding f' by (rule after_record_measure(2) [OF inv])
  also have "\<dots> \<le> length (contents f) - fpos f"
    using fscanf_stream_effect(1,2) [OF sc] by simp
  also have "\<dots> < label_measure f" using assms(2) by (simp add: label_measure_def)
  finally show ?thesis .
qed

function read_labels :: "FormatChunk \<Rightarrow> FILE_in \<Rightarrow> LabelInfo \<Rightarrow> error + LabelInfo" where
  "read_labels fc labelFile labelInfo =
     (if feof labelFile then Inr labelInfo
      else
        case read_label_record fc labelFile labelInfo of
          Inl e \<Rightarrow> Inl e
        | Inr (f', labelInfo') \<Rightarrow> read_labels fc f' labelInfo')"
  by pat_completeness auto
termination
  by (relation "measure (\<lambda>(fc, f, labelInfo). label_measure f)")
    (auto simp: read_label_record_measure)

declare read_labels.simps [simp del]

definition readLabelFile :: "FILE_in \<Rightarrow> FormatChunk \<Rightarrow> error + LabelInfo" where
  "readLabelFile labelFile fc =
     read_labels fc labelFile \<lparr>locations = [], labels = [], labelLengths = [], count = 0\<rparr>"

section \<open>Building the cue and list chunks\<close>

text \<open>
  The two loops of \<open>addLabelsToWaveFile\<close> over the label entries. The loop variable is
  a \<open>uint32_t\<close> below \<open>count\<close>, so \<open>i + 1\<close> does not wrap.
\<close>

definition cue_point_at :: "LabelInfo \<Rightarrow> nat \<Rightarrow> CuePoint" where
  "cue_point_at labelInfo i =
     \<lparr>cuePointID = uint32ToLittleEndianBytes (word_of_nat (i + 1)),
      playOrderPosition = uint32ToLittleEndianBytes (locations labelInfo ! i),
      dataChunkID = ''data'',
      chunkStart = uint32ToLittleEndianBytes 0,
      blockStart = uint32ToLittleEndianBytes 0,
      frameOffset = uint32ToLittleEndianBytes (locations labelInfo ! i)\<rparr>"

definition label_chunk_at :: "LabelInfo \<Rightarrow> nat \<Rightarrow> byte list" where
  "label_chunk_at labelInfo i =
     ''labl''
     @ uint32ToLittleEndianBytes (word_of_nat (labelLengths labelInfo ! i + 4))
     @ cuePointID (cue_point_at labelInfo i)
     @ map (\<lambda>j. labels labelInfo ! i ! j) [0..<labelLengths labelInfo ! i]
     @ (if labelLengths labelInfo ! i mod 2 \<noteq> 0 then [CHR 0x00] else [])"

text \<open>The first loop: the size of the list body.\<close>

definition add_label_size :: "LabelInfo \<Rightarrow> nat \<Rightarrow> nat \<Rightarrow> nat" where
  "add_label_size labelInfo listChunkSize i =
     (let s = listChunkSize + (12 + labelLengths labelInfo ! i)
      in if labelLengths labelInfo ! i mod 2 \<noteq> 0 then s + 1 else s)"

definition listChunkSize_of :: "LabelInfo \<Rightarrow> nat" where
  "listChunkSize_of labelInfo =
     foldl (add_label_size labelInfo) 0 [0..<unat (count labelInfo)]"

definition make_cueChunk :: "LabelInfo \<Rightarrow> CueChunk" where
  "make_cueChunk labelInfo =
     \<lparr>chunkID_c = ''cue '',
      chunkDataSize_c = uint32ToLittleEndianBytes (word_of_nat (4 + 24 * unat (count labelInfo))),
      cuePointsCount = uint32ToLittleEndianBytes (count labelInfo),
      cuePoints = map (cue_point_at labelInfo) [0..<unat (count labelInfo)]\<rparr>"

definition make_listChunk :: "LabelInfo \<Rightarrow> ListChunk" where
  "make_listChunk labelInfo =
     \<lparr>chunkID_l = ''LIST'',
      chunkDataSize_l = uint32ToLittleEndianBytes (word_of_nat (4 + listChunkSize_of labelInfo)),
      typeID = ''adtl'',
      labelChunks = concat (map (label_chunk_at labelInfo) [0..<unat (count labelInfo)])\<rparr>"

section \<open>The chunk writer\<close>

definition write_or :: "diagnostic \<Rightarrow> byte list \<Rightarrow> FILE_out \<Rightarrow> error + FILE_out" where
  "write_or d bs out = (case fwrite bs out of None \<Rightarrow> Inl (Exit d) | Some o1 \<Rightarrow> Inr o1)"

text \<open>The pad byte after a region of odd size.\<close>

definition pad_if_odd :: "nat \<Rightarrow> FILE_out \<Rightarrow> error + FILE_out" where
  "pad_if_odd n out =
     (if n mod 2 \<noteq> 0 then write_or WritePaddingError [CHR 0x00] out else Inr out)"

definition copy_chunk ::
  "(nat \<Rightarrow> byte) \<Rightarrow> ChunkLocation \<Rightarrow> FILE_in \<Rightarrow> FILE_out \<Rightarrow> error + (FILE_in \<times> FILE_out)" where
  "copy_chunk stale chunk f out =
     (case writeChunkLocationFromInputFileToOutputFile stale chunk f out of
        (rc, f1, o1) \<Rightarrow> if rc < 0 then Inl (Exit CopyChunkError) else Inr (f1, o1))"

primrec write_each :: "diagnostic \<Rightarrow> byte list list \<Rightarrow> FILE_out \<Rightarrow> error + FILE_out" where
  "write_each d [] out = Inr out"
| "write_each d (b # bs) out = bind_err (write_or d b out) (write_each d bs)"

primrec write_other_chunks ::
  "(nat \<Rightarrow> byte) \<Rightarrow> ChunkLocation list \<Rightarrow> FILE_in \<Rightarrow> FILE_out \<Rightarrow> error + (FILE_in \<times> FILE_out)"
  where
  "write_other_chunks stale [] f out = Inr (f, out)"
| "write_other_chunks stale (c # cs) f out =
     bind_err (copy_chunk stale c f out) (\<lambda>(f1, o1).
     bind_err (pad_if_odd (chunk_size c) o1) (\<lambda>o2.
     write_other_chunks stale cs f1 o2))"

text \<open>
  In the definitions of the writer and of the header reader the parameters that share their names with variables of
  the scan carry a prime.
\<close>

text \<open>
  The new length field of the header, a \<open>uint32_t\<close>: every addition wraps at \<open>2 ^ 32\<close>.
  \<open>sizeof(FormatChunk)\<close> and \<open>sizeof(CuePoint)\<close> are 24.
\<close>

definition add_chunk_size :: "32 word \<Rightarrow> ChunkLocation \<Rightarrow> 32 word" where
  "add_chunk_size fileDataSize c =
     (let t = fileDataSize + word_of_nat (chunk_size c)
      in if chunk_size c mod 2 \<noteq> 0 then t + 1 else t)"

definition new_fileDataSize ::
  "ChunkLocation \<Rightarrow> ChunkLocation \<Rightarrow> ChunkLocation list \<Rightarrow> LabelInfo \<Rightarrow> nat \<Rightarrow> 32 word" where
  "new_fileDataSize formatChunkExtraBytes' dataChunkLocation' otherChunkLocations' labelInfo
       listChunkSize =
     (let s0 = 0 + 4 + 24 + word_of_nat (chunk_size formatChunkExtraBytes');
          s1 = (if chunk_size formatChunkExtraBytes' mod 2 \<noteq> 0 then s0 + 1 else s0);
          s2 = s1 + word_of_nat (chunk_size dataChunkLocation');
          s3 = (if chunk_size dataChunkLocation' mod 2 \<noteq> 0 then s2 + 1 else s2);
          s4 = foldl add_chunk_size s3 otherChunkLocations';
          s5 = s4 + 4 + 4 + 4 + word_of_nat (24 * unat (count labelInfo))
      in s5 + 4 + 4 + 4 + word_of_nat listChunkSize)"

text \<open>
  \<open>writeOutputFile\<close>. The labels are written as one item of \<open>listChunkSize\<close> bytes, a
  call that reports no item written when that size is 0.
\<close>

definition writeOutputFile ::
  "(nat \<Rightarrow> byte) \<Rightarrow> FILE_in \<Rightarrow> FILE_out \<Rightarrow> ChunkLocation \<Rightarrow> ChunkLocation \<Rightarrow> ChunkLocation list
     \<Rightarrow> LabelInfo \<Rightarrow> WaveHeader \<Rightarrow> FormatChunk \<Rightarrow> CueChunk \<Rightarrow> ListChunk \<Rightarrow> nat
     \<Rightarrow> error + (FILE_in \<times> FILE_out)" where
  "writeOutputFile stale inputFile' outputFile formatChunkExtraBytes' dataChunkLocation'
       otherChunkLocations' labelInfo waveHeader formatChunk' cueChunk listChunk listChunkSize =
     (let fileDataSize = new_fileDataSize formatChunkExtraBytes' dataChunkLocation'
                           otherChunkLocations' labelInfo listChunkSize;
          waveHeader1 = waveHeader\<lparr>dataSize := uint32ToLittleEndianBytes fileDataSize\<rparr>
      in
      bind_err (write_or WriteHeaderError (WaveHeader_bytes waveHeader1) outputFile) (\<lambda>o1.
      bind_err (write_or WriteFormatError (FormatChunk_bytes formatChunk') o1) (\<lambda>o2.
      bind_err
        (if chunk_size formatChunkExtraBytes' > 0 then
           bind_err (copy_chunk stale formatChunkExtraBytes' inputFile' o2) (\<lambda>(f, oa).
           bind_err (pad_if_odd (chunk_size formatChunkExtraBytes') oa) (\<lambda>ob. Inr (f, ob)))
         else Inr (inputFile', o2)) (\<lambda>(f3, o3).
      bind_err (copy_chunk stale dataChunkLocation' f3 o3) (\<lambda>(f4, o4).
      bind_err (pad_if_odd (chunk_size dataChunkLocation') o4) (\<lambda>o5.
      bind_err (write_or WriteCueHeaderError
                  (chunkID_c cueChunk @ chunkDataSize_c cueChunk @ cuePointsCount cueChunk) o5) (\<lambda>o6.
      bind_err (write_each WriteCuePointError
                  (map (\<lambda>i. CuePoint_bytes (cuePoints cueChunk ! i))
                     [0..<unat (littleEndianBytesToUInt32 (cuePointsCount cueChunk))]) o6) (\<lambda>o7.
      bind_err (write_or WriteAdtlHeaderError
                  (chunkID_l listChunk @ chunkDataSize_l listChunk @ typeID listChunk) o7) (\<lambda>o8.
      bind_err (if listChunkSize = 0 then Inl (Exit WriteLabelsError)
                else write_or WriteLabelsError (take listChunkSize (labelChunks listChunk)) o8) (\<lambda>o9.
      bind_err (pad_if_odd listChunkSize o9) (\<lambda>o10.
      write_other_chunks stale otherChunkLocations' f4 o10)))))))))))"

section \<open>The whole conversion\<close>

text \<open>
  The start of \<open>addLabelsToWaveFile\<close>: the header, the scan loop and the check that a
  format chunk and a data chunk were found. \<open>remainingFileSize <= 0\<close> compares an
  unsigned value, so it holds for 0 only.
\<close>

definition read_input ::
  "environment \<Rightarrow> FILE_in \<Rightarrow> error + (WaveHeader \<times> FormatChunk \<times> scan_state)" where
  "read_input env inputFile' =
     (if \<not> malloc_header_ok env then Inl (Exit AllocHeader)
      else
        case fread 12 inputFile' of (got, f1) \<Rightarrow>
          let waveHeader = WaveHeader_of_bytes (buffer_after (stale_bytes env) 12 got) in
          if ferror f1 then Inl (Exit ReadError)
          else if chunkID_h waveHeader \<noteq> ''RIFF'' then Inl (Exit NotRIFF)
          else if riffType waveHeader \<noteq> ''WAVE'' then Inl (Exit NotWAVE)
          else
            let remainingFileSize = littleEndianBytesToUInt32 (dataSize waveHeader) - 4 in
            if remainingFileSize = 0 then Inl (Exit EmptyWave)
            else
              case scan_chunks env
                     \<lparr>inputFile = f1, formatChunk = None,
                      formatChunkExtraBytes = \<lparr>startOffset = 0, chunk_size = 0\<rparr>,
                      dataChunkLocation = \<lparr>startOffset = 0, chunk_size = 0\<rparr>,
                      otherChunkLocations = []\<rparr> of
                Inl d \<Rightarrow> Inl (Exit d)
              | Inr st \<Rightarrow>
                  (case formatChunk st of
                     None \<Rightarrow> Inl (Exit NoFormatOrData)
                   | Some fc \<Rightarrow>
                       if chunk_size (dataChunkLocation st) = 0 then Inl (Exit NoFormatOrData)
                       else Inr (waveHeader, fc, st)))"

text \<open>
  The rest of the conversion, from the label file on. The result of a run that returns
  0 is the bytes of the output file.
\<close>

definition write_labelled ::
  "environment \<Rightarrow> WaveHeader \<Rightarrow> FormatChunk \<Rightarrow> scan_state \<Rightarrow> LabelInfo \<Rightarrow> error + byte list" where
  "write_labelled env waveHeader fc st labelInfo =
     (if unat (count labelInfo) < 1 then Inl (Exit NoCuePoints)
      else if \<not> malloc_cue_ok env then Inl (Exit AllocCuePoints)
      else if \<not> malloc_list_ok env then Inl (Exit AllocLabelData)
      else if \<not> output_opens env then Inl (Exit CouldNotOpenOutput)
      else
        bind_err
          (writeOutputFile (stale_bytes env) (inputFile st) (fopen_out (output_wr_budget env))
             (formatChunkExtraBytes st) (dataChunkLocation st) (otherChunkLocations st)
             labelInfo waveHeader fc (make_cueChunk labelInfo) (make_listChunk labelInfo)
             (listChunkSize_of labelInfo))
          (\<lambda>(f, out). Inr (written out)))"

definition addLabelsToWaveFile :: "environment \<Rightarrow> byte list \<Rightarrow> byte list \<Rightarrow> error + byte list" where
  "addLabelsToWaveFile env input labelText =
     (if \<not> input_opens env then Inl (Exit CouldNotOpenInput)
      else if \<not> label_opens env then Inl (Exit CouldNotOpenLabel)
      else
        bind_err (read_input env (fopen_in input (input_rd_budget env))) (\<lambda>(waveHeader, fc, st).
        bind_err (readLabelFile (fopen_in labelText None) fc) (\<lambda>labelInfo.
        write_labelled env waveHeader fc st labelInfo)))"

section \<open>Properties of the copier\<close>

lemma fseek_set_ignored_pos [simp]:
  "0 \<le> off \<Longrightarrow> fpos (fseek_set_ignored off f) = nat off"
  by (simp add: fseek_set_ignored_def fseek_set_def)

lemma fread_contents [simp]: "contents (snd (fread n f)) = contents f"
  by (simp add: fread_def Let_def)

lemma copy_blocks_failure_restores:
  "copy_blocks stale orig n f out = Inl (f', out') \<Longrightarrow> 0 \<le> orig \<Longrightarrow> fpos f' = nat orig"
proof (induction stale orig n f out rule: copy_blocks.induct)
  case (1 stale orig n f out)
  show ?case
  proof (cases "n \<ge> 1024")
    case False
    with "1.prems" show ?thesis by (simp add: copy_blocks.simps)
  next
    case True
    obtain got f1 where rd: "fread 1024 f = (got, f1)" by (cases "fread 1024 f")
    show ?thesis
    proof (cases "ferror f1")
      case True
      with "1.prems" \<open>n \<ge> 1024\<close> rd show ?thesis
        by (auto simp: copy_blocks.simps [of stale orig n f out])
    next
      case noerr: False
      show ?thesis
      proof (cases "fwrite (buffer_after stale 1024 got) out")
        case None
        with "1.prems" \<open>n \<ge> 1024\<close> rd noerr show ?thesis
          by (auto simp: copy_blocks.simps [of stale orig n f out])
      next
        case (Some o1)
        with "1.prems" \<open>n \<ge> 1024\<close> rd noerr
        have "copy_blocks stale orig (n - 1024) f1 o1 = Inl (f', out')"
          by (simp add: copy_blocks.simps [of stale orig n f out])
        with "1.IH" [OF True rd [symmetric] noerr Some] "1.prems"(2)
        show ?thesis by simp
      qed
    qed
  qed
qed

section \<open>What the writer writes\<close>

lemma bind_err_Inr: "bind_err m k = Inr y \<longleftrightarrow> (\<exists>x. m = Inr x \<and> k x = Inr y)"
  by (cases m) (simp_all add: bind_err_def)

lemma fread_got:
  assumes "fread n f = (got, f')" and "\<not> ferror f'"
  shows "got = take n (drop (fpos f) (contents f))" and "length got \<le> n"
    and "fpos f' = fpos f + length got" and "contents f' = contents f"
  using assms by (auto simp: fread_def Let_def split: if_splits)

lemma length_buffer_after: "length got \<le> n \<Longrightarrow> length (buffer_after stale n got) = n"
  by (simp add: buffer_after_def)

lemma buffer_after_full: "length got = n \<Longrightarrow> buffer_after stale n got = got"
  by (simp add: buffer_after_def)

lemma fwrite_written: "fwrite bs out = Some o1 \<Longrightarrow> written o1 = written out @ bs"
  by (auto simp: fwrite_def split: if_splits)

lemma write_or_written: "write_or d bs out = Inr o1 \<Longrightarrow> written o1 = written out @ bs"
  by (auto simp: write_or_def fwrite_written split: option.splits)

lemma pad_if_odd_written:
  "pad_if_odd n out = Inr o1 \<Longrightarrow>
     written o1 = written out @ (if n mod 2 \<noteq> 0 then [CHR 0x00] else [])"
  by (auto simp: pad_if_odd_def write_or_written split: if_splits)

lemma write_each_written:
  "write_each d bss out = Inr o1 \<Longrightarrow> written o1 = written out @ concat bss"
proof (induction bss arbitrary: out)
  case Nil
  then show ?case by simp
next
  case (Cons b bss)
  from Cons.prems obtain o2 where w: "write_or d b out = Inr o2" and r: "write_each d bss o2 = Inr o1"
    by (auto simp: bind_err_Inr)
  show ?case using Cons.IH [OF r] write_or_written [OF w] by simp
qed

text \<open>
  What a successful run of the first loop of the copier has written: as many bytes as
  it has counted down, and the bytes of the input when the whole range lies in the
  file.
\<close>

lemma copy_blocks_written:
  "copy_blocks stale orig n f out = Inr (r, f', o') \<Longrightarrow>
     \<exists>ys. written o' = written out @ ys \<and> length ys + r = n \<and> r < 1024
          \<and> contents f' = contents f
          \<and> (fpos f + n \<le> length (contents f) \<longrightarrow>
               ys = take (n - r) (drop (fpos f) (contents f)) \<and> fpos f' = fpos f + (n - r))"
proof (induction stale orig n f out rule: copy_blocks.induct)
  case (1 stale orig n f out)
  show ?case
  proof (cases "n \<ge> 1024")
    case False
    with "1.prems" show ?thesis by (simp add: copy_blocks.simps)
  next
    case True
    obtain got f1 where rd: "fread 1024 f = (got, f1)" by (cases "fread 1024 f")
    from "1.prems" True rd have noerr: "\<not> ferror f1"
      by (auto simp: copy_blocks.simps [of stale orig n f out] split: if_splits)
    from "1.prems" True rd noerr obtain o1 where
      w: "fwrite (buffer_after stale 1024 got) out = Some o1"
      and rec: "copy_blocks stale orig (n - 1024) f1 o1 = Inr (r, f', o')"
      by (auto simp: copy_blocks.simps [of stale orig n f out] split: option.splits)
    note g = fread_got [OF rd noerr]
    from "1.IH" [OF True rd [symmetric] noerr w rec] obtain ys1 where
      ys1: "written o' = written o1 @ ys1" "length ys1 + r = n - 1024" "r < 1024"
        "contents f' = contents f1"
        "fpos f1 + (n - 1024) \<le> length (contents f1) \<longrightarrow>
           ys1 = take (n - 1024 - r) (drop (fpos f1) (contents f1))
           \<and> fpos f' = fpos f1 + (n - 1024 - r)"
      by (elim exE conjE) (rule that)
    let ?b = "buffer_after stale 1024 got"
    have lb: "length ?b = 1024" using g(2) by (rule length_buffer_after)
    have wr: "written o' = written out @ (?b @ ys1)"
      using ys1(1) fwrite_written [OF w] by simp
    have inr: "?b @ ys1 = take (n - r) (drop (fpos f) (contents f)) \<and> fpos f' = fpos f + (n - r)"
      if range: "fpos f + n \<le> length (contents f)"
    proof -
      have lg: "length got = 1024" using g(1) range True by simp
      then have b: "?b = take 1024 (drop (fpos f) (contents f))"
        using g(1) by (simp add: buffer_after_full)
      have p1: "fpos f1 = fpos f + 1024" using g(3) lg by simp
      have "fpos f1 + (n - 1024) \<le> length (contents f1)" using p1 g(4) range True by simp
      with ys1(5) have y: "ys1 = take (n - 1024 - r) (drop (fpos f1) (contents f1))"
        and p': "fpos f' = fpos f1 + (n - 1024 - r)" by simp_all
      have nr: "n - r = 1024 + (n - 1024 - r)" using ys1(2) True by arith
      have "take (1024 + (n - 1024 - r)) (drop (fpos f) (contents f))
          = take 1024 (drop (fpos f) (contents f))
            @ take (n - 1024 - r) (drop 1024 (drop (fpos f) (contents f)))"
        by (rule take_add)
      then have t: "take (n - r) (drop (fpos f) (contents f))
          = take 1024 (drop (fpos f) (contents f))
            @ take (n - 1024 - r) (drop 1024 (drop (fpos f) (contents f)))"
        by (simp only: nr [symmetric])
      have "drop (fpos f1) (contents f1) = drop 1024 (drop (fpos f) (contents f))"
        using p1 g(4) by (simp add: add.commute)
      then have e: "?b @ ys1 = take (n - r) (drop (fpos f) (contents f))"
        using b y t by (simp only:)
      have "fpos f' = fpos f + (n - r)" using p' p1 nr by arith
      with e show ?thesis by (rule conjI)
    qed
    show ?thesis
    proof (intro exI [of _ "?b @ ys1"] conjI impI)
      show "written o' = written out @ ?b @ ys1" by (rule wr)
      show "length (?b @ ys1) + r = n" using lb ys1(2) True by simp
      show "r < 1024" by (rule ys1(3))
      show "contents f' = contents f" using ys1(4) g(4) by simp
      show "?b @ ys1 = take (n - r) (drop (fpos f) (contents f))"
        if "fpos f + n \<le> length (contents f)" using inr [OF that] by simp
      show "fpos f' = fpos f + (n - r)"
        if "fpos f + n \<le> length (contents f)" using inr [OF that] by simp
    qed
  qed
qed


text \<open>
  What a call of the copier that returns 0 has written: \<open>size\<close> bytes, and the bytes of
  the range when the range lies in the file.
\<close>

lemma copier_written:
  assumes run: "writeChunkLocationFromInputFileToOutputFile stale chunk f out = (rc, f', o')"
    and ok: "\<not> rc < 0"
  shows "\<exists>ys. written o' = written out @ ys \<and> length ys = chunk_size chunk
          \<and> contents f' = contents f
          \<and> (nat (startOffset chunk) + chunk_size chunk \<le> length (contents f) \<longrightarrow>
               ys = take (chunk_size chunk) (drop (nat (startOffset chunk)) (contents f)))"
proof -
  let ?n = "chunk_size chunk" and ?p = "nat (startOffset chunk)"
  let ?c = "contents f"
  from run ok obtain f0 where sk: "fseek_set (startOffset chunk) f = Some f0"
    by (auto simp: writeChunkLocationFromInputFileToOutputFile_def Let_def split: option.splits)
  then have f0: "contents f0 = ?c" "fpos f0 = ?p"
    by (auto simp: fseek_set_def split: if_splits)
  from run ok sk obtain r f1 o1 where
    cb: "copy_blocks stale (ftell f) ?n f0 out = Inr (r, f1, o1)"
    by (auto simp: writeChunkLocationFromInputFileToOutputFile_def Let_def
        split: sum.splits prod.splits)
  from copy_blocks_written [OF cb] obtain ys0 where
    y0: "written o1 = written out @ ys0" "length ys0 + r = ?n" "r < 1024"
      "contents f1 = contents f0"
      "fpos f0 + ?n \<le> length (contents f0) \<longrightarrow>
         ys0 = take (?n - r) (drop (fpos f0) (contents f0)) \<and> fpos f1 = fpos f0 + (?n - r)"
    by (elim exE conjE) (rule that)
  show ?thesis
  proof (cases "r > 0")
    case False
    with run sk cb have "f' = f1" "o' = o1"
      by (simp_all add: writeChunkLocationFromInputFileToOutputFile_def Let_def)
    moreover from False y0(2) have "length ys0 = ?n" "?n - r = ?n" by simp_all
    ultimately show ?thesis using y0 f0 by (intro exI [of _ ys0]) simp
  next
    case True
    obtain got f2 where rd: "fread r f1 = (got, f2)" by (cases "fread r f1")
    from run ok sk cb True rd have noerr: "\<not> ferror f2"
      by (auto simp: writeChunkLocationFromInputFileToOutputFile_def Let_def split: if_splits)
    from run ok sk cb True rd noerr obtain o2 where
      w: "fwrite (buffer_after stale r got) o1 = Some o2" and res: "f' = f2" "o' = o2"
      by (auto simp: writeChunkLocationFromInputFileToOutputFile_def Let_def
          split: option.splits)
    note g = fread_got [OF rd noerr]
    let ?b = "buffer_after stale r got"
    have lb: "length ?b = r" using g(2) by (rule length_buffer_after)
    have wr: "written o' = written out @ (ys0 @ ?b)"
      using fwrite_written [OF w] y0(1) res by simp
    have inr: "ys0 @ ?b = take ?n (drop ?p ?c)" if range: "?p + ?n \<le> length ?c"
    proof -
      from y0(5) range f0 have a: "ys0 = take (?n - r) (drop ?p ?c)"
        and p1: "fpos f1 = ?p + (?n - r)" by simp_all
      have nr: "?n = (?n - r) + r" using y0(2) by arith
      have "length (drop (fpos f1) (contents f1)) \<ge> r"
        using p1 range y0(4) f0 nr by simp
      then have "length got = r" using g(1) by simp
      then have b: "?b = take r (drop (?n - r) (drop ?p ?c))"
        using g(1) p1 y0(4) f0 by (simp add: buffer_after_full add.commute)
      have "take ((?n - r) + r) (drop ?p ?c)
          = take (?n - r) (drop ?p ?c) @ take r (drop (?n - r) (drop ?p ?c))"
        by (rule take_add)
      then have "take ?n (drop ?p ?c)
          = take (?n - r) (drop ?p ?c) @ take r (drop (?n - r) (drop ?p ?c))"
        by (simp only: nr [symmetric])
      then show ?thesis using a b by (simp only:)
    qed
    show ?thesis
    proof (intro exI [of _ "ys0 @ ?b"] conjI impI)
      show "written o' = written out @ ys0 @ ?b" by (rule wr)
      show "length (ys0 @ ?b) = ?n" using lb y0(2) by simp
      show "contents f' = ?c" using res g(4) y0(4) f0 by simp
      show "ys0 @ ?b = take ?n (drop ?p ?c)" if "?p + ?n \<le> length ?c"
        using inr [OF that] .
    qed
  qed
qed

lemma copy_chunk_written:
  assumes "copy_chunk stale chunk f out = Inr (f', o')"
  shows "\<exists>ys. written o' = written out @ ys \<and> length ys = chunk_size chunk
          \<and> contents f' = contents f
          \<and> (nat (startOffset chunk) + chunk_size chunk \<le> length (contents f) \<longrightarrow>
               ys = take (chunk_size chunk) (drop (nat (startOffset chunk)) (contents f)))"
proof -
  obtain rc f1 o1 where run:
    "writeChunkLocationFromInputFileToOutputFile stale chunk f out = (rc, f1, o1)"
    by (cases "writeChunkLocationFromInputFileToOutputFile stale chunk f out")
  with assms have "\<not> rc < 0" "f' = f1" "o' = o1"
    by (auto simp: copy_chunk_def split: if_splits)
  with copier_written [OF run] show ?thesis by simp
qed


text \<open>The size of a region with the pad byte that follows an odd one.\<close>

definition padded_size :: "nat \<Rightarrow> nat" where
  "padded_size n = n + (if n mod 2 \<noteq> 0 then 1 else 0)"

lemma write_other_chunks_written:
  "write_other_chunks stale cs f out = Inr (f', o') \<Longrightarrow>
     \<exists>ys. written o' = written out @ ys
          \<and> length ys = sum_list (map (\<lambda>c. padded_size (chunk_size c)) cs)
          \<and> contents f' = contents f"
proof (induction cs arbitrary: f out)
  case Nil
  then show ?case by simp
next
  case (Cons c cs)
  from Cons.prems obtain f1 o1 o2 where
    c1: "copy_chunk stale c f out = Inr (f1, o1)"
    and p1: "pad_if_odd (chunk_size c) o1 = Inr o2"
    and r: "write_other_chunks stale cs f1 o2 = Inr (f', o')"
    by (auto simp: bind_err_Inr)
  from copy_chunk_written [OF c1] obtain ys1 where
    y1: "written o1 = written out @ ys1" "length ys1 = chunk_size c" "contents f1 = contents f"
    by (elim exE conjE) (rule that)
  from Cons.IH [OF r] obtain ys2 where
    y2: "written o' = written o2 @ ys2"
      "length ys2 = sum_list (map (\<lambda>c. padded_size (chunk_size c)) cs)"
      "contents f' = contents f1"
    by (elim exE conjE) (rule that)
  let ?pad = "if chunk_size c mod 2 \<noteq> 0 then [CHR 0x00] else []"
  have "written o' = written out @ (ys1 @ ?pad @ ys2)"
    using y1(1) y2(1) pad_if_odd_written [OF p1] by simp
  moreover have "length (ys1 @ ?pad @ ys2)
      = sum_list (map (\<lambda>c. padded_size (chunk_size c)) (c # cs))"
    using y1(2) y2(2) by (simp add: padded_size_def)
  ultimately show ?case using y1(3) y2(3) by (intro exI [of _ "ys1 @ ?pad @ ys2"]) simp
qed

text \<open>The bytes of the output file after a call of the writer that returns 0.\<close>

lemma writeOutputFile_layout:
  assumes run: "writeOutputFile stale inF outF extra dat others labelInfo hdr fc cue lst lsize
                  = Inr (f', o')"
  shows "\<exists>E D Os.
      written o' = written outF
        @ WaveHeader_bytes (hdr\<lparr>dataSize :=
             uint32ToLittleEndianBytes (new_fileDataSize extra dat others labelInfo lsize)\<rparr>)
        @ FormatChunk_bytes fc @ E @ D
        @ (if chunk_size dat mod 2 \<noteq> 0 then [CHR 0x00] else [])
        @ (chunkID_c cue @ chunkDataSize_c cue @ cuePointsCount cue)
        @ concat (map (\<lambda>i. CuePoint_bytes (cuePoints cue ! i))
                    [0..<unat (littleEndianBytesToUInt32 (cuePointsCount cue))])
        @ (chunkID_l lst @ chunkDataSize_l lst @ typeID lst)
        @ take lsize (labelChunks lst)
        @ (if lsize mod 2 \<noteq> 0 then [CHR 0x00] else [])
        @ Os
      \<and> length E = (if chunk_size extra > 0 then padded_size (chunk_size extra) else 0)
      \<and> length D = chunk_size dat
      \<and> (nat (startOffset dat) + chunk_size dat \<le> length (contents inF) \<longrightarrow>
           D = take (chunk_size dat) (drop (nat (startOffset dat)) (contents inF)))
      \<and> length Os = sum_list (map (\<lambda>c. padded_size (chunk_size c)) others)"
proof -
  let ?h = "WaveHeader_bytes (hdr\<lparr>dataSize :=
             uint32ToLittleEndianBytes (new_fileDataSize extra dat others labelInfo lsize)\<rparr>)"
  let ?cues = "map (\<lambda>i. CuePoint_bytes (cuePoints cue ! i))
                    [0..<unat (littleEndianBytesToUInt32 (cuePointsCount cue))]"
  from run obtain o1 o2 f3 o3 f4 o4 o5 o6 o7 o8 o9 o10 where
    s1: "write_or WriteHeaderError ?h outF = Inr o1"
    and s2: "write_or WriteFormatError (FormatChunk_bytes fc) o1 = Inr o2"
    and s3: "(if chunk_size extra > 0 then
               bind_err (copy_chunk stale extra inF o2) (\<lambda>(f, oa).
               bind_err (pad_if_odd (chunk_size extra) oa) (\<lambda>ob. Inr (f, ob)))
             else Inr (inF, o2)) = Inr (f3, o3)"
    and s4: "copy_chunk stale dat f3 o3 = Inr (f4, o4)"
    and s5: "pad_if_odd (chunk_size dat) o4 = Inr o5"
    and s6: "write_or WriteCueHeaderError
               (chunkID_c cue @ chunkDataSize_c cue @ cuePointsCount cue) o5 = Inr o6"
    and s7: "write_each WriteCuePointError ?cues o6 = Inr o7"
    and s8: "write_or WriteAdtlHeaderError
               (chunkID_l lst @ chunkDataSize_l lst @ typeID lst) o7 = Inr o8"
    and s9: "(if lsize = 0 then Inl (Exit WriteLabelsError)
              else write_or WriteLabelsError (take lsize (labelChunks lst)) o8) = Inr o9"
    and s10: "pad_if_odd lsize o9 = Inr o10"
    and s11: "write_other_chunks stale others f4 o10 = Inr (f', o')"
    unfolding writeOutputFile_def Let_def bind_err_Inr by (elim exE conjE) (auto simp: bind_err_Inr)
  have e: "\<exists>E. written o3 = written o2 @ E
      \<and> length E = (if chunk_size extra > 0 then padded_size (chunk_size extra) else 0)
      \<and> contents f3 = contents inF"
  proof (cases "chunk_size extra > 0")
    case False
    with s3 show ?thesis by simp
  next
    case True
    with s3 obtain oa where c: "copy_chunk stale extra inF o2 = Inr (f3, oa)"
      and p: "pad_if_odd (chunk_size extra) oa = Inr o3"
      by (auto simp: bind_err_Inr)
    from copy_chunk_written [OF c] obtain ys where
      y: "written oa = written o2 @ ys" "length ys = chunk_size extra" "contents f3 = contents inF"
      by (elim exE conjE) (rule that)
    let ?pad = "if chunk_size extra mod 2 \<noteq> 0 then [CHR 0x00] else []"
    have "written o3 = written o2 @ (ys @ ?pad)" using y(1) pad_if_odd_written [OF p] by simp
    moreover have "length (ys @ ?pad) = padded_size (chunk_size extra)"
      using y(2) by (simp add: padded_size_def)
    ultimately show ?thesis using True y(3) by (intro exI [of _ "ys @ ?pad"]) simp
  qed
  then obtain E where E: "written o3 = written o2 @ E"
    "length E = (if chunk_size extra > 0 then padded_size (chunk_size extra) else 0)"
    "contents f3 = contents inF"
    by (elim exE conjE) (rule that)
  from copy_chunk_written [OF s4] obtain D where D: "written o4 = written o3 @ D"
    "length D = chunk_size dat"
    "nat (startOffset dat) + chunk_size dat \<le> length (contents f3) \<longrightarrow>
       D = take (chunk_size dat) (drop (nat (startOffset dat)) (contents f3))"
    by (elim exE conjE) (rule that)
  from write_other_chunks_written [OF s11] obtain Os where Os: "written o' = written o10 @ Os"
    "length Os = sum_list (map (\<lambda>c. padded_size (chunk_size c)) others)"
    by (elim exE conjE) (rule that)
  have s9': "write_or WriteLabelsError (take lsize (labelChunks lst)) o8 = Inr o9"
    using s9 by (simp split: if_splits)
  have "written o' = written outF @ ?h @ FormatChunk_bytes fc @ E @ D
        @ (if chunk_size dat mod 2 \<noteq> 0 then [CHR 0x00] else [])
        @ (chunkID_c cue @ chunkDataSize_c cue @ cuePointsCount cue)
        @ concat ?cues
        @ (chunkID_l lst @ chunkDataSize_l lst @ typeID lst)
        @ take lsize (labelChunks lst)
        @ (if lsize mod 2 \<noteq> 0 then [CHR 0x00] else [])
        @ Os"
    unfolding Os(1) pad_if_odd_written [OF s10] write_or_written [OF s9']
      write_or_written [OF s8] write_each_written [OF s7] write_or_written [OF s6]
      pad_if_odd_written [OF s5] D(1) E(1) write_or_written [OF s2] write_or_written [OF s1]
    by simp
  then show ?thesis using E(2,3) D(2,3) Os(2) by (intro exI [of _ E] exI [of _ D] exI [of _ Os]) simp
qed


section \<open>Properties of the synthesized chunks\<close>

lemma length_uint32ToLittleEndianBytes [simp]: "length (uint32ToLittleEndianBytes w) = 4"
  by (simp add: uint32ToLittleEndianBytes_def)

lemma le_bytes_sum_all:
  "(n::nat) mod 256 + 256 * (n div 256 mod 256) + 65536 * (n div 65536 mod 256)
       + 16777216 * (n div 16777216) = n"
proof -
  define a where "a = n div 256"
  define b where "b = a div 256"
  define c where "c = b div 256"
  have n: "n = n mod 256 + 256 * a" by (simp add: a_def)
  have a: "a = a mod 256 + 256 * b" by (simp add: b_def)
  have b: "b = b mod 256 + 256 * c" by (simp add: c_def)
  have b': "n div 65536 = b" by (simp add: a_def b_def div_mult2_eq)
  have c': "n div 16777216 = c" by (simp add: a_def b_def c_def div_mult2_eq)
  define x where "x = n mod 256"
  define y where "y = a mod 256"
  define z where "z = b mod 256"
  have "x + 256 * y + 65536 * z + 16777216 * c = n"
    using n a b unfolding x_def [symmetric] y_def [symmetric] z_def [symmetric] by simp
  then show ?thesis unfolding b' c' a_def [symmetric] x_def y_def z_def .
qed

lemma le_bytes_sum:
  assumes "(n::nat) < 4294967296"
  shows "n mod 256 + 256 * (n div 256 mod 256) + 65536 * (n div 65536 mod 256)
       + 16777216 * (n div 16777216 mod 256) = n"
proof -
  have "n div 16777216 < 256" using assms by simp
  then have "n div 16777216 mod 256 = n div 16777216" by simp
  then show ?thesis using le_bytes_sum_all [of n] by simp
qed

lemma littleEndian_roundtrip [simp]:
  "littleEndianBytesToUInt32 (uint32ToLittleEndianBytes w) = w"
proof -
  have "unat w < 4294967296" using unsigned_less [of w, where 'a = nat] by simp
  then have "littleEndianBytesToUInt32 (uint32ToLittleEndianBytes w) = word_of_nat (unat w)"
    by (simp add: littleEndianBytesToUInt32_def uint32ToLittleEndianBytes_def le_bytes_sum
        le_bytes_sum_all del: of_nat_add of_nat_mult of_nat_numeral)
  then show ?thesis by simp
qed

lemma add_label_size_even: "even acc \<Longrightarrow> even (add_label_size labelInfo acc i)"
  unfolding add_label_size_def Let_def by presburger

lemma listChunkSize_fold_even:
  "even acc \<Longrightarrow> even (foldl (add_label_size labelInfo) acc is)"
proof (induction "is" arbitrary: acc)
  case Nil
  then show ?case by simp
next
  case (Cons i "is")
  have "even (add_label_size labelInfo acc i)" using Cons.prems by (rule add_label_size_even)
  then have "even (foldl (add_label_size labelInfo) (add_label_size labelInfo acc i) is)"
    by (rule Cons.IH)
  then show ?case by simp
qed

lemma listChunkSize_even: "even (listChunkSize_of labelInfo)"
  unfolding listChunkSize_of_def by (rule listChunkSize_fold_even) simp

lemma length_label_chunk_at:
  "length (label_chunk_at labelInfo i) = add_label_size labelInfo 0 i"
  by (simp add: label_chunk_at_def cue_point_at_def add_label_size_def Let_def)

lemma add_label_size_acc:
  "add_label_size labelInfo acc i = acc + add_label_size labelInfo 0 i"
  by (simp add: add_label_size_def Let_def)

lemma listChunkSize_fold_length:
  "foldl (add_label_size labelInfo) acc is
   = acc + length (concat (map (label_chunk_at labelInfo) is))"
proof (induction "is" arbitrary: acc)
  case Nil
  then show ?case by simp
next
  case (Cons i "is")
  show ?case
    using Cons.IH [of "add_label_size labelInfo acc i"] add_label_size_acc [of labelInfo acc i]
    by (simp add: length_label_chunk_at)
qed

lemma length_labelChunks:
  "length (labelChunks (make_listChunk labelInfo)) = listChunkSize_of labelInfo"
  unfolding listChunkSize_of_def listChunkSize_fold_length by (simp add: make_listChunk_def)

lemma cuePoints_nth:
  "i < unat (count labelInfo) \<Longrightarrow>
     cuePoints (make_cueChunk labelInfo) ! i = cue_point_at labelInfo i"
  by (simp add: make_cueChunk_def)

lemma label_chunk_cue_id:
  "take 4 (drop 8 (label_chunk_at labelInfo i)) = cuePointID (cue_point_at labelInfo i)"
  by (simp add: label_chunk_at_def cue_point_at_def)

text \<open>
  The value of \<open>listChunkIndex\<close> when turn \<open>i\<close> of the second loop starts: the number of
  bytes the earlier turns have stored in the list body.
\<close>

definition listChunkIndex_at :: "LabelInfo \<Rightarrow> nat \<Rightarrow> nat" where
  "listChunkIndex_at labelInfo i = length (concat (map (label_chunk_at labelInfo) [0..<i]))"

lemma labelChunks_split:
  assumes "i < unat (count labelInfo)"
  shows "drop (listChunkIndex_at labelInfo i) (labelChunks (make_listChunk labelInfo))
           = label_chunk_at labelInfo i
             @ concat (map (label_chunk_at labelInfo) [Suc i..<unat (count labelInfo)])"
proof -
  have "[0..<unat (count labelInfo)] = [0..<i] @ i # [Suc i..<unat (count labelInfo)]"
    using assms by (metis le0 le_add_diff_inverse less_imp_le_nat upt_add_eq_append upt_conv_Cons)
  then have "labelChunks (make_listChunk labelInfo)
      = concat (map (label_chunk_at labelInfo) [0..<i]) @ label_chunk_at labelInfo i
        @ concat (map (label_chunk_at labelInfo) [Suc i..<unat (count labelInfo)])"
    by (simp add: make_listChunk_def)
  then show ?thesis by (simp add: listChunkIndex_at_def)
qed

lemma label_chunk_at_ge_12: "12 \<le> length (label_chunk_at labelInfo i)"
  by (simp add: length_label_chunk_at add_label_size_def Let_def)

lemma label_chunk_id: "take 4 (label_chunk_at labelInfo i) = ''labl''"
  by (simp add: label_chunk_at_def)

lemma labelChunks_record:
  assumes "i < unat (count labelInfo)"
  shows "take 4 (drop (listChunkIndex_at labelInfo i) (labelChunks (make_listChunk labelInfo)))
           = ''labl''"
    and "take 4 (drop (listChunkIndex_at labelInfo i + 8) (labelChunks (make_listChunk labelInfo)))
           = cuePointID (cue_point_at labelInfo i)"
proof -
  note sp = labelChunks_split [OF assms]
  show "take 4 (drop (listChunkIndex_at labelInfo i) (labelChunks (make_listChunk labelInfo)))
           = ''labl''"
    unfolding sp using label_chunk_at_ge_12 [of labelInfo i] label_chunk_id [of labelInfo i]
    by simp
  have "drop (listChunkIndex_at labelInfo i + 8) (labelChunks (make_listChunk labelInfo))
      = drop 8 (drop (listChunkIndex_at labelInfo i) (labelChunks (make_listChunk labelInfo)))"
    by (simp add: add.commute)
  then show "take 4 (drop (listChunkIndex_at labelInfo i + 8)
        (labelChunks (make_listChunk labelInfo))) = cuePointID (cue_point_at labelInfo i)"
    unfolding sp using label_chunk_at_ge_12 [of labelInfo i] label_chunk_cue_id [of labelInfo i]
    by simp
qed

lemma cue_id_value:
  assumes "i < unat (count labelInfo)"
  shows "unat (littleEndianBytesToUInt32 (cuePointID (cue_point_at labelInfo i))) = i + 1"
proof -
  have "unat (count labelInfo) < 2 ^ 32"
    using unsigned_less [of "count labelInfo", where 'a = nat] by simp
  with assms have "i + 1 < 2 ^ 32" by simp
  then have "unat (word_of_nat (i + 1) :: 32 word) = i + 1"
    by (simp add: of_nat_inverse)
  then show ?thesis by (simp add: cue_point_at_def)
qed

text \<open>
  C6. For every label list and every index \<open>i\<close> below its count: the cue chunk holds
  \<open>count\<close> cue records; the cue-id of the \<open>i\<close>-th is the little-endian encoding of
  \<open>i + 1\<close>; in the list body the program builds, the record that starts where turn \<open>i\<close>
  starts has the identifier \<open>labl\<close> and, in its bytes 8 to 11, the same four bytes as
  that cue-id; the number they encode is \<open>i + 1\<close>; and when a further entry follows,
  its record starts right after this one and its cue-id is greater by one.
\<close>

theorem cue_ids_sequential:
  assumes "i < unat (count labelInfo)"
  shows "length (cuePoints (make_cueChunk labelInfo)) = unat (count labelInfo)
       \<and> cuePointID (cuePoints (make_cueChunk labelInfo) ! i)
           = uint32ToLittleEndianBytes (word_of_nat (i + 1))
       \<and> take 4 (drop (listChunkIndex_at labelInfo i) (labelChunks (make_listChunk labelInfo)))
           = ''labl''
       \<and> take 4 (drop (listChunkIndex_at labelInfo i + 8) (labelChunks (make_listChunk labelInfo)))
           = cuePointID (cuePoints (make_cueChunk labelInfo) ! i)
       \<and> unat (littleEndianBytesToUInt32 (cuePointID (cuePoints (make_cueChunk labelInfo) ! i)))
           = i + 1
       \<and> (i + 1 < unat (count labelInfo) \<longrightarrow>
            unat (littleEndianBytesToUInt32
                    (cuePointID (cuePoints (make_cueChunk labelInfo) ! (i + 1))))
            = unat (littleEndianBytesToUInt32
                    (cuePointID (cuePoints (make_cueChunk labelInfo) ! i))) + 1
          \<and> listChunkIndex_at labelInfo (i + 1)
            = listChunkIndex_at labelInfo i + length (label_chunk_at labelInfo i))"
proof -
  have len: "length (cuePoints (make_cueChunk labelInfo)) = unat (count labelInfo)"
    by (simp add: make_cueChunk_def)
  have id: "cuePointID (cue_point_at labelInfo i) = uint32ToLittleEndianBytes (word_of_nat (i + 1))"
    by (simp add: cue_point_at_def)
  have nxt: "unat (littleEndianBytesToUInt32
                    (cuePointID (cuePoints (make_cueChunk labelInfo) ! (i + 1)))) = i + 1 + 1"
    if "i + 1 < unat (count labelInfo)"
    using cue_id_value [OF that] cuePoints_nth [OF that] by simp
  have idx: "listChunkIndex_at labelInfo (i + 1)
            = listChunkIndex_at labelInfo i + length (label_chunk_at labelInfo i)"
    by (simp add: listChunkIndex_at_def)
  show ?thesis
    using len id labelChunks_record [OF assms] cue_id_value [OF assms] nxt idx
    by (simp add: cuePoints_nth [OF assms])
qed

definition two_labels :: LabelInfo where
  "two_labels =
     \<lparr>locations = [0, 44100],
      labels = [''a'' @ replicate 499 (CHR 0x00), ''bb'' @ replicate 498 (CHR 0x00)],
      labelLengths = [2, 3], count = 2\<rparr>"

theorem cue_ids_sequential_witness:
  "0 < unat (count two_labels) \<and> 0 + 1 < unat (count two_labels)
   \<and> cuePointID (cuePoints (make_cueChunk two_labels) ! 0) = uint32ToLittleEndianBytes 1
   \<and> take 4 (drop (listChunkIndex_at two_labels 0 + 8) (labelChunks (make_listChunk two_labels)))
       = uint32ToLittleEndianBytes 1
   \<and> unat (littleEndianBytesToUInt32 (cuePointID (cuePoints (make_cueChunk two_labels) ! 1))) = 2
   \<and> listChunkIndex_at two_labels 1 = 14
   \<and> labelChunks (make_listChunk two_labels)
       = ''labl'' @ uint32ToLittleEndianBytes 6 @ uint32ToLittleEndianBytes 1 @ ''a'' @ [CHR 0x00]
         @ ''labl'' @ uint32ToLittleEndianBytes 7 @ uint32ToLittleEndianBytes 2 @ ''bb''
         @ [CHR 0x00, CHR 0x00]"
proof -
  have c: "unat (count two_labels) = 2" by (simp add: two_labels_def)
  have u: "[0..<2] = [0, Suc 0]" by (simp add: upt_rec)
  have body: "labelChunks (make_listChunk two_labels)
       = ''labl'' @ uint32ToLittleEndianBytes 6 @ uint32ToLittleEndianBytes 1 @ ''a'' @ [CHR 0x00]
         @ ''labl'' @ uint32ToLittleEndianBytes 7 @ uint32ToLittleEndianBytes 2 @ ''bb''
         @ [CHR 0x00, CHR 0x00]"
    by (simp add: make_listChunk_def c u label_chunk_at_def cue_point_at_def)
       (simp add: two_labels_def upt_rec)
  have i1: "listChunkIndex_at two_labels 1 = 14"
    by (simp add: listChunkIndex_at_def label_chunk_at_def cue_point_at_def two_labels_def)
  show ?thesis
    using cue_ids_sequential [of 0 two_labels] c body i1 by simp
qed


section \<open>Properties of the label reader\<close>

lemma take_strlen_zero:
  assumes "CHR 0x00 \<in> set s"
  shows "take (strlen (s @ [CHR 0x00]) + 1) (s @ [CHR 0x00])
           = takeWhile (\<lambda>c. c \<noteq> CHR 0x00) s @ [CHR 0x00]"
    and "strlen (s @ [CHR 0x00]) = length (takeWhile (\<lambda>c. c \<noteq> CHR 0x00) s)"
    and "length (takeWhile (\<lambda>c. c \<noteq> CHR 0x00) s) < length s"
proof -
  let ?P = "\<lambda>c. c \<noteq> CHR 0x00"
  let ?n = "length (takeWhile ?P s)"
  have "?n \<noteq> length s"
  proof
    assume "?n = length s"
    then have "takeWhile ?P s = s" using takeWhile_eq_take [of ?P s] by simp
    then have "\<forall>x\<in>set s. ?P x" by (simp only: takeWhile_eq_all_conv)
    with assms show False by blast
  qed
  then show n: "?n < length s" using length_takeWhile_le [of ?P s] by simp
  show sl: "strlen (s @ [CHR 0x00]) = ?n"
    using assms by (simp add: strlen_def takeWhile_append1)
  have z: "s ! ?n = CHR 0x00" using nth_length_takeWhile [OF n] by simp
  have "take (?n + 1) s = takeWhile ?P s @ [CHR 0x00]"
    using n z by (simp add: take_Suc_conv_app_nth takeWhile_eq_take [symmetric])
  then show "take (strlen (s @ [CHR 0x00]) + 1) (s @ [CHR 0x00]) = takeWhile ?P s @ [CHR 0x00]"
    using n by (simp add: sl)
qed

lemma map_nth_take: "n \<le> length xs \<Longrightarrow> map (\<lambda>j. xs ! j) [0..<n] = take n xs"
  by (simp add: list_eq_iff_nth_eq)


lemma read_label_record_Assigned:
  assumes "fscanf_stream labelFile = (Assigned startTime scanned_label, f1)"
    and "float_le startTime (Finite 48660)"
    and "read_label_record fc labelFile labelInfo = Inr (f', labelInfo')"
  shows "length scanned_label + 1 \<le> 500"
    and "labelLengths labelInfo' = labelLengths labelInfo @ [strlen (scanned_label @ [CHR 0x00]) + 1]"
    and "labels labelInfo' =
           labels labelInfo @ [strcpy (replicate 500 (CHR 0x00)) (scanned_label @ [CHR 0x00])]"
    and "count labelInfo' = count labelInfo + 1"
    and "unat (count labelInfo) < 500"
  using assms
  by (auto simp: read_label_record_def Let_def split: if_splits option.splits)

text \<open>
  C10. When the text that \<open>fscanf\<close> has scanned for a record holds a zero byte, and the
  record is stored, the stored length is the number of bytes before the first zero byte
  plus one, the stored row is those bytes followed by zeros only, bytes of the text are
  lost, and the text of the serialized record is those bytes, the terminator and the
  pad byte.
\<close>

theorem zero_byte_truncates_label:
  assumes sc: "fscanf_stream labelFile = (Assigned startTime scanned_label, f1)"
    and le: "float_le startTime (Finite 48660)"
    and r: "read_label_record fc labelFile labelInfo = Inr (f', labelInfo')"
    and z: "CHR 0x00 \<in> set scanned_label"
  shows "labelLengths labelInfo' =
           labelLengths labelInfo @ [length (takeWhile (\<lambda>c. c \<noteq> CHR 0x00) scanned_label) + 1]
       \<and> labels labelInfo' =
           labels labelInfo @
             [takeWhile (\<lambda>c. c \<noteq> CHR 0x00) scanned_label
              @ replicate (500 - length (takeWhile (\<lambda>c. c \<noteq> CHR 0x00) scanned_label)) (CHR 0x00)]
       \<and> length (takeWhile (\<lambda>c. c \<noteq> CHR 0x00) scanned_label) < length scanned_label
       \<and> (length (labels labelInfo) = length (labelLengths labelInfo) \<longrightarrow>
            drop 12 (label_chunk_at labelInfo' (length (labelLengths labelInfo))) =
              takeWhile (\<lambda>c. c \<noteq> CHR 0x00) scanned_label @ [CHR 0x00]
              @ (if (length (takeWhile (\<lambda>c. c \<noteq> CHR 0x00) scanned_label) + 1) mod 2 \<noteq> 0
                 then [CHR 0x00] else []))"
proof -
  define pre where "pre = takeWhile (\<lambda>c. c \<noteq> CHR 0x00) scanned_label"
  define n where "n = length pre"
  note st = read_label_record_Assigned [OF sc le r]
  note tz = take_strlen_zero [OF z, folded pre_def]
  have n: "n < length scanned_label" "n < 500" using tz(3) st(1) by (simp_all add: n_def)
  have len: "labelLengths labelInfo' = labelLengths labelInfo @ [n + 1]"
    using st(2) tz(2) by (simp add: n_def)
  have "replicate (500 - n) (CHR 0x00) = CHR 0x00 # replicate (500 - (n + 1)) (CHR 0x00)"
    using n(2) by (simp add: Suc_diff_Suc flip: replicate_Suc)
  then have row: "strcpy (replicate 500 (CHR 0x00)) (scanned_label @ [CHR 0x00])
      = pre @ replicate (500 - n) (CHR 0x00)"
    using tz(1,2) by (simp add: strcpy_def n_def)
  have lab: "labels labelInfo' = labels labelInfo @ [pre @ replicate (500 - n) (CHR 0x00)]"
    using st(3) row by simp
  have ser: "drop 12 (label_chunk_at labelInfo' (length (labelLengths labelInfo))) =
      pre @ [CHR 0x00] @ (if (n + 1) mod 2 \<noteq> 0 then [CHR 0x00] else [])"
    if eq: "length (labels labelInfo) = length (labelLengths labelInfo)"
  proof -
    let ?k = "length (labelLengths labelInfo)"
    let ?row = "pre @ replicate (500 - n) (CHR 0x00)"
    have l: "labelLengths labelInfo' ! ?k = n + 1" by (simp add: len)
    have w: "labels labelInfo' ! ?k = ?row" using eq by (simp add: lab nth_append)
    have "map (\<lambda>j. ?row ! j) [0..<n + 1] = take (n + 1) ?row"
      using n(2) by (intro map_nth_take) (simp add: n_def)
    also have "\<dots> = pre @ [CHR 0x00]"
      using n(2) by (simp add: n_def)
    finally have t: "map (\<lambda>j. ?row ! j) [0..<n + 1] = pre @ [CHR 0x00]" .
    show ?thesis
      unfolding label_chunk_at_def l w t by (simp add: cue_point_at_def)
  qed
  show ?thesis using len lab n(1) ser by (simp add: pre_def n_def)
qed


text \<open>Examples: a format chunk for 44100 frames per second, and label files.\<close>

definition fmt44100 :: FormatChunk where
  "fmt44100 = FormatChunk_of_bytes
     (''fmt '' @ [CHR 0x10, CHR 0x00, CHR 0x00, CHR 0x00, CHR 0x01, CHR 0x00, CHR 0x01, CHR 0x00,
                 CHR 0x44, CHR 0xAC, CHR 0x00, CHR 0x00, CHR 0x88, CHR 0x58, CHR 0x01, CHR 0x00,
                 CHR 0x02, CHR 0x00, CHR 0x10, CHR 0x00])"

definition zero_label_file :: FILE_in where
  "zero_label_file =
     fopen_in (''0.5'' @ [CHR 0x09] @ ''0.6'' @ [CHR 0x09] @ ''ab'' @ [CHR 0x00] @ ''cd''
               @ [CHR 0x0A]) None"

definition no_labels :: LabelInfo where
  "no_labels = \<lparr>locations = [], labels = [], labelLengths = [], count = 0\<rparr>"

lemmas float_eval = round_to_float_def floor_log2_def bit_length.simps pow2_def
  round_half_even_def Let_def float_of_uint32_def truncate_toward_zero_def timeToIndex_def
  littleEndianBytesToUInt32_def littleEndianBytesToUInt16_def

lemmas scan_eval = fscanf_label_def scan_float_def take_sign_def other_spelling_def
  split_while_def isspace_def isdigit_def scan_exponent_def decimal_value_def digits_value_def
  pow10_def

lemmas stream_eval = fscanf_stream_def fgetc_def ungetc_def gobble_line_feed_def
  after_record_def read_label_record_def readLabelFile_def fopen_in_def strlen_def strcpy_def

theorem zero_byte_truncates_label_witness:
  "fst (fscanf_stream zero_label_file) = Assigned (Finite (1 / 2)) (''ab'' @ [CHR 0x00] @ ''cd'')
   \<and> float_le (Finite (1 / 2)) (Finite 48660)
   \<and> CHR 0x00 \<in> set (''ab'' @ [CHR 0x00] @ ''cd'')
   \<and> labelLengths (snd (projr (read_label_record fmt44100 zero_label_file no_labels))) = [3]
   \<and> labels (snd (projr (read_label_record fmt44100 zero_label_file no_labels)))
       = [''ab'' @ replicate 498 (CHR 0x00)]
   \<and> drop 12 (label_chunk_at (snd (projr (read_label_record fmt44100 zero_label_file no_labels))) 0)
       = ''ab'' @ [CHR 0x00, CHR 0x00]"
proof -
  obtain f1 where sc: "fscanf_stream zero_label_file
      = (Assigned (Finite (1 / 2)) (''ab'' @ [CHR 0x00] @ ''cd''), f1)"
    by (simp add: zero_label_file_def stream_eval scan_eval float_eval)
  have le: "float_le (Finite (1 / 2)) (Finite 48660)" by simp
  obtain f' labelInfo' where
    r: "read_label_record fmt44100 zero_label_file no_labels = Inr (f', labelInfo')"
    by (simp add: zero_label_file_def no_labels_def fmt44100_def FormatChunk_of_bytes_def
        stream_eval scan_eval float_eval)
  have z: "CHR 0x00 \<in> set (''ab'' @ [CHR 0x00] @ ''cd'')" by simp
  show ?thesis
    using zero_byte_truncates_label [OF sc le r z] sc r by (simp add: no_labels_def)
qed


text \<open>
  What a label file yields: \<open>None\<close> when the reader does not return, else the entries
  as pairs of the sample index and the stored text with its terminator.
\<close>

definition label_entries :: "error + LabelInfo \<Rightarrow> (32 word \<times> string) list option" where
  "label_entries r =
     (case r of
        Inl e \<Rightarrow> None
      | Inr labelInfo \<Rightarrow>
          Some (zip (locations labelInfo)
                  (map (\<lambda>(n, row). take n row) (zip (labelLengths labelInfo) (labels labelInfo)))))"

definition lf_labels :: string where
  "lf_labels = ''0.0'' @ [CHR 0x09] @ ''0.1'' @ [CHR 0x09] @ ''a'' @ [CHR 0x0A]
               @ ''1.0'' @ [CHR 0x09] @ ''1.1'' @ [CHR 0x09] @ ''bb''"

definition crlf_labels :: string where
  "crlf_labels = ''0.0'' @ [CHR 0x09] @ ''0.1'' @ [CHR 0x09] @ ''a'' @ [CHR 0x0D, CHR 0x0A]
                 @ ''1.0'' @ [CHR 0x09] @ ''1.1'' @ [CHR 0x09] @ ''bb''"

definition cr_labels :: string where
  "cr_labels = ''0.0'' @ [CHR 0x09] @ ''0.1'' @ [CHR 0x09] @ ''a'' @ [CHR 0x0D]
               @ ''1.0'' @ [CHR 0x09] @ ''1.1'' @ [CHR 0x09] @ ''bb''"

lemmas file_eval = label_entries_def fmt44100_def FormatChunk_of_bytes_def stream_eval
  read_labels.simps scan_eval float_eval

text \<open>
  C3. Two records that differ in their line terminator only. With CR LF between them
  the second record keeps its start time 1.0, sample index 44100. With LF or CR alone
  the \<open>%*c\<close> that ends the format has taken the terminator, the \<open>fgetc\<close> after it takes
  the first character of the next record, and the second start time is read from
  \<open>.0\<close>: sample index 0.
\<close>

theorem line_endings_differ:
  "label_entries (readLabelFile (fopen_in crlf_labels None) fmt44100)
     = Some [(0, ''a'' @ [CHR 0x00]), (44100, ''bb'' @ [CHR 0x00])]
   \<and> label_entries (readLabelFile (fopen_in lf_labels None) fmt44100)
     = Some [(0, ''a'' @ [CHR 0x00]), (0, ''bb'' @ [CHR 0x00])]
   \<and> label_entries (readLabelFile (fopen_in cr_labels None) fmt44100)
     = Some [(0, ''a'' @ [CHR 0x00]), (0, ''bb'' @ [CHR 0x00])]"
  by (simp add: crlf_labels_def lf_labels_def cr_labels_def file_eval)

definition long_label :: string where
  "long_label = ''0'' @ [CHR 0x09] @ ''0'' @ [CHR 0x09] @ replicate 500 (CHR ''x'')"

definition full_table :: LabelInfo where
  "full_table =
     \<lparr>locations = replicate 500 0, labels = replicate 500 (replicate 500 (CHR 0x00)),
      labelLengths = replicate 500 1, count = 500\<rparr>"

text \<open>
  C8. A label of 500 bytes is stored, with its terminator, in the 500 bytes of
  \<open>labelString\<close>: the last byte goes beyond the array, and the reader neither prints nor
  exits. A valid record read when 500 entries are stored is written to index 500 of
  arrays of 500 entries.
\<close>

theorem label_capacities_not_enforced:
  "readLabelFile (fopen_in long_label None) fmt44100 = Inl (Undefined LabelStringOverflow)
   \<and> read_label_record fmt44100 (fopen_in (''0'' @ [CHR 0x09] @ ''0'' @ [CHR 0x09] @ ''a'') None)
         full_table = Inl (Undefined LabelTableOverflow)"
  by (simp add: long_label_def full_table_def file_eval)


text \<open>
  C4. The copier notes the position of the input stream on entry and seeks back to it
  on the paths where a read or a write fails, and not on the path that returns 0. A
  call that copies the four bytes at offset 0 of a 12-byte stream standing at position
  12 returns 0 and leaves the stream at position 4.
\<close>

theorem copier_success_moves_position:
  "fst (writeChunkLocationFromInputFileToOutputFile (\<lambda>i. CHR 0x00)
          \<lparr>startOffset = 0, chunk_size = 4\<rparr>
          ((fopen_in ''RIFFabcdWAVE'' None)\<lparr>fpos := 12\<rparr>) (fopen_out None)) = 0
   \<and> fpos (fst (snd (writeChunkLocationFromInputFileToOutputFile (\<lambda>i. CHR 0x00)
          \<lparr>startOffset = 0, chunk_size = 4\<rparr>
          ((fopen_in ''RIFFabcdWAVE'' None)\<lparr>fpos := 12\<rparr>) (fopen_out None)))) = 4
   \<and> written (snd (snd (writeChunkLocationFromInputFileToOutputFile (\<lambda>i. CHR 0x00)
          \<lparr>startOffset = 0, chunk_size = 4\<rparr>
          ((fopen_in ''RIFFabcdWAVE'' None)\<lparr>fpos := 12\<rparr>) (fopen_out None)))) = ''RIFF''"
  by (simp add: writeChunkLocationFromInputFileToOutputFile_def ftell_def fseek_set_def
      copy_blocks.simps fread_def fwrite_def buffer_after_def fopen_in_def fopen_out_def Let_def)

section \<open>The length field of the header\<close>

text \<open>
  The total size as the specification states it: the form type, the format chunk with
  its extra bytes, the data chunk, the other chunks, the cue chunk and the list chunk,
  every region with the pad byte of an odd size, that of the list body included.
\<close>

definition odd_pad :: "nat \<Rightarrow> nat" where
  "odd_pad n = (if n mod 2 \<noteq> 0 then 1 else 0)"

definition spec_total_size ::
  "ChunkLocation \<Rightarrow> ChunkLocation \<Rightarrow> ChunkLocation list \<Rightarrow> nat \<Rightarrow> nat \<Rightarrow> nat" where
  "spec_total_size extra dat others cue_count list_body_size =
     4 + 8 + 16 + chunk_size extra + odd_pad (chunk_size extra)
     + chunk_size dat + odd_pad (chunk_size dat)
     + sum_list (map (\<lambda>c. chunk_size c + odd_pad (chunk_size c)) others)
     + 12 + 24 * cue_count
     + 12 + list_body_size + odd_pad list_body_size"

lemma padded_size_odd_pad: "padded_size n = n + odd_pad n"
  by (simp add: padded_size_def odd_pad_def)

lemma add_chunk_size_eq:
  "add_chunk_size s c = s + word_of_nat (chunk_size c + odd_pad (chunk_size c))"
  by (simp add: add_chunk_size_def odd_pad_def Let_def)

lemma foldl_add_chunk_size:
  "foldl add_chunk_size s cs
     = s + word_of_nat (sum_list (map (\<lambda>c. chunk_size c + odd_pad (chunk_size c)) cs))"
proof (induction cs arbitrary: s)
  case Nil
  then show ?case by simp
next
  case (Cons c cs)
  show ?case using Cons.IH [of "add_chunk_size s c"] by (simp add: add_chunk_size_eq)
qed

text \<open>
  The length field the writer computes is the specification's sum reduced modulo
  \<open>2 ^ 32\<close>, provided the size of the list body is even.
\<close>

lemma new_fileDataSize_spec:
  assumes "even lsize"
  shows "new_fileDataSize extra dat others labelInfo lsize
           = word_of_nat (spec_total_size extra dat others (unat (count labelInfo)) lsize)"
proof -
  have l: "odd_pad lsize = 0" using assms by (simp add: odd_pad_def even_iff_mod_2_eq_zero)
  have e: "(if chunk_size extra mod 2 \<noteq> 0
            then (0::32 word) + 4 + 24 + word_of_nat (chunk_size extra) + 1
            else 0 + 4 + 24 + word_of_nat (chunk_size extra))
        = word_of_nat (28 + chunk_size extra + odd_pad (chunk_size extra))"
    by (simp add: odd_pad_def)
  have d: "(if chunk_size dat mod 2 \<noteq> 0 then (s::32 word) + word_of_nat (chunk_size dat) + 1
            else s + word_of_nat (chunk_size dat))
        = s + word_of_nat (chunk_size dat + odd_pad (chunk_size dat))" for s
    by (simp add: odd_pad_def)
  show ?thesis
    unfolding new_fileDataSize_def Let_def e d foldl_add_chunk_size spec_total_size_def l
    by simp
qed


section \<open>A small conversion\<close>

text \<open>
  A wave file of 46 bytes with a format chunk and a data chunk of two payload bytes,
  one label at half a second, and the output the program writes for them.
\<close>

definition quiet_env :: environment where
  "quiet_env =
     \<lparr>stale_bytes = (\<lambda>i. CHR 0x00), input_opens = True, label_opens = True, output_opens = True,
      malloc_header_ok = True, malloc_format_ok = True, malloc_cue_ok = True,
      malloc_list_ok = True, input_rd_budget = None, output_wr_budget = None\<rparr>"

definition fmt_bytes :: "byte list" where
  "fmt_bytes = ''fmt '' @ [CHR 0x10, CHR 0x00, CHR 0x00, CHR 0x00, CHR 0x01, CHR 0x00, CHR 0x01, CHR 0x00,
                 CHR 0x44, CHR 0xAC, CHR 0x00, CHR 0x00, CHR 0x88, CHR 0x58, CHR 0x01, CHR 0x00,
                 CHR 0x02, CHR 0x00, CHR 0x10, CHR 0x00]"

definition small_wave :: "byte list" where
  "small_wave = ''RIFF'' @ [CHR 0x26, CHR 0x00, CHR 0x00, CHR 0x00] @ ''WAVE'' @ fmt_bytes
     @ ''data'' @ [CHR 0x02, CHR 0x00, CHR 0x00, CHR 0x00] @ [CHR 0x11, CHR 0x22]"

definition one_label :: string where
  "one_label = ''0.5'' @ [CHR 0x09] @ ''0.5'' @ [CHR 0x09] @ ''mid''"

lemmas scan_eval_rules = read_input_def scan_chunks.simps scan_chunk_def scan_fmt_def scan_data_def
  scan_cue_def scan_list_def scan_other_def skip_chunk_data_def fread_def buffer_after_def
  fseek_cur_ignored_def fseek_cur_def fseek_set_def ftell_def WaveHeader_of_bytes_def
  FormatChunk_of_bytes_def fopen_in_def littleEndianBytesToUInt32_def littleEndianBytesToUInt16_def
  maxOtherChunks_def Let_def


lemmas write_eval_rules = write_labelled_def writeOutputFile_def bind_err_def
  write_or_def pad_if_odd_def copy_chunk_def writeChunkLocationFromInputFileToOutputFile_def
  copy_blocks.simps fwrite_def fopen_out_def new_fileDataSize_def add_chunk_size_def
  make_cueChunk_def make_listChunk_def listChunkSize_of_def add_label_size_def cue_point_at_def
  label_chunk_at_def WaveHeader_bytes_def FormatChunk_bytes_def CuePoint_bytes_def
  fread_def buffer_after_def fseek_set_def ftell_def fopen_in_def Let_def

definition mid_label :: LabelInfo where
  "mid_label = \<lparr>locations = [22050], labels = [''mid'' @ replicate 497 (CHR 0x00)],
            labelLengths = [4], count = 1\<rparr>"

definition small_wave_labelled :: "byte list" where
  "small_wave_labelled =
     ''RIFF'' @ uint32ToLittleEndianBytes 102 @ ''WAVE'' @ fmt_bytes
     @ ''data'' @ [CHR 0x02, CHR 0x00, CHR 0x00, CHR 0x00] @ [CHR 0x11, CHR 0x22]
     @ ''cue '' @ uint32ToLittleEndianBytes 28 @ uint32ToLittleEndianBytes 1
     @ uint32ToLittleEndianBytes 1 @ uint32ToLittleEndianBytes 22050
     @ ''data'' @ uint32ToLittleEndianBytes 0 @ uint32ToLittleEndianBytes 0
     @ uint32ToLittleEndianBytes 22050
     @ ''LIST'' @ uint32ToLittleEndianBytes 20 @ ''adtl''
     @ ''labl'' @ uint32ToLittleEndianBytes 8 @ uint32ToLittleEndianBytes 1
     @ ''mid'' @ [CHR 0x00]"

definition small_scan :: scan_state where
  "small_scan =
     \<lparr>inputFile = (fopen_in small_wave None)\<lparr>fpos := 46, feof := True\<rparr>,
      formatChunk = Some fmt44100,
      formatChunkExtraBytes = \<lparr>startOffset = 0, chunk_size = 0\<rparr>,
      dataChunkLocation = \<lparr>startOffset = 36, chunk_size = 10\<rparr>,
      otherChunkLocations = []\<rparr>"

lemma small_wave_read:
  "read_input quiet_env (fopen_in small_wave None)
     = Inr (WaveHeader_of_bytes (take 12 small_wave), fmt44100, small_scan)"
  by (simp add: quiet_env_def small_wave_def fmt_bytes_def small_scan_def fmt44100_def
      scan_eval_rules)

lemma one_label_read:
  "readLabelFile (fopen_in one_label None) fmt44100
     = Inr \<lparr>locations = [22050], labels = [''mid'' @ replicate 497 (CHR 0x00)],
            labelLengths = [4], count = 1\<rparr>"
  by (simp add: one_label_def fmt44100_def FormatChunk_of_bytes_def stream_eval
      read_labels.simps scan_eval float_eval flip: replicate_Suc)


lemma small_wave_write:
  "write_labelled quiet_env (WaveHeader_of_bytes (take 12 small_wave)) fmt44100 small_scan mid_label
     = Inr small_wave_labelled"
  by (simp add: quiet_env_def small_wave_def fmt_bytes_def small_scan_def fmt44100_def
      mid_label_def small_wave_labelled_def WaveHeader_of_bytes_def FormatChunk_of_bytes_def
      write_eval_rules upt_rec)


section \<open>The written output and its length\<close>

lemma length_CuePoint_bytes [simp]: "length (CuePoint_bytes (cue_point_at labelInfo i)) = 24"
  by (simp add: CuePoint_bytes_def cue_point_at_def)

lemma length_cue_records:
  "length (concat (map (\<lambda>i. CuePoint_bytes (cue_point_at labelInfo i)) [0..<n])) = 24 * n"
  by (induction n) simp_all

lemma cue_records_built:
  "map (\<lambda>i. CuePoint_bytes (cuePoints (make_cueChunk labelInfo) ! i))
     [0..<unat (littleEndianBytesToUInt32 (cuePointsCount (make_cueChunk labelInfo)))]
   = map (\<lambda>i. CuePoint_bytes (cue_point_at labelInfo i)) [0..<unat (count labelInfo)]"
proof -
  have "littleEndianBytesToUInt32 (cuePointsCount (make_cueChunk labelInfo)) = count labelInfo"
    by (simp add: make_cueChunk_def)
  then show ?thesis by (simp add: cuePoints_nth)
qed

text \<open>
  The bytes of the output file of a conversion that returns 0, from the label list on:
  the header with the new length field, the format chunk, the extra bytes \<open>E\<close> with
  their pad, the data chunk \<open>D\<close> and its pad, the cue chunk, the list chunk with the
  list body and no pad byte, and the other chunks \<open>Os\<close> with their pads.
\<close>

lemma write_labelled_layout:
  assumes run: "write_labelled env hdr fc st labelInfo = Inr bytes"
  shows "\<exists>E D Os.
      bytes =
        WaveHeader_bytes (hdr\<lparr>dataSize := uint32ToLittleEndianBytes
            (new_fileDataSize (formatChunkExtraBytes st) (dataChunkLocation st)
               (otherChunkLocations st) labelInfo (listChunkSize_of labelInfo))\<rparr>)
        @ FormatChunk_bytes fc @ E @ D
        @ (if chunk_size (dataChunkLocation st) mod 2 \<noteq> 0 then [CHR 0x00] else [])
        @ (''cue '' @ uint32ToLittleEndianBytes (word_of_nat (4 + 24 * unat (count labelInfo)))
           @ uint32ToLittleEndianBytes (count labelInfo))
        @ concat (map (\<lambda>i. CuePoint_bytes (cue_point_at labelInfo i)) [0..<unat (count labelInfo)])
        @ (''LIST'' @ uint32ToLittleEndianBytes (word_of_nat (4 + listChunkSize_of labelInfo))
           @ ''adtl'')
        @ labelChunks (make_listChunk labelInfo)
        @ Os
      \<and> length E = padded_size (chunk_size (formatChunkExtraBytes st))
      \<and> length D = chunk_size (dataChunkLocation st)
      \<and> (nat (startOffset (dataChunkLocation st)) + chunk_size (dataChunkLocation st)
             \<le> length (contents (inputFile st)) \<longrightarrow>
           D = take (chunk_size (dataChunkLocation st))
                 (drop (nat (startOffset (dataChunkLocation st))) (contents (inputFile st))))
      \<and> length Os = sum_list (map (\<lambda>c. padded_size (chunk_size c)) (otherChunkLocations st))"
proof -
  from run obtain f' o' where
    w: "writeOutputFile (stale_bytes env) (inputFile st) (fopen_out (output_wr_budget env))
          (formatChunkExtraBytes st) (dataChunkLocation st) (otherChunkLocations st)
          labelInfo hdr fc (make_cueChunk labelInfo) (make_listChunk labelInfo)
          (listChunkSize_of labelInfo) = Inr (f', o')"
    and b: "bytes = written o'"
    by (auto simp: write_labelled_def bind_err_Inr split: if_splits)
  from writeOutputFile_layout [OF w] obtain E D Os where
    lay: "written o' = written (fopen_out (output_wr_budget env))
        @ WaveHeader_bytes (hdr\<lparr>dataSize := uint32ToLittleEndianBytes
            (new_fileDataSize (formatChunkExtraBytes st) (dataChunkLocation st)
               (otherChunkLocations st) labelInfo (listChunkSize_of labelInfo))\<rparr>)
        @ FormatChunk_bytes fc @ E @ D
        @ (if chunk_size (dataChunkLocation st) mod 2 \<noteq> 0 then [CHR 0x00] else [])
        @ (chunkID_c (make_cueChunk labelInfo) @ chunkDataSize_c (make_cueChunk labelInfo)
           @ cuePointsCount (make_cueChunk labelInfo))
        @ concat (map (\<lambda>i. CuePoint_bytes (cuePoints (make_cueChunk labelInfo) ! i))
                    [0..<unat (littleEndianBytesToUInt32
                                 (cuePointsCount (make_cueChunk labelInfo)))])
        @ (chunkID_l (make_listChunk labelInfo) @ chunkDataSize_l (make_listChunk labelInfo)
           @ typeID (make_listChunk labelInfo))
        @ take (listChunkSize_of labelInfo) (labelChunks (make_listChunk labelInfo))
        @ (if listChunkSize_of labelInfo mod 2 \<noteq> 0 then [CHR 0x00] else [])
        @ Os"
    and E: "length E = (if chunk_size (formatChunkExtraBytes st) > 0
                        then padded_size (chunk_size (formatChunkExtraBytes st)) else 0)"
    and D: "length D = chunk_size (dataChunkLocation st)"
      "nat (startOffset (dataChunkLocation st)) + chunk_size (dataChunkLocation st)
             \<le> length (contents (inputFile st)) \<longrightarrow>
           D = take (chunk_size (dataChunkLocation st))
                 (drop (nat (startOffset (dataChunkLocation st))) (contents (inputFile st)))"
    and Os: "length Os = sum_list (map (\<lambda>c. padded_size (chunk_size c)) (otherChunkLocations st))"
    by (elim exE conjE) (rule that)
  have ev: "listChunkSize_of labelInfo mod 2 = 0"
    using listChunkSize_even [of labelInfo] by (simp add: even_iff_mod_2_eq_zero)
  have tk: "take (listChunkSize_of labelInfo) (labelChunks (make_listChunk labelInfo))
      = labelChunks (make_listChunk labelInfo)"
    by (simp add: length_labelChunks)
  have E': "length E = padded_size (chunk_size (formatChunkExtraBytes st))"
    using E by (simp add: padded_size_def)
  have hd: "chunkID_c (make_cueChunk labelInfo) @ chunkDataSize_c (make_cueChunk labelInfo)
           @ cuePointsCount (make_cueChunk labelInfo)
      = ''cue '' @ uint32ToLittleEndianBytes (word_of_nat (4 + 24 * unat (count labelInfo)))
           @ uint32ToLittleEndianBytes (count labelInfo)"
    by (simp add: make_cueChunk_def)
  have hl: "chunkID_l (make_listChunk labelInfo) @ chunkDataSize_l (make_listChunk labelInfo)
           @ typeID (make_listChunk labelInfo)
      = ''LIST'' @ uint32ToLittleEndianBytes (word_of_nat (4 + listChunkSize_of labelInfo))
           @ ''adtl''"
    by (simp add: make_listChunk_def)
  have "bytes = WaveHeader_bytes (hdr\<lparr>dataSize := uint32ToLittleEndianBytes
            (new_fileDataSize (formatChunkExtraBytes st) (dataChunkLocation st)
               (otherChunkLocations st) labelInfo (listChunkSize_of labelInfo))\<rparr>)
        @ FormatChunk_bytes fc @ E @ D
        @ (if chunk_size (dataChunkLocation st) mod 2 \<noteq> 0 then [CHR 0x00] else [])
        @ (''cue '' @ uint32ToLittleEndianBytes (word_of_nat (4 + 24 * unat (count labelInfo)))
           @ uint32ToLittleEndianBytes (count labelInfo))
        @ concat (map (\<lambda>i. CuePoint_bytes (cue_point_at labelInfo i)) [0..<unat (count labelInfo)])
        @ (''LIST'' @ uint32ToLittleEndianBytes (word_of_nat (4 + listChunkSize_of labelInfo))
           @ ''adtl'')
        @ labelChunks (make_listChunk labelInfo)
        @ Os"
    unfolding b lay hd hl tk cue_records_built ev by (simp add: fopen_out_def)
  then show ?thesis using E' D Os by (intro exI [of _ E] exI [of _ D] exI [of _ Os]) simp
qed

lemma write_labelled_length:
  assumes run: "write_labelled env hdr fc st labelInfo = Inr bytes"
    and h: "length (chunkID_h hdr) = 4" "length (riffType hdr) = 4"
    and f: "length (FormatChunk_bytes fc) = 24"
  shows "length bytes = 8 + spec_total_size (formatChunkExtraBytes st) (dataChunkLocation st)
           (otherChunkLocations st) (unat (count labelInfo)) (listChunkSize_of labelInfo)"
    and "take 4 (drop 4 bytes) = uint32ToLittleEndianBytes
            (new_fileDataSize (formatChunkExtraBytes st) (dataChunkLocation st)
               (otherChunkLocations st) labelInfo (listChunkSize_of labelInfo))"
proof -
  from write_labelled_layout [OF run] obtain E D Os where
    lay: "bytes =
        WaveHeader_bytes (hdr\<lparr>dataSize := uint32ToLittleEndianBytes
            (new_fileDataSize (formatChunkExtraBytes st) (dataChunkLocation st)
               (otherChunkLocations st) labelInfo (listChunkSize_of labelInfo))\<rparr>)
        @ FormatChunk_bytes fc @ E @ D
        @ (if chunk_size (dataChunkLocation st) mod 2 \<noteq> 0 then [CHR 0x00] else [])
        @ (''cue '' @ uint32ToLittleEndianBytes (word_of_nat (4 + 24 * unat (count labelInfo)))
           @ uint32ToLittleEndianBytes (count labelInfo))
        @ concat (map (\<lambda>i. CuePoint_bytes (cue_point_at labelInfo i)) [0..<unat (count labelInfo)])
        @ (''LIST'' @ uint32ToLittleEndianBytes (word_of_nat (4 + listChunkSize_of labelInfo))
           @ ''adtl'')
        @ labelChunks (make_listChunk labelInfo)
        @ Os"
    and E: "length E = padded_size (chunk_size (formatChunkExtraBytes st))"
    and D: "length D = chunk_size (dataChunkLocation st)"
    and Os: "length Os = sum_list (map (\<lambda>c. padded_size (chunk_size c)) (otherChunkLocations st))"
    by (elim exE conjE) (rule that)
  have ev: "odd_pad (listChunkSize_of labelInfo) = 0"
    using listChunkSize_even [of labelInfo] by (simp add: odd_pad_def even_iff_mod_2_eq_zero)
  have ps: "(\<lambda>c. padded_size (chunk_size c)) = (\<lambda>c. chunk_size c + odd_pad (chunk_size c))"
    by (simp add: padded_size_odd_pad)
  show "length bytes = 8 + spec_total_size (formatChunkExtraBytes st) (dataChunkLocation st)
           (otherChunkLocations st) (unat (count labelInfo)) (listChunkSize_of labelInfo)"
    unfolding lay spec_total_size_def ev
    using E D Os h f
    by (simp add: WaveHeader_bytes_def length_cue_records length_labelChunks ps
        padded_size_odd_pad odd_pad_def)
  show "take 4 (drop 4 bytes) = uint32ToLittleEndianBytes
            (new_fileDataSize (formatChunkExtraBytes st) (dataChunkLocation st)
               (otherChunkLocations st) labelInfo (listChunkSize_of labelInfo))"
    unfolding lay using h by (simp add: WaveHeader_bytes_def)
qed





section \<open>Properties of the scanner\<close>

text \<open>A property that every turn of the scan loop keeps holds when the loop ends.\<close>

lemma scan_chunks_invariant:
  assumes "scan_chunks env st = Inr st'" and "P env st"
    and step: "\<And>e s s'. P e s \<Longrightarrow> scan_chunk e s = Next s' \<Longrightarrow> P e s'"
    and fin: "\<And>e s s'. P e s \<Longrightarrow> scan_chunk e s = Done s' \<Longrightarrow> Q e s'"
  shows "Q env st'"
  using assms(1,2)
proof (induction env st rule: scan_chunks.induct)
  case (1 env st)
  show ?case
  proof (cases "scan_chunk env st")
    case (Next s')
    with "1.prems" have "scan_chunks env s' = Inr st'" by (simp add: scan_chunks.simps [of env st])
    moreover have "P env s'" using step [OF "1.prems"(2) Next] .
    ultimately show ?thesis using "1.IH" [OF Next] by simp
  next
    case (Done s')
    with "1.prems" have "st' = s'" by (simp add: scan_chunks.simps [of env st])
    with fin [OF "1.prems"(2) Done] show ?thesis by simp
  next
    case (Failed d)
    with "1.prems" show ?thesis by (simp add: scan_chunks.simps [of env st])
  qed
qed

lemma FormatChunk_bytes_of_bytes:
  assumes "length bs = 24"
  shows "FormatChunk_bytes (FormatChunk_of_bytes bs) = bs"
proof -
  have 1: "take 24 bs = take 4 bs @ take 20 (drop 4 bs)"
    using take_add [of 4 20 bs] by simp
  have 2: "take 20 (drop 4 bs) = take 4 (drop 4 bs) @ take 16 (drop 8 bs)"
    using take_add [of 4 16 "drop 4 bs"] by simp
  have 3: "take 16 (drop 8 bs) = take 2 (drop 8 bs) @ take 14 (drop 10 bs)"
    using take_add [of 2 14 "drop 8 bs"] by simp
  have 4: "take 14 (drop 10 bs) = take 2 (drop 10 bs) @ take 12 (drop 12 bs)"
    using take_add [of 2 12 "drop 10 bs"] by simp
  have 5: "take 12 (drop 12 bs) = take 4 (drop 12 bs) @ take 8 (drop 16 bs)"
    using take_add [of 4 8 "drop 12 bs"] by simp
  have 6: "take 8 (drop 16 bs) = take 4 (drop 16 bs) @ take 4 (drop 20 bs)"
    using take_add [of 4 4 "drop 16 bs"] by simp
  have 7: "take 4 (drop 20 bs) = take 2 (drop 20 bs) @ take 2 (drop 22 bs)"
    using take_add [of 2 2 "drop 20 bs"] by simp
  have "FormatChunk_bytes (FormatChunk_of_bytes bs) = take 24 bs"
    unfolding 1 2 3 4 5 6 7 by (simp add: FormatChunk_bytes_def FormatChunk_of_bytes_def)
  then show ?thesis using assms by simp
qed

text \<open>A stream whose device serves every read and whose error indicator is clear.\<close>

definition quiet :: "FILE_in \<Rightarrow> bool" where
  "quiet f = (rd_budget f = None \<and> \<not> ferror f)"

lemma quiet_fread:
  "quiet f \<Longrightarrow> fread n f = (got, f') \<Longrightarrow> quiet f' \<and> \<not> ferror f'"
  by (auto simp: quiet_def fread_def Let_def split: if_splits)

lemma quiet_fseek_cur_ignored [simp]: "quiet (fseek_cur_ignored off f) = quiet f"
  by (simp add: quiet_def fseek_cur_ignored_def fseek_cur_def fseek_set_def)

lemma quiet_skip_chunk_data [simp]: "quiet (skip_chunk_data n f) = quiet f"
  by (simp add: skip_chunk_data_def Let_def)

lemma quiet_fseek_set: "fseek_set off f = Some f' \<Longrightarrow> quiet f' = quiet f"
  by (auto simp: quiet_def fseek_set_def split: if_splits)

text \<open>What a turn that asks for the next one has changed, branch by branch.\<close>

lemma scan_data_effect:
  assumes "scan_data env s f1 = Next s'"
  shows "formatChunk s' = formatChunk s"
    and "formatChunkExtraBytes s' = formatChunkExtraBytes s"
    and "otherChunkLocations s' = otherChunkLocations s"
    and "dataChunkLocation s' =
           \<lparr>startOffset = int (fpos f1) - 4,
            chunk_size = 8 + unat (littleEndianBytesToUInt32
               (buffer_after (stale_bytes env) 4 (take 4 (drop (fpos f1) (contents f1)))))\<rparr>"
    and "quiet f1 \<Longrightarrow> quiet (inputFile s')"
proof -
  obtain got f2 where rd: "fread 4 f1 = (got, f2)" by (cases "fread 4 f1")
  from assms rd have ne: "\<not> ferror f2" by (auto simp: scan_data_def Let_def split: if_splits)
  note g = fread_got [OF rd ne]
  from assms rd ne have s': "s' = s\<lparr>inputFile := skip_chunk_data
        (littleEndianBytesToUInt32 (buffer_after (stale_bytes env) 4 got)) f2,
      dataChunkLocation := \<lparr>startOffset = ftell f1 - 4,
        chunk_size = 4 + 4 + unat (littleEndianBytesToUInt32
          (buffer_after (stale_bytes env) 4 got))\<rparr>\<rparr>"
    by (simp add: scan_data_def Let_def)
  show "formatChunk s' = formatChunk s" "formatChunkExtraBytes s' = formatChunkExtraBytes s"
    "otherChunkLocations s' = otherChunkLocations s" by (simp_all add: s')
  show "dataChunkLocation s' =
           \<lparr>startOffset = int (fpos f1) - 4,
            chunk_size = 8 + unat (littleEndianBytesToUInt32
               (buffer_after (stale_bytes env) 4 (take 4 (drop (fpos f1) (contents f1)))))\<rparr>"
    by (simp add: s' g(1) ftell_def)
  show "quiet (inputFile s')" if "quiet f1" using quiet_fread [OF that rd] by (simp add: s')
qed

lemma scan_cue_effect:
  assumes "scan_cue env s f1 = Next s'"
  shows "formatChunk s' = formatChunk s"
    and "formatChunkExtraBytes s' = formatChunkExtraBytes s"
    and "otherChunkLocations s' = otherChunkLocations s"
    and "dataChunkLocation s' = dataChunkLocation s"
    and "quiet f1 \<Longrightarrow> quiet (inputFile s')"
proof -
  obtain got f2 where rd: "fread 4 f1 = (got, f2)" by (cases "fread 4 f1")
  from assms rd have s': "s' = s\<lparr>inputFile := skip_chunk_data
        (littleEndianBytesToUInt32 (buffer_after (stale_bytes env) 4 got)) f2\<rparr>"
    by (auto simp: scan_cue_def Let_def split: if_splits)
  show "formatChunk s' = formatChunk s" "formatChunkExtraBytes s' = formatChunkExtraBytes s"
    "otherChunkLocations s' = otherChunkLocations s" "dataChunkLocation s' = dataChunkLocation s"
    by (simp_all add: s')
  show "quiet (inputFile s')" if "quiet f1" using quiet_fread [OF that rd] by (simp add: s')
qed

lemma scan_other_effect:
  assumes "scan_other s f1 = Next s'"
  shows "formatChunk s' = formatChunk s"
    and "formatChunkExtraBytes s' = formatChunkExtraBytes s"
    and "\<exists>n. otherChunkLocations s' =
           otherChunkLocations s @ [\<lparr>startOffset = int (fpos f1) - 4, chunk_size = n\<rparr>]"
    and "dataChunkLocation s' = dataChunkLocation s"
    and "quiet f1 \<Longrightarrow> quiet (inputFile s')"
proof -
  obtain got f2 where rd: "fread 4 f1 = (got, f2)" by (cases "fread 4 f1")
  from assms rd have s': "s' = s\<lparr>inputFile := skip_chunk_data
        (littleEndianBytesToUInt32 (buffer_after (\<lambda>i. CHR 0x00) 4 got)) f2,
      otherChunkLocations := otherChunkLocations s @
        [\<lparr>startOffset = ftell f1 - 4,
          chunk_size = 4 + 4 + unat (littleEndianBytesToUInt32
            (buffer_after (\<lambda>i. CHR 0x00) 4 got))\<rparr>]\<rparr>"
    by (auto simp: scan_other_def Let_def split: if_splits)
  show "formatChunk s' = formatChunk s" "formatChunkExtraBytes s' = formatChunkExtraBytes s"
    "dataChunkLocation s' = dataChunkLocation s"
    by (simp_all add: s')
  show "\<exists>n. otherChunkLocations s' =
           otherChunkLocations s @ [\<lparr>startOffset = int (fpos f1) - 4, chunk_size = n\<rparr>]"
    by (simp add: s' ftell_def)
  show "quiet (inputFile s')" if "quiet f1" using quiet_fread [OF that rd] by (simp add: s')
qed

lemma scan_fmt_effect:
  assumes "scan_fmt env s f1 = Next s'"
  shows "\<exists>bs. length bs = 24 \<and> formatChunk s' = Some (FormatChunk_of_bytes bs)"
    and "formatChunkExtraBytes s' = formatChunkExtraBytes s
         \<or> 0 \<le> startOffset (formatChunkExtraBytes s')"
    and "otherChunkLocations s' = otherChunkLocations s"
    and "dataChunkLocation s' = dataChunkLocation s"
    and "quiet f1 \<Longrightarrow> quiet (inputFile s')"
proof -
  let ?f2 = "fseek_cur_ignored (- 4) f1"
  obtain got f3 where rd: "fread 24 ?f2 = (got, f3)" by (cases "fread 24 ?f2")
  from assms rd have ne: "\<not> ferror f3" by (auto simp: scan_fmt_def Let_def split: if_splits)
  let ?bs = "buffer_after (stale_bytes env) 24 got"
  let ?n = "littleEndianBytesToUInt32 (chunkDataSize_f (FormatChunk_of_bytes ?bs)) - 16"
  have lb: "length ?bs = 24" using fread_got(2) [OF rd ne] by (rule length_buffer_after)
  from assms rd ne consider
    (extra) "s' = s\<lparr>inputFile := skip_chunk_data ?n f3,
        formatChunk := Some (FormatChunk_of_bytes ?bs),
        formatChunkExtraBytes := \<lparr>startOffset = ftell f3, chunk_size = unat ?n\<rparr>\<rparr>"
    | (plain) "s' = s\<lparr>inputFile := f3, formatChunk := Some (FormatChunk_of_bytes ?bs)\<rparr>"
    by (auto simp: scan_fmt_def Let_def split: if_splits)
  then have all: "(\<exists>bs. length bs = 24 \<and> formatChunk s' = Some (FormatChunk_of_bytes bs))
      \<and> (formatChunkExtraBytes s' = formatChunkExtraBytes s
         \<or> 0 \<le> startOffset (formatChunkExtraBytes s'))
      \<and> otherChunkLocations s' = otherChunkLocations s
      \<and> dataChunkLocation s' = dataChunkLocation s
      \<and> (quiet f1 \<longrightarrow> quiet (inputFile s'))"
  proof cases
    case extra
    then show ?thesis using lb quiet_fread [OF _ rd] by (auto simp: ftell_def)
  next
    case plain
    then show ?thesis using lb quiet_fread [OF _ rd] by auto
  qed
  then show "\<exists>bs. length bs = 24 \<and> formatChunk s' = Some (FormatChunk_of_bytes bs)"
    and "formatChunkExtraBytes s' = formatChunkExtraBytes s
         \<or> 0 \<le> startOffset (formatChunkExtraBytes s')"
    and "otherChunkLocations s' = otherChunkLocations s"
    and "dataChunkLocation s' = dataChunkLocation s"
    and "quiet f1 \<Longrightarrow> quiet (inputFile s')"
    by blast+
qed


lemma scan_list_effect:
  assumes "scan_list env s f1 = Next s'"
  shows "formatChunk s' = formatChunk s"
    and "formatChunkExtraBytes s' = formatChunkExtraBytes s"
    and "otherChunkLocations s' = otherChunkLocations s
         \<or> (\<exists>n. otherChunkLocations s' =
               otherChunkLocations s @ [\<lparr>startOffset = int (fpos f1) - 4, chunk_size = n\<rparr>])"
    and "dataChunkLocation s' = dataChunkLocation s"
    and "quiet f1 \<Longrightarrow> quiet (inputFile s')"
proof -
  obtain got f2 where rd: "fread 4 f1 = (got, f2)" by (cases "fread 4 f1")
  obtain got' f3 where rd': "fread 4 f2 = (got', f3)" by (cases "fread 4 f2")
  from assms rd rd' have ne: "\<not> ferror f2" "\<not> ferror f3" "\<not> feof f3"
    by (auto simp: scan_list_def Let_def split: if_splits)
  have ne2: "\<not> feof f2" using rd' ne by (auto simp: fread_def Let_def split: if_splits)
  have p: "fpos f3 = fpos f1 + 8"
    using fread_cases(2,3) [OF rd ne(1)] fread_cases(2,3) [OF rd' ne(2)] ne ne2 by simp
  let ?rewound = "fseek_cur_ignored (- 8) f3"
  have pb: "fpos ?rewound = fpos f1" using p by (simp add: fseek_cur_ignored_fpos)
  have q: "quiet f3" if "quiet f1" using quiet_fread [OF _ rd'] quiet_fread [OF that rd] by simp
  from assms rd rd' ne consider
    (adtl) f5 where "s' = s\<lparr>inputFile := f5\<rparr>" "quiet f5 = quiet f3"
    | (other) "scan_other s ?rewound = Next s'"
    by (auto simp: scan_list_def Let_def split: if_splits)
  then have all: "formatChunk s' = formatChunk s
    \<and> formatChunkExtraBytes s' = formatChunkExtraBytes s
    \<and> (otherChunkLocations s' = otherChunkLocations s
         \<or> (\<exists>n. otherChunkLocations s' =
               otherChunkLocations s @ [\<lparr>startOffset = int (fpos f1) - 4, chunk_size = n\<rparr>]))
    \<and> dataChunkLocation s' = dataChunkLocation s
    \<and> (quiet f1 \<longrightarrow> quiet (inputFile s'))"
  proof cases
    case adtl
    then show ?thesis using q by auto
  next
    case other
    show ?thesis using scan_other_effect [OF other] q pb by auto
  qed
  then show "formatChunk s' = formatChunk s"
    and "formatChunkExtraBytes s' = formatChunkExtraBytes s"
    and "otherChunkLocations s' = otherChunkLocations s
         \<or> (\<exists>n. otherChunkLocations s' =
               otherChunkLocations s @ [\<lparr>startOffset = int (fpos f1) - 4, chunk_size = n\<rparr>])"
    and "dataChunkLocation s' = dataChunkLocation s"
    and "quiet f1 \<Longrightarrow> quiet (inputFile s')"
    by blast+
qed

lemma scan_chunk_effect:
  assumes "scan_chunk env s = Next s'"
  shows "formatChunk s' = formatChunk s
         \<or> (\<exists>bs. length bs = 24 \<and> formatChunk s' = Some (FormatChunk_of_bytes bs))"
    and "formatChunkExtraBytes s' = formatChunkExtraBytes s
         \<or> 0 \<le> startOffset (formatChunkExtraBytes s')"
    and "otherChunkLocations s' = otherChunkLocations s
         \<or> (\<exists>n. otherChunkLocations s' = otherChunkLocations s @
               [\<lparr>startOffset = int (fpos (inputFile s)), chunk_size = n\<rparr>])"
    and "dataChunkLocation s' = dataChunkLocation s
         \<or> (take 4 (drop (fpos (inputFile s)) (contents (inputFile s))) = ''data''
            \<and> dataChunkLocation s' =
                \<lparr>startOffset = int (fpos (inputFile s)),
                 chunk_size = 8 + unat (littleEndianBytesToUInt32
                   (buffer_after (stale_bytes env) 4
                      (take 4 (drop (fpos (inputFile s) + 4) (contents (inputFile s))))))\<rparr>)"
    and "quiet (inputFile s) \<Longrightarrow> quiet (inputFile s')"
proof -
  let ?f = "inputFile s"
  obtain got f1 where rd: "fread 4 ?f = (got, f1)" by (cases "fread 4 ?f")
  from assms rd have ne: "\<not> ferror f1" "\<not> feof f1"
    by (auto simp: scan_chunk_def Let_def split: if_splits)
  note g = fread_got [OF rd ne(1)]
  have lg: "length got = 4" using fread_cases(3) [OF rd ne] .
  have p: "fpos f1 = fpos ?f + 4" using g(3) lg by simp
  have id: "buffer_after (stale_bytes env) 4 got = take 4 (drop (fpos ?f) (contents ?f))"
    using lg g(1) by (simp add: buffer_after_full)
  have q: "quiet f1" if "quiet ?f" using quiet_fread [OF that rd] by simp
  from assms rd ne consider
      (fmt) "scan_fmt env s f1 = Next s'"
    | (data) "scan_data env s f1 = Next s'"
        "buffer_after (stale_bytes env) 4 got = ''data''"
    | (cue) "scan_cue env s f1 = Next s'"
    | (list) "scan_list env s f1 = Next s'"
    | (other) "scan_other s f1 = Next s'"
    by (auto simp: scan_chunk_def Let_def split: if_splits)
  then have all: "(formatChunk s' = formatChunk s
         \<or> (\<exists>bs. length bs = 24 \<and> formatChunk s' = Some (FormatChunk_of_bytes bs)))
    \<and> (formatChunkExtraBytes s' = formatChunkExtraBytes s
         \<or> 0 \<le> startOffset (formatChunkExtraBytes s'))
    \<and> (otherChunkLocations s' = otherChunkLocations s
         \<or> (\<exists>n. otherChunkLocations s' = otherChunkLocations s @
               [\<lparr>startOffset = int (fpos (inputFile s)), chunk_size = n\<rparr>]))
    \<and> (dataChunkLocation s' = dataChunkLocation s
         \<or> (take 4 (drop (fpos (inputFile s)) (contents (inputFile s))) = ''data''
            \<and> dataChunkLocation s' =
                \<lparr>startOffset = int (fpos (inputFile s)),
                 chunk_size = 8 + unat (littleEndianBytesToUInt32
                   (buffer_after (stale_bytes env) 4
                      (take 4 (drop (fpos (inputFile s) + 4) (contents (inputFile s))))))\<rparr>))
    \<and> (quiet (inputFile s) \<longrightarrow> quiet (inputFile s'))"
  proof cases
    case fmt
    show ?thesis using scan_fmt_effect [OF fmt] q by auto
  next
    case data
    show ?thesis using scan_data_effect [OF data(1)] data(2) id q p g(4) by auto
  next
    case cue
    show ?thesis using scan_cue_effect [OF cue] q by auto
  next
    case list
    show ?thesis using scan_list_effect [OF list] q p by auto
  next
    case other
    show ?thesis using scan_other_effect [OF other] q p by auto
  qed
  then show "formatChunk s' = formatChunk s
         \<or> (\<exists>bs. length bs = 24 \<and> formatChunk s' = Some (FormatChunk_of_bytes bs))"
    and "formatChunkExtraBytes s' = formatChunkExtraBytes s
         \<or> 0 \<le> startOffset (formatChunkExtraBytes s')"
    and "otherChunkLocations s' = otherChunkLocations s
         \<or> (\<exists>n. otherChunkLocations s' = otherChunkLocations s @
               [\<lparr>startOffset = int (fpos (inputFile s)), chunk_size = n\<rparr>])"
    and "dataChunkLocation s' = dataChunkLocation s
         \<or> (take 4 (drop (fpos (inputFile s)) (contents (inputFile s))) = ''data''
            \<and> dataChunkLocation s' =
                \<lparr>startOffset = int (fpos (inputFile s)),
                 chunk_size = 8 + unat (littleEndianBytesToUInt32
                   (buffer_after (stale_bytes env) 4
                      (take 4 (drop (fpos (inputFile s) + 4) (contents (inputFile s))))))\<rparr>)"
    and "quiet (inputFile s) \<Longrightarrow> quiet (inputFile s')"
    by blast+
qed

lemma scan_chunk_Done:
  assumes "scan_chunk env s = Done s'"
  shows "\<exists>f'. s' = s\<lparr>inputFile := f'\<rparr> \<and> contents f' = contents (inputFile s)
           \<and> (quiet (inputFile s) \<longrightarrow> quiet f')"
proof -
  let ?f = "inputFile s"
  obtain got f1 where rd: "fread 4 ?f = (got, f1)" by (cases "fread 4 ?f")
  have c1: "contents f1 = contents ?f" using fread_cases(1) [OF rd] .
  have q1: "quiet f1" if "quiet ?f" using quiet_fread [OF that rd] by simp
  show ?thesis
  proof (cases "feof f1")
    case True
    with assms rd have "s' = s\<lparr>inputFile := f1\<rparr>" by (simp add: scan_chunk_def Let_def)
    then show ?thesis using c1 q1 by auto
  next
    case False
    with assms rd have l: "scan_list env s f1 = Done s'"
      by (auto simp: scan_chunk_def scan_fmt_def scan_data_def scan_cue_def scan_other_def
          Let_def split: if_splits prod.splits)
    obtain got2 f2 where rd2: "fread 4 f1 = (got2, f2)" by (cases "fread 4 f1")
    obtain got3 f3 where rd3: "fread 4 f2 = (got3, f3)" by (cases "fread 4 f2")
    from l rd2 rd3 have "s' = s\<lparr>inputFile := f3\<rparr>"
      by (auto simp: scan_list_def scan_other_def Let_def split: if_splits prod.splits)
    moreover have "contents f3 = contents ?f"
      using fread_cases(1) [OF rd2] fread_cases(1) [OF rd3] c1 by simp
    moreover have "quiet f3" if "quiet ?f"
      using quiet_fread [OF _ rd3] quiet_fread [OF q1 [OF that] rd2] by simp
    ultimately show ?thesis by auto
  qed
qed

section \<open>A conversion no device fails\<close>

text \<open>
  With an output device that accepts every write and a quiet input stream no step of the
  writer fails, whatever the sizes of the recorded chunks, as long as the offsets are
  not negative and the list body is not empty.
\<close>

lemma bind_err_left: "bind_err (Inr x) k = k x"
  by (simp add: bind_err_def)

lemma fwrite_open:
  "wr_budget out = None \<Longrightarrow> \<exists>o1. fwrite bs out = Some o1 \<and> wr_budget o1 = None"
  by (simp add: fwrite_def)

lemma write_or_open:
  "wr_budget out = None \<Longrightarrow> \<exists>o1. write_or d bs out = Inr o1 \<and> wr_budget o1 = None"
  using fwrite_open [of out bs] by (auto simp: write_or_def)

lemma pad_if_odd_open:
  "wr_budget out = None \<Longrightarrow> \<exists>o1. pad_if_odd n out = Inr o1 \<and> wr_budget o1 = None"
  using write_or_open [of out WritePaddingError "[CHR 0x00]"] by (auto simp: pad_if_odd_def)

lemma write_each_open:
  "wr_budget out = None \<Longrightarrow> \<exists>o1. write_each d bs out = Inr o1 \<and> wr_budget o1 = None"
proof (induction bs arbitrary: out)
  case Nil
  then show ?case by simp
next
  case (Cons b bs)
  from write_or_open [OF Cons.prems, of d b] obtain o1 where
    o1: "write_or d b out = Inr o1" "wr_budget o1 = None" by blast
  from Cons.IH [OF o1(2)] show ?case using o1(1) by (simp add: bind_err_def)
qed

lemma copy_blocks_quiet:
  "quiet f \<Longrightarrow> wr_budget out = None \<Longrightarrow>
     \<exists>r f1 o1. copy_blocks stale orig n f out = Inr (r, f1, o1)
                \<and> quiet f1 \<and> wr_budget o1 = None"
proof (induction stale orig n f out rule: copy_blocks.induct)
  case (1 stale orig n f out)
  show ?case
  proof (cases "n \<ge> 1024")
    case False
    then show ?thesis using "1.prems" by (simp add: copy_blocks.simps)
  next
    case True
    obtain got f1 where rd: "fread 1024 f = (got, f1)" by (cases "fread 1024 f")
    from quiet_fread [OF "1.prems"(1) rd] have q: "quiet f1" "\<not> ferror f1" by simp_all
    from fwrite_open [OF "1.prems"(2), of "buffer_after stale 1024 got"] obtain o1 where
      w: "fwrite (buffer_after stale 1024 got) out = Some o1" "wr_budget o1 = None" by blast
    from "1.IH" [OF True rd [symmetric] q(2) w(1) q(1) w(2)]
    show ?thesis using True rd q w by (subst copy_blocks.simps) simp
  qed
qed

lemma copier_quiet:
  assumes "quiet f" and "wr_budget out = None" and "0 \<le> startOffset c"
  shows "\<exists>f1 o1. writeChunkLocationFromInputFileToOutputFile stale c f out = (0, f1, o1)
                  \<and> quiet f1 \<and> wr_budget o1 = None"
proof -
  let ?f0 = "f\<lparr>fpos := nat (startOffset c), feof := False\<rparr>"
  have sk: "fseek_set (startOffset c) f = Some ?f0" using assms(3) by (simp add: fseek_set_def)
  have q0: "quiet ?f0" using assms(1) by (simp add: quiet_def)
  from copy_blocks_quiet [OF q0 assms(2), of stale "ftell f" "chunk_size c"]
  obtain r f1 o1 where
    cb: "copy_blocks stale (ftell f) (chunk_size c) ?f0 out = Inr (r, f1, o1)"
    and q1: "quiet f1" "wr_budget o1 = None" by blast
  show ?thesis
  proof (cases "r > 0")
    case False
    then show ?thesis using sk cb q1
      by (simp add: writeChunkLocationFromInputFileToOutputFile_def Let_def)
  next
    case True
    obtain got f2 where rd: "fread r f1 = (got, f2)" by (cases "fread r f1")
    from quiet_fread [OF q1(1) rd] have q2: "quiet f2" "\<not> ferror f2" by simp_all
    from fwrite_open [OF q1(2), of "buffer_after stale r got"] obtain o2 where
      w: "fwrite (buffer_after stale r got) o1 = Some o2" "wr_budget o2 = None" by blast
    show ?thesis using True sk cb rd q2 w
      by (simp add: writeChunkLocationFromInputFileToOutputFile_def Let_def)
  qed
qed

lemma copy_chunk_quiet:
  assumes "quiet f" and "wr_budget out = None" and "0 \<le> startOffset c"
  shows "\<exists>f1 o1. copy_chunk stale c f out = Inr (f1, o1) \<and> quiet f1 \<and> wr_budget o1 = None"
  using copier_quiet [OF assms, of stale] by (auto simp: copy_chunk_def)

lemma write_other_chunks_quiet:
  "quiet f \<Longrightarrow> wr_budget out = None \<Longrightarrow> list_all (\<lambda>c. 0 \<le> startOffset c) cs \<Longrightarrow>
     \<exists>f1 o1. write_other_chunks stale cs f out = Inr (f1, o1)"
proof (induction cs arbitrary: f out)
  case Nil
  then show ?case by simp
next
  case (Cons c cs)
  from Cons.prems(3) have c: "0 \<le> startOffset c" and cs: "list_all (\<lambda>c. 0 \<le> startOffset c) cs"
    by simp_all
  from copy_chunk_quiet [OF Cons.prems(1,2) c, of stale] obtain f1 o1 where
    cc: "copy_chunk stale c f out = Inr (f1, o1)" and q1: "quiet f1" "wr_budget o1 = None"
    by blast
  from pad_if_odd_open [OF q1(2), of "chunk_size c"] obtain o2 where
    p: "pad_if_odd (chunk_size c) o1 = Inr o2" "wr_budget o2 = None" by blast
  from Cons.IH [OF q1(1) p(2) cs] show ?case using cc p(1) by (simp add: bind_err_def)
qed

lemma writeOutputFile_quiet:
  assumes q: "quiet f" and w: "wr_budget out = None"
    and e: "0 \<le> startOffset extra" and d: "0 \<le> startOffset dat"
    and os: "list_all (\<lambda>c. 0 \<le> startOffset c) others"
    and l: "lsize \<noteq> 0"
  shows "\<exists>f' o'. writeOutputFile stale f out extra dat others labelInfo hdr fc cue lst lsize
                    = Inr (f', o')"
proof -
  let ?hdr = "hdr\<lparr>dataSize := uint32ToLittleEndianBytes
                 (new_fileDataSize extra dat others labelInfo lsize)\<rparr>"
  from write_or_open [OF w] obtain o1 where
    s1: "write_or WriteHeaderError (WaveHeader_bytes ?hdr) out = Inr o1" and w1: "wr_budget o1 = None"
    by blast
  from write_or_open [OF w1] obtain o2 where
    s2: "write_or WriteFormatError (FormatChunk_bytes fc) o1 = Inr o2" and w2: "wr_budget o2 = None"
    by blast
  have "\<exists>f3 o3. (if chunk_size extra > 0 then
           bind_err (copy_chunk stale extra f o2) (\<lambda>(f, oa).
           bind_err (pad_if_odd (chunk_size extra) oa) (\<lambda>ob. Inr (f, ob)))
         else Inr (f, o2)) = Inr (f3, o3) \<and> quiet f3 \<and> wr_budget o3 = None"
  proof (cases "chunk_size extra > 0")
    case False
    then show ?thesis using q w2 by simp
  next
    case True
    from copy_chunk_quiet [OF q w2 e, of stale] obtain fa oa where
      a: "copy_chunk stale extra f o2 = Inr (fa, oa)" "quiet fa" "wr_budget oa = None" by blast
    from pad_if_odd_open [OF a(3), of "chunk_size extra"] obtain ob where
      b: "pad_if_odd (chunk_size extra) oa = Inr ob" "wr_budget ob = None" by blast
    show ?thesis using True a b by (simp add: bind_err_def)
  qed
  then obtain f3 o3 where
    s3: "(if chunk_size extra > 0 then
           bind_err (copy_chunk stale extra f o2) (\<lambda>(f, oa).
           bind_err (pad_if_odd (chunk_size extra) oa) (\<lambda>ob. Inr (f, ob)))
         else Inr (f, o2)) = Inr (f3, o3)" and q3: "quiet f3" and w3: "wr_budget o3 = None"
    by blast
  from copy_chunk_quiet [OF q3 w3 d, of stale] obtain f4 o4 where
    s4: "copy_chunk stale dat f3 o3 = Inr (f4, o4)" and q4: "quiet f4" and w4: "wr_budget o4 = None"
    by blast
  from pad_if_odd_open [OF w4, of "chunk_size dat"] obtain o5 where
    s5: "pad_if_odd (chunk_size dat) o4 = Inr o5" and w5: "wr_budget o5 = None" by blast
  from write_or_open [OF w5] obtain o6 where
    s6: "write_or WriteCueHeaderError
           (chunkID_c cue @ chunkDataSize_c cue @ cuePointsCount cue) o5 = Inr o6"
    and w6: "wr_budget o6 = None" by blast
  from write_each_open [OF w6] obtain o7 where
    s7: "write_each WriteCuePointError
           (map (\<lambda>i. CuePoint_bytes (cuePoints cue ! i))
              [0..<unat (littleEndianBytesToUInt32 (cuePointsCount cue))]) o6 = Inr o7"
    and w7: "wr_budget o7 = None" by blast
  from write_or_open [OF w7] obtain o8 where
    s8: "write_or WriteAdtlHeaderError (chunkID_l lst @ chunkDataSize_l lst @ typeID lst) o7
           = Inr o8"
    and w8: "wr_budget o8 = None" by blast
  from write_or_open [OF w8] obtain o9 where
    s9: "write_or WriteLabelsError (take lsize (labelChunks lst)) o8 = Inr o9"
    and w9: "wr_budget o9 = None" by blast
  from pad_if_odd_open [OF w9, of lsize] obtain o10 where
    s10: "pad_if_odd lsize o9 = Inr o10" and w10: "wr_budget o10 = None" by blast
  from write_other_chunks_quiet [OF q4 w10 os, of stale] obtain f' o' where
    s11: "write_other_chunks stale others f4 o10 = Inr (f', o')" by blast
  have "writeOutputFile stale f out extra dat others labelInfo hdr fc cue lst lsize = Inr (f', o')"
    unfolding writeOutputFile_def Let_def
    by (simp only: s1 s2 s3 s4 s5 s6 s7 s8 s9 s10 s11 l bind_err_left prod.case if_False)
  then show ?thesis by blast
qed

lemma listChunkSize_positive:
  assumes "1 \<le> unat (count labelInfo)"
  shows "listChunkSize_of labelInfo \<noteq> 0"
proof -
  from assms obtain n where n: "unat (count labelInfo) = Suc n"
    by (cases "unat (count labelInfo)") simp_all
  have "[0..<Suc n] = 0 # [1..<Suc n]" by (simp add: upt_rec)
  then have "listChunkSize_of labelInfo
      = length (label_chunk_at labelInfo 0)
        + length (concat (map (label_chunk_at labelInfo) [1..<Suc n]))"
    unfolding listChunkSize_of_def listChunkSize_fold_length n by simp
  then show ?thesis using label_chunk_at_ge_12 [of labelInfo 0] by linarith
qed

lemma write_labelled_quiet:
  assumes "1 \<le> unat (count labelInfo)"
    and "malloc_cue_ok env" "malloc_list_ok env" "output_opens env"
    and "output_wr_budget env = None"
    and "quiet (inputFile st)"
    and "0 \<le> startOffset (formatChunkExtraBytes st)"
    and "0 \<le> startOffset (dataChunkLocation st)"
    and "list_all (\<lambda>c. 0 \<le> startOffset c) (otherChunkLocations st)"
  shows "\<exists>bytes. write_labelled env hdr fc st labelInfo = Inr bytes"
proof -
  have w: "wr_budget (fopen_out (output_wr_budget env)) = None"
    using assms(5) by (simp add: fopen_out_def)
  from writeOutputFile_quiet [OF assms(6) w assms(7,8,9) listChunkSize_positive [OF assms(1)]]
  obtain f' o' where
    "writeOutputFile (stale_bytes env) (inputFile st) (fopen_out (output_wr_budget env))
       (formatChunkExtraBytes st) (dataChunkLocation st) (otherChunkLocations st)
       labelInfo hdr fc (make_cueChunk labelInfo) (make_listChunk labelInfo)
       (listChunkSize_of labelInfo) = Inr (f', o')"
    by blast
  then show ?thesis using assms(1-4) by (simp add: write_labelled_def bind_err_def)
qed

text \<open>
  What holds of the scan state at every turn, for an input file with the bytes \<open>c\<close>: the
  stream still reads that file, a format chunk found has its 24 bytes, no recorded
  offset is negative, and a data chunk found was recorded at an identifier \<open>data\<close>, with
  the size computed from the four bytes read after it.
\<close>

definition scanned_from :: "byte list \<Rightarrow> environment \<Rightarrow> scan_state \<Rightarrow> bool" where
  "scanned_from c env s \<longleftrightarrow>
     contents (inputFile s) = c
     \<and> (case formatChunk s of None \<Rightarrow> True | Some fc \<Rightarrow> length (FormatChunk_bytes fc) = 24)
     \<and> 0 \<le> startOffset (formatChunkExtraBytes s)
     \<and> list_all (\<lambda>l. 0 \<le> startOffset l) (otherChunkLocations s)
     \<and> 0 \<le> startOffset (dataChunkLocation s)
     \<and> (chunk_size (dataChunkLocation s) = 0
        \<or> take 4 (drop (nat (startOffset (dataChunkLocation s))) c) = ''data''
          \<and> chunk_size (dataChunkLocation s) =
              8 + unat (littleEndianBytesToUInt32 (buffer_after (stale_bytes env) 4
                    (take 4 (drop (nat (startOffset (dataChunkLocation s)) + 4) c)))))"

lemma scanned_from_step:
  assumes inv: "scanned_from c env s" and step: "scan_chunk env s = Next s'"
  shows "scanned_from c env s'"
proof -
  note e = scan_chunk_effect [OF step]
  have c: "contents (inputFile s) = c" using inv by (simp add: scanned_from_def)
  have 1: "contents (inputFile s') = c" using scan_chunk_next(1) [OF step] c by simp
  have 2: "case formatChunk s' of None \<Rightarrow> True | Some fc \<Rightarrow> length (FormatChunk_bytes fc) = 24"
    using e(1) inv by (auto simp: scanned_from_def FormatChunk_bytes_of_bytes)
  have 3: "0 \<le> startOffset (formatChunkExtraBytes s')"
    using e(2) inv by (auto simp: scanned_from_def)
  have 4: "list_all (\<lambda>l. 0 \<le> startOffset l) (otherChunkLocations s')"
    using e(3) inv by (auto simp: scanned_from_def)
  have 5: "0 \<le> startOffset (dataChunkLocation s')"
    using e(4) inv by (auto simp: scanned_from_def)
  have 6: "chunk_size (dataChunkLocation s') = 0
        \<or> take 4 (drop (nat (startOffset (dataChunkLocation s'))) c) = ''data''
          \<and> chunk_size (dataChunkLocation s') =
              8 + unat (littleEndianBytesToUInt32 (buffer_after (stale_bytes env) 4
                    (take 4 (drop (nat (startOffset (dataChunkLocation s')) + 4) c))))"
    using e(4) inv c by (auto simp: scanned_from_def)
  show ?thesis unfolding scanned_from_def using 1 2 3 4 5 6 by blast
qed

lemma scanned_from_done:
  assumes inv: "scanned_from c env s" and step: "scan_chunk env s = Done s'"
  shows "scanned_from c env s'"
proof -
  from scan_chunk_Done [OF step] obtain f' where
    "s' = s\<lparr>inputFile := f'\<rparr>" "contents f' = contents (inputFile s)" by blast
  then show ?thesis using inv by (simp add: scanned_from_def)
qed

lemma scan_chunks_scanned_from:
  assumes "scan_chunks env s = Inr s'" and "scanned_from c env s"
  shows "scanned_from c env s'"
  using scan_chunks_invariant [where P = "scanned_from c" and Q = "scanned_from c", OF assms]
    scanned_from_step scanned_from_done by blast

lemma scan_chunks_quiet:
  assumes "scan_chunks env s = Inr s'" and "quiet (inputFile s)"
  shows "quiet (inputFile s')"
proof -
  have step: "\<And>e s s'. quiet (inputFile s) \<Longrightarrow> scan_chunk e s = Next s' \<Longrightarrow> quiet (inputFile s')"
    using scan_chunk_effect(5) by blast
  have fin: "\<And>e s s'. quiet (inputFile s) \<Longrightarrow> scan_chunk e s = Done s' \<Longrightarrow> quiet (inputFile s')"
    using scan_chunk_Done by fastforce
  show ?thesis
    using scan_chunks_invariant [where P = "\<lambda>e s. quiet (inputFile s)"
        and Q = "\<lambda>e s. quiet (inputFile s)", OF assms] step fin by blast
qed

text \<open>What an accepted input file has given the rest of the conversion.\<close>

lemma read_input_accepted:
  assumes "read_input env f = Inr (hdr, fc, st)"
  shows "chunkID_h hdr = ''RIFF''" and "riffType hdr = ''WAVE''"
    and "formatChunk st = Some fc"
    and "chunk_size (dataChunkLocation st) \<noteq> 0"
    and "scanned_from (contents f) env st"
    and "quiet f \<Longrightarrow> quiet (inputFile st)"
proof -
  obtain got f1 where rd: "fread 12 f = (got, f1)" by (cases "fread 12 f")
  let ?s0 = "\<lparr>inputFile = f1, formatChunk = None,
              formatChunkExtraBytes = \<lparr>startOffset = 0, chunk_size = 0\<rparr>,
              dataChunkLocation = \<lparr>startOffset = 0, chunk_size = 0\<rparr>,
              otherChunkLocations = []\<rparr>"
  from assms rd have
    h: "hdr = WaveHeader_of_bytes (buffer_after (stale_bytes env) 12 got)"
    and id: "chunkID_h hdr = ''RIFF''" "riffType hdr = ''WAVE''"
    and sc: "scan_chunks env ?s0 = Inr st"
    and fc: "formatChunk st = Some fc"
    and ds: "chunk_size (dataChunkLocation st) \<noteq> 0"
    by (auto simp: read_input_def Let_def split: if_splits sum.splits option.splits)
  have c1: "contents f1 = contents f" using fread_cases(1) [OF rd] .
  have "scanned_from (contents f) env ?s0" using c1 by (simp add: scanned_from_def)
  from scan_chunks_scanned_from [OF sc this]
  show "scanned_from (contents f) env st" .
  show "quiet (inputFile st)" if "quiet f"
    using scan_chunks_quiet [OF sc] quiet_fread [OF that rd] by simp
  show "chunkID_h hdr = ''RIFF''" "riffType hdr = ''WAVE''" "formatChunk st = Some fc"
    "chunk_size (dataChunkLocation st) \<noteq> 0"
    using id fc ds by simp_all
qed

section \<open>The stages of a conversion\<close>

lemma run_from_stages:
  assumes "input_opens env" and "label_opens env"
    and "read_input env (fopen_in input (input_rd_budget env)) = Inr (hdr, fc, st)"
    and "readLabelFile (fopen_in labelText None) fc = Inr labelInfo"
  shows "addLabelsToWaveFile env input labelText = write_labelled env hdr fc st labelInfo"
  using assms by (simp add: addLabelsToWaveFile_def bind_err_def)

lemma run_stages:
  assumes "addLabelsToWaveFile env input labelText = Inr out"
  shows "\<exists>hdr fc st labelInfo.
           read_input env (fopen_in input (input_rd_budget env)) = Inr (hdr, fc, st)
         \<and> readLabelFile (fopen_in labelText None) fc = Inr labelInfo
         \<and> write_labelled env hdr fc st labelInfo = Inr out"
  using assms by (auto simp: addLabelsToWaveFile_def bind_err_Inr split: if_splits)

section \<open>The end of the stream during the scan\<close>

text \<open>
  Two files that end inside a chunk: \<open>short_wave\<close> is \<open>small_wave\<close> cut after the second
  byte of the length field of its data chunk, \<open>list_cut_wave\<close> is \<open>small_wave\<close> followed
  by a \<open>LIST\<close> chunk that ends after the second byte of its type field.
\<close>

definition short_wave :: "byte list" where
  "short_wave = ''RIFF'' @ [CHR 0x26, CHR 0x00, CHR 0x00, CHR 0x00] @ ''WAVE'' @ fmt_bytes
     @ ''data'' @ [CHR 0x02, CHR 0x00]"

definition list_cut_wave :: "byte list" where
  "list_cut_wave = small_wave @ ''LIST'' @ [CHR 0x04, CHR 0x00, CHR 0x00, CHR 0x00] @ ''ad''"

definition short_scan :: scan_state where
  "short_scan =
     \<lparr>inputFile = (fopen_in short_wave None)\<lparr>fpos := 44, feof := True\<rparr>,
      formatChunk = Some fmt44100,
      formatChunkExtraBytes = \<lparr>startOffset = 0, chunk_size = 0\<rparr>,
      dataChunkLocation = \<lparr>startOffset = 36, chunk_size = 10\<rparr>,
      otherChunkLocations = []\<rparr>"

definition list_cut_scan :: scan_state where
  "list_cut_scan =
     \<lparr>inputFile = (fopen_in list_cut_wave None)\<lparr>fpos := 56, feof := True\<rparr>,
      formatChunk = Some fmt44100,
      formatChunkExtraBytes = \<lparr>startOffset = 0, chunk_size = 0\<rparr>,
      dataChunkLocation = \<lparr>startOffset = 36, chunk_size = 10\<rparr>,
      otherChunkLocations = []\<rparr>"

definition short_wave_labelled :: "byte list" where
  "short_wave_labelled =
     ''RIFF'' @ uint32ToLittleEndianBytes 102 @ ''WAVE'' @ fmt_bytes
     @ ''data'' @ [CHR 0x02, CHR 0x00, CHR 0x00, CHR 0x00] @ [CHR 0x00, CHR 0x00]
     @ ''cue '' @ uint32ToLittleEndianBytes 28 @ uint32ToLittleEndianBytes 1
     @ uint32ToLittleEndianBytes 1 @ uint32ToLittleEndianBytes 22050
     @ ''data'' @ uint32ToLittleEndianBytes 0 @ uint32ToLittleEndianBytes 0
     @ uint32ToLittleEndianBytes 22050
     @ ''LIST'' @ uint32ToLittleEndianBytes 20 @ ''adtl''
     @ ''labl'' @ uint32ToLittleEndianBytes 8 @ uint32ToLittleEndianBytes 1
     @ ''mid'' @ [CHR 0x00]"

lemma short_wave_read:
  "read_input quiet_env (fopen_in short_wave None)
     = Inr (WaveHeader_of_bytes (take 12 short_wave), fmt44100, short_scan)"
  by (simp add: quiet_env_def short_wave_def fmt_bytes_def short_scan_def fmt44100_def
      scan_eval_rules)

lemma list_cut_wave_read:
  "read_input quiet_env (fopen_in list_cut_wave None)
     = Inr (WaveHeader_of_bytes (take 12 small_wave), fmt44100, list_cut_scan)"
  by (simp add: quiet_env_def list_cut_wave_def small_wave_def fmt_bytes_def list_cut_scan_def
      fmt44100_def scan_eval_rules)

lemma short_wave_write:
  "write_labelled quiet_env (WaveHeader_of_bytes (take 12 short_wave)) fmt44100 short_scan mid_label
     = Inr short_wave_labelled"
  by (simp add: quiet_env_def short_wave_def fmt_bytes_def short_scan_def fmt44100_def
      mid_label_def short_wave_labelled_def WaveHeader_of_bytes_def FormatChunk_of_bytes_def
      write_eval_rules upt_rec)

lemma list_cut_wave_write:
  "write_labelled quiet_env (WaveHeader_of_bytes (take 12 small_wave)) fmt44100 list_cut_scan mid_label
     = Inr small_wave_labelled"
  by (simp add: quiet_env_def list_cut_wave_def small_wave_def fmt_bytes_def list_cut_scan_def
      fmt44100_def
      mid_label_def small_wave_labelled_def WaveHeader_of_bytes_def FormatChunk_of_bytes_def
      write_eval_rules upt_rec)

lemma quiet_env_opens:
  "input_opens quiet_env" "label_opens quiet_env" "input_rd_budget quiet_env = None"
  "output_opens quiet_env" "malloc_cue_ok quiet_env" "malloc_list_ok quiet_env"
  "output_wr_budget quiet_env = None" "malloc_format_ok quiet_env" "malloc_header_ok quiet_env"
  by (simp_all add: quiet_env_def)

lemma one_label_mid: "readLabelFile (fopen_in one_label None) fmt44100 = Inr mid_label"
  unfolding mid_label_def by (rule one_label_read)

lemma short_wave_run: "addLabelsToWaveFile quiet_env short_wave one_label = Inr short_wave_labelled"
  using run_from_stages [OF quiet_env_opens(1,2), of short_wave _ fmt44100 short_scan one_label mid_label]
    short_wave_read one_label_mid short_wave_write
  by (simp add: quiet_env_opens)

lemma list_cut_wave_run:
  "addLabelsToWaveFile quiet_env list_cut_wave one_label = Inr small_wave_labelled"
  using run_from_stages [OF quiet_env_opens(1,2), of list_cut_wave _ fmt44100 list_cut_scan one_label mid_label]
    list_cut_wave_read one_label_mid list_cut_wave_write
  by (simp add: quiet_env_opens)

lemma scan_chunk_quiet_failure:
  assumes q: "quiet (inputFile s)" and f: "scan_chunk env s = Failed d"
  shows "d = AllocFormat \<or> d = CompressedNotSupported \<or> d = TooManyChunks"
proof -
  obtain got f1 where rd: "fread 4 (inputFile s) = (got, f1)" by (cases "fread 4 (inputFile s)")
  from quiet_fread [OF q rd] have q1: "quiet f1" "\<not> ferror f1" by simp_all
  have oth: "d = TooManyChunks" if "scan_other s g = Failed d" and "quiet g" for g
  proof -
    obtain got' g' where rd': "fread 4 g = (got', g')" by (cases "fread 4 g")
    from quiet_fread [OF that(2) rd'] have "\<not> ferror g'" by simp
    with that(1) rd' show ?thesis by (auto simp: scan_other_def Let_def split: if_splits)
  qed
  from f rd q1 consider
      (fmt) "scan_fmt env s f1 = Failed d"
    | (data) "scan_data env s f1 = Failed d"
    | (cue) "scan_cue env s f1 = Failed d"
    | (list) "scan_list env s f1 = Failed d"
    | (other) "scan_other s f1 = Failed d"
    by (auto simp: scan_chunk_def Let_def split: if_splits)
  then show ?thesis
  proof cases
    case fmt
    obtain got' g' where rd': "fread 24 (fseek_cur_ignored (- 4) f1) = (got', g')"
      by (cases "fread 24 (fseek_cur_ignored (- 4) f1)")
    from quiet_fread [OF _ rd'] q1 have "\<not> ferror g'" by simp
    with fmt rd' show ?thesis by (auto simp: scan_fmt_def Let_def split: if_splits)
  next
    case data
    obtain got' g' where rd': "fread 4 f1 = (got', g')" by (cases "fread 4 f1")
    from quiet_fread [OF q1(1) rd'] have "\<not> ferror g'" by simp
    with data rd' show ?thesis by (auto simp: scan_data_def Let_def split: if_splits)
  next
    case cue
    obtain got' g' where rd': "fread 4 f1 = (got', g')" by (cases "fread 4 f1")
    from quiet_fread [OF q1(1) rd'] have "\<not> ferror g'" by simp
    with cue rd' show ?thesis by (auto simp: scan_cue_def Let_def split: if_splits)
  next
    case list
    obtain got2 g2 where rd2: "fread 4 f1 = (got2, g2)" by (cases "fread 4 f1")
    obtain got3 g3 where rd3: "fread 4 g2 = (got3, g3)" by (cases "fread 4 g2")
    from quiet_fread [OF q1(1) rd2] have q2: "quiet g2" "\<not> ferror g2" by simp_all
    from quiet_fread [OF q2(1) rd3] have q3: "quiet g3" "\<not> ferror g3" by simp_all
    from list rd2 rd3 q2 q3 have "scan_other s (fseek_cur_ignored (- 8) g3) = Failed d"
      by (auto simp: scan_list_def Let_def split: if_splits)
    from oth [OF this] q3 show ?thesis by simp
  next
    case other
    from oth [OF other q1(1)] show ?thesis by simp
  qed
qed

lemma scan_chunks_quiet_failure:
  "quiet (inputFile s) \<Longrightarrow> scan_chunks env s = Inl d \<Longrightarrow>
     d = AllocFormat \<or> d = CompressedNotSupported \<or> d = TooManyChunks"
proof (induction env s rule: scan_chunks.induct)
  case (1 env st)
  show ?case
  proof (cases "scan_chunk env st")
    case (Next s')
    with "1.prems" have "scan_chunks env s' = Inl d" by (simp add: scan_chunks.simps [of env st])
    moreover have "quiet (inputFile s')" using scan_chunk_effect(5) [OF Next] "1.prems"(1) by simp
    ultimately show ?thesis using "1.IH" [OF Next] by simp
  next
    case (Done s')
    with "1.prems" show ?thesis by (simp add: scan_chunks.simps [of env st])
  next
    case (Failed e)
    with "1.prems" have "e = d" by (simp add: scan_chunks.simps [of env st])
    with Failed scan_chunk_quiet_failure [OF "1.prems"(1)] show ?thesis by simp
  qed
qed

text \<open>
  A file whose format chunk declares compression code 2, and the stream and the scan
  state after its header.
\<close>

definition adpcm_wave :: "byte list" where
  "adpcm_wave = ''RIFF'' @ [CHR 0x26, CHR 0x00, CHR 0x00, CHR 0x00] @ ''WAVE''
     @ ''fmt '' @ [CHR 0x10, CHR 0x00, CHR 0x00, CHR 0x00, CHR 0x02, CHR 0x00, CHR 0x01, CHR 0x00,
                 CHR 0x44, CHR 0xAC, CHR 0x00, CHR 0x00, CHR 0x88, CHR 0x58, CHR 0x01, CHR 0x00,
                 CHR 0x02, CHR 0x00, CHR 0x10, CHR 0x00]"

definition after_header :: "byte list \<Rightarrow> scan_state" where
  "after_header bs =
     \<lparr>inputFile = (fopen_in bs None)\<lparr>fpos := 12\<rparr>, formatChunk = None,
      formatChunkExtraBytes = \<lparr>startOffset = 0, chunk_size = 0\<rparr>,
      dataChunkLocation = \<lparr>startOffset = 0, chunk_size = 0\<rparr>,
      otherChunkLocations = []\<rparr>"

text \<open>
  C7, as the code has it. The end of the stream at a chunk identifier ends the scan
  normally, and so does the end of the stream in the size or type field of a \<open>LIST\<close>
  chunk. Nowhere else does the scan look at the end-of-file indicator: on a stream whose
  device reports no error the scan fails only for a refused allocation, a compression
  code other than 1 and 3, or more than 256 chunks to preserve, wherever the file ends.
\<close>

theorem end_of_stream_in_scan:
  "(fread 4 (inputFile s) = (got, f1) \<and> feof f1
      \<longrightarrow> scan_chunk env s = Done (s\<lparr>inputFile := f1\<rparr>))
   \<and> (fread 4 g1 = (got1, g2) \<and> \<not> ferror g2 \<and> fread 4 g2 = (got2, g3) \<and> feof g3
      \<longrightarrow> scan_list env t g1 = Done (t\<lparr>inputFile := g3\<rparr>))
   \<and> (quiet (inputFile u) \<and> scan_chunks env u = Inl d
      \<longrightarrow> d = AllocFormat \<or> d = CompressedNotSupported \<or> d = TooManyChunks)"
proof (intro conjI impI)
  assume "fread 4 (inputFile s) = (got, f1) \<and> feof f1"
  then show "scan_chunk env s = Done (s\<lparr>inputFile := f1\<rparr>)"
    by (simp add: scan_chunk_def Let_def)
next
  assume "fread 4 g1 = (got1, g2) \<and> \<not> ferror g2 \<and> fread 4 g2 = (got2, g3) \<and> feof g3"
  then show "scan_list env t g1 = Done (t\<lparr>inputFile := g3\<rparr>)"
    by (simp add: scan_list_def Let_def)
next
  assume "quiet (inputFile u) \<and> scan_chunks env u = Inl d"
  then show "d = AllocFormat \<or> d = CompressedNotSupported \<or> d = TooManyChunks"
    using scan_chunks_quiet_failure [of u env d] by simp
qed

theorem end_of_stream_in_scan_witness:
  "fread 4 (inputFile short_scan) = ([], inputFile short_scan)
   \<and> feof (inputFile short_scan)
   \<and> scan_chunk quiet_env short_scan = Done short_scan
   \<and> fread 4 ((fopen_in list_cut_wave None)\<lparr>fpos := 50\<rparr>)
       = ([CHR 0x04, CHR 0x00, CHR 0x00, CHR 0x00], (fopen_in list_cut_wave None)\<lparr>fpos := 54\<rparr>)
   \<and> fread 4 ((fopen_in list_cut_wave None)\<lparr>fpos := 54\<rparr>)
       = (''ad'', (fopen_in list_cut_wave None)\<lparr>fpos := 56, feof := True\<rparr>)
   \<and> scan_list quiet_env small_scan ((fopen_in list_cut_wave None)\<lparr>fpos := 50\<rparr>)
       = Done (small_scan\<lparr>inputFile := (fopen_in list_cut_wave None)\<lparr>fpos := 56, feof := True\<rparr>\<rparr>)
   \<and> quiet (inputFile (after_header adpcm_wave))
   \<and> scan_chunks quiet_env (after_header adpcm_wave) = Inl CompressedNotSupported"
proof -
  have a: "fread 4 (inputFile short_scan) = ([], inputFile short_scan)"
    "feof (inputFile short_scan)"
    by (simp_all add: short_scan_def short_wave_def fmt_bytes_def fread_def fopen_in_def Let_def)
  have b: "fread 4 ((fopen_in list_cut_wave None)\<lparr>fpos := 50\<rparr>)
       = ([CHR 0x04, CHR 0x00, CHR 0x00, CHR 0x00], (fopen_in list_cut_wave None)\<lparr>fpos := 54\<rparr>)"
    "fread 4 ((fopen_in list_cut_wave None)\<lparr>fpos := 54\<rparr>)
       = (''ad'', (fopen_in list_cut_wave None)\<lparr>fpos := 56, feof := True\<rparr>)"
    "\<not> ferror ((fopen_in list_cut_wave None)\<lparr>fpos := 54\<rparr>)"
    "feof ((fopen_in list_cut_wave None)\<lparr>fpos := 56, feof := True\<rparr>)"
    by (simp_all add: list_cut_wave_def small_wave_def fmt_bytes_def fread_def fopen_in_def Let_def)
  have c: "quiet (inputFile (after_header adpcm_wave))"
    "scan_chunks quiet_env (after_header adpcm_wave) = Inl CompressedNotSupported"
    by (simp_all add: after_header_def adpcm_wave_def quiet_def quiet_env_def scan_eval_rules)
  show ?thesis
    using end_of_stream_in_scan [where s = short_scan and got = "[]"
        and ?f1.0 = "inputFile short_scan" and env = quiet_env
        and ?g1.0 = "(fopen_in list_cut_wave None)\<lparr>fpos := 50\<rparr>"
        and ?got1.0 = "[CHR 0x04, CHR 0x00, CHR 0x00, CHR 0x00]"
        and ?g2.0 = "(fopen_in list_cut_wave None)\<lparr>fpos := 54\<rparr>"
        and ?got2.0 = "''ad''"
        and ?g3.0 = "(fopen_in list_cut_wave None)\<lparr>fpos := 56, feof := True\<rparr>"
        and t = small_scan and u = "after_header adpcm_wave" and d = CompressedNotSupported]
      a b c
    by simp
qed

text \<open>
  The claim as the specification states it fails on both files: the scan of each ends
  normally and the conversion returns 0 with an output file.
\<close>

theorem end_of_stream_inside_chunk_accepted:
  "short_wave = take 42 small_wave
   \<and> read_input quiet_env (fopen_in short_wave None)
       = Inr (WaveHeader_of_bytes (take 12 short_wave), fmt44100, short_scan)
   \<and> addLabelsToWaveFile quiet_env short_wave one_label = Inr short_wave_labelled
   \<and> list_cut_wave = small_wave @ ''LIST'' @ [CHR 0x04, CHR 0x00, CHR 0x00, CHR 0x00] @ ''ad''
   \<and> read_input quiet_env (fopen_in list_cut_wave None)
       = Inr (WaveHeader_of_bytes (take 12 small_wave), fmt44100, list_cut_scan)
   \<and> addLabelsToWaveFile quiet_env list_cut_wave one_label = Inr small_wave_labelled"
proof -
  have "short_wave = take 42 small_wave"
    by (simp add: short_wave_def small_wave_def fmt_bytes_def)
  then show ?thesis
    using short_wave_read short_wave_run list_cut_wave_read list_cut_wave_run
    by (simp add: list_cut_wave_def)
qed

section \<open>The data chunk in the output\<close>

lemma small_wave_run: "addLabelsToWaveFile quiet_env small_wave one_label = Inr small_wave_labelled"
  using run_from_stages [OF quiet_env_opens(1,2), of small_wave _ fmt44100 small_scan one_label mid_label]
    small_wave_read one_label_mid small_wave_write
  by (simp add: quiet_env_opens)

text \<open>
  Where the output holds the data chunk: after the 12 bytes of the header, the 24 bytes of
  the format chunk and the extra format bytes with their pad.
\<close>

lemma data_chunk_in_output:
  assumes w: "write_labelled env hdr fc st labelInfo = Inr out"
    and scan: "read_input env f = Inr (hdr, fc, st)"
  shows "length (take (chunk_size (dataChunkLocation st))
           (drop (36 + padded_size (chunk_size (formatChunkExtraBytes st))) out))
         = chunk_size (dataChunkLocation st)"
    and "nat (startOffset (dataChunkLocation st)) + chunk_size (dataChunkLocation st)
           \<le> length (contents f) \<Longrightarrow>
         take (chunk_size (dataChunkLocation st))
           (drop (36 + padded_size (chunk_size (formatChunkExtraBytes st))) out)
         = take (chunk_size (dataChunkLocation st))
             (drop (nat (startOffset (dataChunkLocation st))) (contents f))"
proof -
  note a = read_input_accepted [OF scan]
  have c: "contents (inputFile st) = contents f" using a(5) by (simp add: scanned_from_def)
  have fl: "length (FormatChunk_bytes fc) = 24" using a(3,5) by (simp add: scanned_from_def)
  let ?H = "WaveHeader_bytes (hdr\<lparr>dataSize := uint32ToLittleEndianBytes
            (new_fileDataSize (formatChunkExtraBytes st) (dataChunkLocation st)
               (otherChunkLocations st) labelInfo (listChunkSize_of labelInfo))\<rparr>)"
  have hl: "length ?H = 12" using a(1,2) by (simp add: WaveHeader_bytes_def)
  from write_labelled_layout [OF w] obtain E D R where
    lay: "out = ?H @ FormatChunk_bytes fc @ E @ D @ R"
    and E: "length E = padded_size (chunk_size (formatChunkExtraBytes st))"
    and D: "length D = chunk_size (dataChunkLocation st)"
      "nat (startOffset (dataChunkLocation st)) + chunk_size (dataChunkLocation st)
             \<le> length (contents (inputFile st)) \<longrightarrow>
           D = take (chunk_size (dataChunkLocation st))
                 (drop (nat (startOffset (dataChunkLocation st))) (contents (inputFile st)))"
    by (elim exE conjE) (rule that, simp)
  have "out = (?H @ FormatChunk_bytes fc @ E) @ D @ R" using lay by simp
  moreover have "length (?H @ FormatChunk_bytes fc @ E)
      = 36 + padded_size (chunk_size (formatChunkExtraBytes st))"
    using hl fl E by simp
  ultimately have "drop (36 + padded_size (chunk_size (formatChunkExtraBytes st))) out = D @ R"
    by (metis append_eq_conv_conj)
  then have t: "take (chunk_size (dataChunkLocation st))
           (drop (36 + padded_size (chunk_size (formatChunkExtraBytes st))) out) = D"
    using D(1) by simp
  show "length (take (chunk_size (dataChunkLocation st))
           (drop (36 + padded_size (chunk_size (formatChunkExtraBytes st))) out))
         = chunk_size (dataChunkLocation st)"
    unfolding t using D(1) .
  show "take (chunk_size (dataChunkLocation st))
           (drop (36 + padded_size (chunk_size (formatChunkExtraBytes st))) out)
         = take (chunk_size (dataChunkLocation st))
             (drop (nat (startOffset (dataChunkLocation st))) (contents f))"
    if "nat (startOffset (dataChunkLocation st)) + chunk_size (dataChunkLocation st)
           \<le> length (contents f)"
    unfolding t using D(2) that c by simp
qed

text \<open>
  The chunk recorded as the data chunk starts at an identifier \<open>data\<close> of the input, and
  when the input holds its four size bytes the recorded size is 8 more than they say.
\<close>

lemma data_chunk_recorded:
  assumes scan: "read_input env f = Inr (hdr, fc, st)"
  shows "take 4 (drop (nat (startOffset (dataChunkLocation st))) (contents f)) = ''data''"
    and "nat (startOffset (dataChunkLocation st)) + 8 \<le> length (contents f) \<Longrightarrow>
         chunk_size (dataChunkLocation st) =
           8 + unat (littleEndianBytesToUInt32
                 (take 4 (drop (nat (startOffset (dataChunkLocation st)) + 4) (contents f))))"
proof -
  note a = read_input_accepted [OF scan]
  from a(4,5) show id: "take 4 (drop (nat (startOffset (dataChunkLocation st))) (contents f)) = ''data''"
    by (simp add: scanned_from_def)
  from a(4,5) have sz: "chunk_size (dataChunkLocation st) =
      8 + unat (littleEndianBytesToUInt32 (buffer_after (stale_bytes env) 4
            (take 4 (drop (nat (startOffset (dataChunkLocation st)) + 4) (contents f)))))"
    by (simp add: scanned_from_def)
  show "chunk_size (dataChunkLocation st) =
           8 + unat (littleEndianBytesToUInt32
                 (take 4 (drop (nat (startOffset (dataChunkLocation st)) + 4) (contents f))))"
    if "nat (startOffset (dataChunkLocation st)) + 8 \<le> length (contents f)"
  proof -
    have "length (take 4 (drop (nat (startOffset (dataChunkLocation st)) + 4) (contents f))) = 4"
      using that by simp
    from buffer_after_full [OF this] sz show ?thesis by simp
  qed
qed

text \<open>
  An environment whose uninitialised buffers hold the byte \<open>0xAA\<close>, and \<open>small_wave\<close>
  without its last byte: the data chunk declares two payload bytes and the file holds one.
\<close>

definition stale_env :: environment where
  "stale_env = quiet_env\<lparr>stale_bytes := (\<lambda>i. CHR 0xAA)\<rparr>"

definition cut_wave :: "byte list" where
  "cut_wave = ''RIFF'' @ [CHR 0x26, CHR 0x00, CHR 0x00, CHR 0x00] @ ''WAVE'' @ fmt_bytes
     @ ''data'' @ [CHR 0x02, CHR 0x00, CHR 0x00, CHR 0x00] @ [CHR 0x11]"

definition cut_scan :: scan_state where
  "cut_scan =
     \<lparr>inputFile = (fopen_in cut_wave None)\<lparr>fpos := 46, feof := True\<rparr>,
      formatChunk = Some fmt44100,
      formatChunkExtraBytes = \<lparr>startOffset = 0, chunk_size = 0\<rparr>,
      dataChunkLocation = \<lparr>startOffset = 36, chunk_size = 10\<rparr>,
      otherChunkLocations = []\<rparr>"

definition cut_wave_labelled :: "byte list" where
  "cut_wave_labelled =
     ''RIFF'' @ uint32ToLittleEndianBytes 102 @ ''WAVE'' @ fmt_bytes
     @ ''data'' @ [CHR 0x02, CHR 0x00, CHR 0x00, CHR 0x00] @ [CHR 0x11, CHR 0xAA]
     @ ''cue '' @ uint32ToLittleEndianBytes 28 @ uint32ToLittleEndianBytes 1
     @ uint32ToLittleEndianBytes 1 @ uint32ToLittleEndianBytes 22050
     @ ''data'' @ uint32ToLittleEndianBytes 0 @ uint32ToLittleEndianBytes 0
     @ uint32ToLittleEndianBytes 22050
     @ ''LIST'' @ uint32ToLittleEndianBytes 20 @ ''adtl''
     @ ''labl'' @ uint32ToLittleEndianBytes 8 @ uint32ToLittleEndianBytes 1
     @ ''mid'' @ [CHR 0x00]"

lemma cut_wave_read:
  "read_input stale_env (fopen_in cut_wave None)
     = Inr (WaveHeader_of_bytes (take 12 cut_wave), fmt44100, cut_scan)"
  by (simp add: stale_env_def quiet_env_def cut_wave_def fmt_bytes_def cut_scan_def fmt44100_def
      scan_eval_rules)

lemma cut_wave_write:
  "write_labelled stale_env (WaveHeader_of_bytes (take 12 cut_wave)) fmt44100 cut_scan mid_label
     = Inr cut_wave_labelled"
  by (simp add: stale_env_def quiet_env_def cut_wave_def fmt_bytes_def cut_scan_def fmt44100_def
      mid_label_def cut_wave_labelled_def WaveHeader_of_bytes_def FormatChunk_of_bytes_def
      write_eval_rules upt_rec)

lemma cut_wave_run: "addLabelsToWaveFile stale_env cut_wave one_label = Inr cut_wave_labelled"
proof -
  have o: "input_opens stale_env" "label_opens stale_env" "input_rd_budget stale_env = None"
    by (simp_all add: stale_env_def quiet_env_def)
  show ?thesis
    using run_from_stages [OF o(1,2), of cut_wave _ fmt44100 cut_scan one_label mid_label]
      cut_wave_read one_label_mid cut_wave_write
    by (simp add: o)
qed




section \<open>The length field of a whole conversion\<close>

text \<open>
  A file of 44 bytes whose data chunk declares \<open>0xFFFFFFF8\<close> payload bytes and holds
  none, and the state of the scan after it.
\<close>

definition huge_wave :: "byte list" where
  "huge_wave = ''RIFF'' @ [CHR 0x24, CHR 0x00, CHR 0x00, CHR 0x00] @ ''WAVE'' @ fmt_bytes
     @ ''data'' @ [CHR 0xF8, CHR 0xFF, CHR 0xFF, CHR 0xFF]"

definition huge_scan :: scan_state where
  "huge_scan =
     \<lparr>inputFile = (fopen_in huge_wave None)\<lparr>fpos := 4294967332, feof := True\<rparr>,
      formatChunk = Some fmt44100,
      formatChunkExtraBytes = \<lparr>startOffset = 0, chunk_size = 0\<rparr>,
      dataChunkLocation = \<lparr>startOffset = 36, chunk_size = 4294967296\<rparr>,
      otherChunkLocations = []\<rparr>"

lemma huge_wave_read:
  "read_input quiet_env (fopen_in huge_wave None)
     = Inr (WaveHeader_of_bytes (take 12 huge_wave), fmt44100, huge_scan)"
  by (simp add: quiet_env_def huge_wave_def fmt_bytes_def huge_scan_def fmt44100_def
      scan_eval_rules)

lemma unat_word_of_nat_32: "unat (word_of_nat n :: 32 word) = n mod 2 ^ 32"
  by (simp add: unat_of_nat)

text \<open>
  The output of a conversion that returns 0 is 8 bytes longer than the specification's
  sum, and its length field is that sum reduced modulo \<open>2 ^ 32\<close>.
\<close>

lemma run_length:
  assumes run: "addLabelsToWaveFile env input labelText = Inr out"
    and scan: "read_input env (fopen_in input (input_rd_budget env)) = Inr (hdr, fc, st)"
    and labels: "readLabelFile (fopen_in labelText None) fc = Inr labelInfo"
  shows "length out = 8 + spec_total_size (formatChunkExtraBytes st) (dataChunkLocation st)
           (otherChunkLocations st) (unat (count labelInfo))
           (length (labelChunks (make_listChunk labelInfo)))"
    and "unat (littleEndianBytesToUInt32 (take 4 (drop 4 out))) = (length out - 8) mod 2 ^ 32"
proof -
  from run_stages [OF run] scan labels have
    w: "write_labelled env hdr fc st labelInfo = Inr out" by auto
  note a = read_input_accepted [OF scan]
  have h: "length (chunkID_h hdr) = 4" "length (riffType hdr) = 4" using a(1,2) by simp_all
  have f: "length (FormatChunk_bytes fc) = 24" using a(3,5) by (simp add: scanned_from_def)
  note l = write_labelled_length [OF w h f]
  show len: "length out = 8 + spec_total_size (formatChunkExtraBytes st) (dataChunkLocation st)
           (otherChunkLocations st) (unat (count labelInfo))
           (length (labelChunks (make_listChunk labelInfo)))"
    using l(1) by (simp add: length_labelChunks)
  have "littleEndianBytesToUInt32 (take 4 (drop 4 out))
      = word_of_nat (spec_total_size (formatChunkExtraBytes st) (dataChunkLocation st)
           (otherChunkLocations st) (unat (count labelInfo)) (listChunkSize_of labelInfo))"
    unfolding l(2) littleEndian_roundtrip
    by (rule new_fileDataSize_spec [OF listChunkSize_even])
  then show "unat (littleEndianBytesToUInt32 (take 4 (drop 4 out))) = (length out - 8) mod 2 ^ 32"
    using l(1) by (simp add: unat_word_of_nat_32)
qed




section \<open>From the start time to the cue point\<close>

text \<open>
  A label file with one record, at 1001.5 seconds. At 44100 frames per second the product
  is 44166150, which has 26 significant bits; binary32 keeps 24.
\<close>

definition late_label :: string where
  "late_label = ''1001.5'' @ [CHR 0x09] @ ''1002'' @ [CHR 0x09] @ ''end''"

definition late_info :: LabelInfo where
  "late_info = \<lparr>locations = [44166152], labels = [''end'' @ replicate 497 (CHR 0x00)],
            labelLengths = [4], count = 1\<rparr>"

lemma late_label_scanned:
  "fst (fscanf_stream (fopen_in late_label None)) = Assigned (Finite (2003 / 2)) ''end''"
  by (simp add: late_label_def stream_eval scan_eval float_eval)

lemma late_label_read: "readLabelFile (fopen_in late_label None) fmt44100 = Inr late_info"
  by (simp add: late_label_def late_info_def fmt44100_def FormatChunk_of_bytes_def stream_eval
      read_labels.simps scan_eval float_eval flip: replicate_Suc)

lemma uint_word_of_int_32:
  "0 \<le> k \<Longrightarrow> k < 2 ^ 32 \<Longrightarrow> uint (word_of_int k :: 32 word) = k"
  by (simp add: uint_word_of_int)

text \<open>What \<open>timeToIndex\<close> returns, when it returns.\<close>

lemma timeToIndex_Some:
  assumes "timeToIndex x fc = Some w"
  shows "\<exists>q. float_mult x (float_of_uint32 (littleEndianBytesToUInt32 (sampleRate fc))) = Finite q
           \<and> 0 \<le> truncate_toward_zero q \<and> truncate_toward_zero q < 2 ^ 32
           \<and> uint w = truncate_toward_zero q"
proof (cases "float_mult x (float_of_uint32 (littleEndianBytesToUInt32 (sampleRate fc)))")
  case (Finite q)
  with assms have r: "0 \<le> truncate_toward_zero q" "truncate_toward_zero q < 2 ^ 32"
    and w: "w = word_of_int (truncate_toward_zero q)"
    by (auto simp: timeToIndex_def Let_def split: if_splits)
  show ?thesis using Finite r uint_word_of_int_32 [OF r] w by simp
qed (use assms in \<open>simp_all add: timeToIndex_def Let_def\<close>)

lemma timeToIndex_channels:
  "timeToIndex x (fc\<lparr>numberOfChannels := channels\<rparr>) = timeToIndex x fc"
  by (simp add: timeToIndex_def Let_def)

text \<open>The cue point of the record that a turn of the reader has stored.\<close>

lemma stored_record_cue_point:
  assumes sc: "fscanf_stream labelFile = (Assigned startTime scanned_label, f1)"
    and le: "float_le startTime (Finite 48660)"
    and rd: "read_label_record fc labelFile labelInfo = Inr (f', labelInfo')"
    and n: "length (locations labelInfo) = unat (count labelInfo)"
  shows "timeToIndex startTime fc
           = Some (littleEndianBytesToUInt32
                     (frameOffset (cue_point_at labelInfo' (unat (count labelInfo)))))"
    and "playOrderPosition (cue_point_at labelInfo' (unat (count labelInfo)))
           = frameOffset (cue_point_at labelInfo' (unat (count labelInfo)))"
proof -
  from sc le rd obtain index where
    t: "timeToIndex startTime fc = Some index"
    and l: "locations labelInfo' = locations labelInfo @ [index]"
    by (auto simp: read_label_record_def Let_def split: if_splits option.splits)
  have "locations labelInfo' ! unat (count labelInfo) = index"
    unfolding l using n by (simp add: nth_append)
  then show "timeToIndex startTime fc
           = Some (littleEndianBytesToUInt32
                     (frameOffset (cue_point_at labelInfo' (unat (count labelInfo)))))"
    using t by (simp add: cue_point_at_def)
  show "playOrderPosition (cue_point_at labelInfo' (unat (count labelInfo)))
           = frameOffset (cue_point_at labelInfo' (unat (count labelInfo)))"
    by (simp add: cue_point_at_def)
qed






end
